(* ===== verification/Prelude.thy ===== *)
theory Prelude
  imports Main "HOL-Library.Word"
begin

text \<open>
  Shared vocabulary of the development: the byte and string types of the program, the
  big-endian integer encodings that \<open>htobe16/32/64\<close> followed by \<open>memcpy\<close> produce, the
  bounds-checked reads and writes of a byte buffer, and the lemmas on lists and words that
  every component uses.  A read or a write outside a buffer is undefined behaviour in C++;
  here it is the explicit outcome \<open>OOB\<close> (reads) or \<open>None\<close> (writes), so that memory safety
  is a theorem and not an assumption.
\<close>

section \<open>Types\<close>

type_synonym byte = "8 word"
type_synonym bytes = "byte list"
type_synonym u16 = "16 word"
type_synonym u32 = "32 word"
type_synonym u64 = "64 word"

named_theorems codec_simps \<open>evaluation of encoders and decoders on encoded data\<close>
named_theorems safe_simps \<open>facts that rule out reads outside a buffer\<close>

lemma unat_less_pow [simp]:
  "unat (a :: u16) < 65536" "unat (b :: u32) < 4294967296"
  "unat (c :: u64) < 18446744073709551616" "unat (d :: byte) < 256"
proof -
  have "unat a < 2 ^ LENGTH(16)" "unat b < 2 ^ LENGTH(32)"
    "unat c < 2 ^ LENGTH(64)" "unat d < 2 ^ LENGTH(8)"
    by (rule unsigned_less)+
  then show "unat a < 65536" "unat b < 4294967296" "unat c < 18446744073709551616" "unat d < 256"
    by simp_all
qed

lemmas unat_byte_less = unat_less_pow(4)

section \<open>Characters and bytes\<close>

text \<open>\<open>std::string\<close> is a list of \<open>char\<close>; \<open>reinterpret_cast\<close> between \<open>char*\<close> and
  \<open>uint8_t*\<close> is the bijection between characters and bytes.\<close>

definition byte_of_char :: "char \<Rightarrow> byte" where
  "byte_of_char c = word_of_nat (of_char c)"

definition char_of_byte :: "byte \<Rightarrow> char" where
  "char_of_byte b = char_of (unat b)"

lemma char_of_byte_of_char [simp]: "char_of_byte (byte_of_char c) = c"
proof -
  have "(of_char c :: nat) < 256"
    by (rule nat_of_char_less_256)
  then have "unat (word_of_nat (of_char c) :: byte) = of_char c"
    by (simp add: unat_of_nat)
  then show ?thesis
    by (simp add: byte_of_char_def char_of_byte_def)
qed

lemma byte_of_char_of_byte [simp]: "byte_of_char (char_of_byte b) = b"
proof -
  have "unat b < 256"
    by (rule unat_byte_less)
  then have "(of_char (char_of (unat b) :: char) :: nat) = unat b"
    by (simp add: of_char_of)
  then show ?thesis
    by (simp add: byte_of_char_def char_of_byte_def)
qed

definition bytes_of :: "string \<Rightarrow> bytes" where
  "bytes_of s = map byte_of_char s"

definition string_of :: "bytes \<Rightarrow> string" where
  "string_of bs = map char_of_byte bs"

lemma string_of_bytes_of [simp]: "string_of (bytes_of s) = s"
  by (simp add: string_of_def bytes_of_def o_def)

lemma bytes_of_string_of [simp]: "bytes_of (string_of bs) = bs"
  by (simp add: string_of_def bytes_of_def o_def)

lemma length_bytes_of [simp]: "length (bytes_of s) = length s"
  by (simp add: bytes_of_def)

lemma length_string_of [simp]: "length (string_of bs) = length bs"
  by (simp add: string_of_def)

lemma bytes_of_inject [simp]: "bytes_of s = bytes_of t \<longleftrightarrow> s = t"
  by (metis string_of_bytes_of)

lemma bytes_of_Nil [simp]: "bytes_of [] = []"
  by (simp add: bytes_of_def)

lemma string_of_Nil [simp]: "string_of [] = []"
  by (simp add: string_of_def)

text \<open>\<open>c_str()\<close> as a C string ends at the first NUL.\<close>

definition c_string :: "string \<Rightarrow> string" where
  "c_string s = takeWhile (\<lambda>c. c \<noteq> CHR 0x00) s"

section \<open>Big-endian integers\<close>

fun be_bytes :: "nat \<Rightarrow> nat \<Rightarrow> bytes" where
  "be_bytes 0 v = []"
| "be_bytes (Suc n) v = be_bytes n (v div 256) @ [word_of_nat v]"

fun be_nat_acc :: "nat \<Rightarrow> bytes \<Rightarrow> nat" where
  "be_nat_acc a [] = a"
| "be_nat_acc a (b # bs) = be_nat_acc (a * 256 + unat b) bs"

definition be_nat :: "bytes \<Rightarrow> nat" where
  "be_nat bs = be_nat_acc 0 bs"

lemma length_be_bytes [simp]: "length (be_bytes n v) = n"
  by (induction n v rule: be_bytes.induct) simp_all

lemma be_nat_acc_snoc: "be_nat_acc a (bs @ [b]) = be_nat_acc a bs * 256 + unat b"
  by (induction a bs rule: be_nat_acc.induct) simp_all

lemma unat_byte_of_nat: "unat (word_of_nat v :: byte) = v mod 256"
  by (simp add: unat_of_nat)

lemma be_nat_be_bytes: "be_nat (be_bytes n v) = v mod 256 ^ n"
proof (induction n v rule: be_bytes.induct)
  case (1 v)
  then show ?case by (simp add: be_nat_def)
next
  case (2 n v)
  have "v mod (256 * 256 ^ n) = 256 * (v div 256 mod 256 ^ n) + v mod 256"
    by (rule mod_mult2_eq)
  with 2 show ?case
    by (simp add: be_nat_def be_nat_acc_snoc unat_byte_of_nat)
qed

lemma be_bytes_be_nat: "be_bytes (length bs) (be_nat bs) = bs"
proof (induction bs rule: rev_induct)
  case Nil
  then show ?case by simp
next
  case (snoc b bs)
  have "unat b < 256"
    by (rule unat_byte_less)
  then have "unat (word_of_nat (be_nat bs * 256 + unat b) :: byte) = unat b"
    unfolding unat_byte_of_nat by simp
  then have "(word_of_nat (be_nat bs * 256 + unat b) :: byte) = b"
    by (rule unsigned_word_eqI)
  with snoc \<open>unat b < 256\<close> show ?case
    by (simp add: be_nat_def be_nat_acc_snoc)
qed

lemma be_nat_less: "be_nat bs < 256 ^ length bs"
  by (metis be_bytes_be_nat be_nat_be_bytes mod_less_divisor zero_less_numeral zero_less_power)

definition enc16 :: "u16 \<Rightarrow> bytes" where "enc16 w = be_bytes 2 (unat w)"
definition enc32 :: "u32 \<Rightarrow> bytes" where "enc32 w = be_bytes 4 (unat w)"
definition enc64 :: "u64 \<Rightarrow> bytes" where "enc64 w = be_bytes 8 (unat w)"
definition dec16 :: "bytes \<Rightarrow> u16" where "dec16 bs = word_of_nat (be_nat bs)"
definition dec32 :: "bytes \<Rightarrow> u32" where "dec32 bs = word_of_nat (be_nat bs)"
definition dec64 :: "bytes \<Rightarrow> u64" where "dec64 bs = word_of_nat (be_nat bs)"

lemma length_enc [simp]:
  "length (enc16 a) = 2" "length (enc32 b) = 4" "length (enc64 c) = 8"
  by (simp_all add: enc16_def enc32_def enc64_def)

lemma word_of_nat_mod_range:
  fixes w :: "'a::len word"
  assumes "2 ^ LENGTH('a) = m"
  shows "word_of_nat (unat w mod m) = w"
proof -
  have "unat w < 2 ^ LENGTH('a)"
    by (rule unsigned_less)
  with assms have "unat w mod m = unat w"
    by simp
  then show ?thesis
    by simp
qed

lemma dec_enc [simp]:
  "dec16 (enc16 a) = a" "dec32 (enc32 b) = b" "dec64 (enc64 c) = c"
  by (simp_all add: enc16_def enc32_def enc64_def dec16_def dec32_def dec64_def
      be_nat_be_bytes word_of_nat_mod_range)

lemma enc_dec16: "length bs = 2 \<Longrightarrow> enc16 (dec16 bs) = bs"
  using be_bytes_be_nat [of bs] be_nat_less [of bs]
  by (simp add: enc16_def dec16_def unat_of_nat)

lemma enc_dec32: "length bs = 4 \<Longrightarrow> enc32 (dec32 bs) = bs"
  using be_bytes_be_nat [of bs] be_nat_less [of bs]
  by (simp add: enc32_def dec32_def unat_of_nat)

lemma enc_dec64: "length bs = 8 \<Longrightarrow> enc64 (dec64 bs) = bs"
  using be_bytes_be_nat [of bs] be_nat_less [of bs]
  by (simp add: enc64_def dec64_def unat_of_nat)

lemmas enc_dec = enc_dec16 enc_dec32 enc_dec64

lemma enc_inject [simp]:
  "enc16 a = enc16 a' \<longleftrightarrow> a = a'" "enc32 b = enc32 b' \<longleftrightarrow> b = b'"
  "enc64 c = enc64 c' \<longleftrightarrow> c = c'"
  by (metis dec_enc(1), metis dec_enc(2), metis dec_enc(3))

text \<open>\<open>static_cast<uint16_t>(s.size())\<close> and \<open>static_cast<uint32_t>(size)\<close> keep the low bits.\<close>

definition size16 :: "nat \<Rightarrow> u16" where "size16 n = word_of_nat n"
definition size32 :: "nat \<Rightarrow> u32" where "size32 n = word_of_nat n"
definition size64 :: "nat \<Rightarrow> u64" where "size64 n = word_of_nat n"

lemma unat_size:
  "unat (size16 n) = n mod 65536" "unat (size32 n) = n mod 4294967296"
  "unat (size64 n) = n mod 18446744073709551616"
  by (simp_all add: size16_def size32_def size64_def unat_of_nat)

lemma unat_size16_small [simp]: "n < 65536 \<Longrightarrow> unat (size16 n) = n"
  by (simp add: unat_size)

lemma unat_size32_small [simp]: "n < 4294967296 \<Longrightarrow> unat (size32 n) = n"
  by (simp add: unat_size)

lemma unat_size64_small [simp]: "n < 18446744073709551616 \<Longrightarrow> unat (size64 n) = n"
  by (simp add: unat_size)

lemma size64_inject:
  "m < 18446744073709551616 \<Longrightarrow> n < 18446744073709551616 \<Longrightarrow> size64 m = size64 n \<longleftrightarrow> m = n"
  by (metis unat_size64_small)

lemma apsnd_eq_Pair: "apsnd f p = (a, t) \<longleftrightarrow> (\<exists>s. t = f s \<and> p = (a, s))"
  by (cases p) auto

text \<open>\<open>std::to_string\<close> of an unsigned number.\<close>

fun to_string :: "nat \<Rightarrow> string" where
  "to_string n =
     (if n < 10 then [char_of (48 + n)] else to_string (n div 10) @ [char_of (48 + n mod 10)])"

declare to_string.simps [simp del]

section \<open>Reading a buffer\<close>

text \<open>The outcome of a parser that returns \<open>bool\<close> and writes its results through references:
  it can read outside its input (undefined behaviour), leave with an exception (a container
  that cannot be allocated), return \<open>false\<close>, or return \<open>true\<close> with the results.\<close>

datatype 'a parse = OOB | Throws | Rejected | Parsed 'a

definition read_bytes :: "bytes \<Rightarrow> nat \<Rightarrow> nat \<Rightarrow> (bytes \<Rightarrow> 'a parse) \<Rightarrow> 'a parse" where
  "read_bytes d off n k = (if off + n \<le> length d then k (take n (drop off d)) else OOB)"

definition read8 :: "bytes \<Rightarrow> nat \<Rightarrow> (byte \<Rightarrow> 'a parse) \<Rightarrow> 'a parse" where
  "read8 d off k = read_bytes d off 1 (\<lambda>bs. k (hd bs))"

definition read16 :: "bytes \<Rightarrow> nat \<Rightarrow> (u16 \<Rightarrow> 'a parse) \<Rightarrow> 'a parse" where
  "read16 d off k = read_bytes d off 2 (\<lambda>bs. k (dec16 bs))"

definition read32 :: "bytes \<Rightarrow> nat \<Rightarrow> (u32 \<Rightarrow> 'a parse) \<Rightarrow> 'a parse" where
  "read32 d off k = read_bytes d off 4 (\<lambda>bs. k (dec32 bs))"

definition read64 :: "bytes \<Rightarrow> nat \<Rightarrow> (u64 \<Rightarrow> 'a parse) \<Rightarrow> 'a parse" where
  "read64 d off k = read_bytes d off 8 (\<lambda>bs. k (dec64 bs))"

definition read_string :: "bytes \<Rightarrow> nat \<Rightarrow> nat \<Rightarrow> (string \<Rightarrow> 'a parse) \<Rightarrow> 'a parse" where
  "read_string d off n k = read_bytes d off n (\<lambda>bs. k (string_of bs))"

lemmas read_defs = read_bytes_def read8_def read16_def read32_def read64_def read_string_def

section \<open>Writing a buffer\<close>

text \<open>\<open>payload.resize(total)\<close> followed by a \<open>memcpy\<close> per field at a running offset.\<close>

fun write_fields :: "nat \<Rightarrow> bytes list \<Rightarrow> bytes \<Rightarrow> bytes option" where
  "write_fields off [] buf = Some buf"
| "write_fields off (f # fs) buf =
     (if off + length f \<le> length buf
      then write_fields (off + length f) fs (take off buf @ f @ drop (off + length f) buf)
      else None)"

definition layout :: "nat \<Rightarrow> bytes list \<Rightarrow> bytes" where
  "layout sz fs = (case write_fields 0 fs (replicate sz 0) of Some buf \<Rightarrow> buf | None \<Rightarrow> [])"

lemma write_fields_append:
  "write_fields (length pre) fs (pre @ replicate (sum_list (map length fs)) 0) = Some (pre @ concat fs)"
proof (induction fs arbitrary: pre)
  case Nil
  then show ?case by simp
next
  case (Cons f fs)
  from Cons.IH [of "pre @ f"] show ?case
    by (simp add: replicate_add [symmetric] add.commute)
qed

lemma write_fields_exact:
  "sz = sum_list (map length fs) \<Longrightarrow> write_fields 0 fs (replicate sz 0) = Some (concat fs)"
  using write_fields_append [of "[]" fs] by simp

lemma layout_concat: "sz = sum_list (map length fs) \<Longrightarrow> layout sz fs = concat fs"
  by (simp add: layout_def write_fields_exact)

end
