(* ===== verification/Session.thy ===== *)
theory Session
  imports Prelude
begin

text \<open>
  \<open>server/session.hpp\<close> and \<open>common/connection_state.hpp\<close>: the session of a connection and the
  states that the server and the client SDK share.
\<close>

record session =
  session_id :: u64
  session_username :: string
  session_authenticated :: bool

datatype connection_state =
    DISCONNECTED | CONNECTING | TLS_HANDSHAKE | CONNECTED_UNAUTHENTICATED | AUTHENTICATING
  | AUTHENTICATED

definition new_session :: session where
  "new_session = \<lparr>session_id = 0, session_username = [], session_authenticated = False\<rparr>"

end
