(* ===== verification/Hashing.thy ===== *)
theory Hashing
  imports Prelude
begin

text \<open>
  \<open>common/hash.cpp\<close>.  OpenSSL's digest calls are the parameter \<open>evp\<close> of the definitions: a call
  that does not return 1 is \<open>None\<close>.  What the program relies on is \<open>evp_computes\<close>: feeding blocks
  to a fresh context and finalising it gives the digest of their concatenation.
\<close>

record 'c evp =
  evp_new :: "'c option"
  evp_update :: "'c \<Rightarrow> bytes \<Rightarrow> 'c option"
  evp_final :: "'c \<Rightarrow> bytes option"

fun evp_feed :: "'c evp \<Rightarrow> 'c \<Rightarrow> bytes list \<Rightarrow> 'c option" where
  "evp_feed E c [] = Some c"
| "evp_feed E c (d # ds) = (case evp_update E c d of None \<Rightarrow> None | Some c' \<Rightarrow> evp_feed E c' ds)"

definition evp_computes :: "'c evp \<Rightarrow> (bytes \<Rightarrow> bytes) \<Rightarrow> bool" where
  "evp_computes E H \<longleftrightarrow>
     (\<forall>c0 ds c h. evp_new E = Some c0 \<longrightarrow> evp_feed E c0 ds = Some c \<longrightarrow> evp_final E c = Some h \<longrightarrow>
        h = H (concat ds)) \<and>
     (\<forall>d. length (H d) = 32)"

text \<open>No digest call fails.\<close>

definition evp_total :: "'c evp \<Rightarrow> bool" where
  "evp_total E \<longleftrightarrow> evp_new E \<noteq> None \<and> (\<forall>c d. evp_update E c d \<noteq> None) \<and> (\<forall>c. evp_final E c \<noteq> None)"

section \<open>Hexadecimal output\<close>

definition hex_digit :: "nat \<Rightarrow> char" where
  "hex_digit n = ''0123456789abcdef'' ! n"

definition hex_byte :: "byte \<Rightarrow> string" where
  "hex_byte b = [hex_digit (unat b div 16), hex_digit (unat b mod 16)]"

fun to_hex :: "bytes \<Rightarrow> string" where
  "to_hex [] = []"
| "to_hex (b # bs) = hex_byte b @ to_hex bs"

lemma length_to_hex [simp]: "length (to_hex bs) = 2 * length bs"
  by (induction bs) (simp_all add: hex_byte_def)

lemma to_hex_eq_Nil [simp]: "to_hex bs = [] \<longleftrightarrow> bs = []"
  by (cases bs) (simp_all add: hex_byte_def)

lemma hex_digit_inject: "m < 16 \<Longrightarrow> n < 16 \<Longrightarrow> hex_digit m = hex_digit n \<longleftrightarrow> m = n"
  unfolding hex_digit_def by (rule nth_eq_iff_index_eq) simp_all

lemma hex_byte_inject [simp]: "hex_byte a = hex_byte b \<longleftrightarrow> a = b"
proof
  assume eq: "hex_byte a = hex_byte b"
  have "unat a div 16 < 16" "unat b div 16 < 16"
    using unat_byte_less [of a] unat_byte_less [of b] by linarith+
  then have "unat a div 16 = unat b div 16" "unat a mod 16 = unat b mod 16"
    using eq by (simp_all add: hex_byte_def hex_digit_inject)
  then have "unat a = unat b"
    by (metis div_mult_mod_eq)
  then show "a = b"
    by (rule unsigned_word_eqI)
qed simp

lemma to_hex_inject [simp]: "to_hex xs = to_hex ys \<longleftrightarrow> xs = ys"
proof (induction xs arbitrary: ys)
  case Nil
  then show ?case by (cases ys) (simp_all add: hex_byte_def)
next
  case (Cons x xs)
  show ?case
  proof (cases ys)
    case Nil
    then show ?thesis by (simp add: hex_byte_def)
  next
    case (Cons y zs)
    have "to_hex (x # xs) = to_hex (y # zs) \<longleftrightarrow> hex_byte x = hex_byte y \<and> to_hex xs = to_hex zs"
      by (simp add: hex_byte_def)
    with Cons Cons.IH show ?thesis by simp
  qed
qed

section \<open>sha256 and sha256File\<close>

definition sha256 :: "'c evp \<Rightarrow> string \<Rightarrow> string" where
  "sha256 E input =
     (case evp_new E of
        None \<Rightarrow> ''''
      | Some ctx \<Rightarrow>
          (case evp_update E ctx (bytes_of input) of
             None \<Rightarrow> ''''
           | Some ctx \<Rightarrow> (case evp_final E ctx of None \<Rightarrow> '''' | Some hash \<Rightarrow> to_hex hash)))"

text \<open>Reading a file of content \<open>d\<close> in blocks of \<open>n\<close> bytes until the end: the blocks read.\<close>

function read_blocks :: "nat \<Rightarrow> bytes \<Rightarrow> bytes list" where
  "read_blocks n d = (if d = [] \<or> n = 0 then [] else take n d # read_blocks n (drop n d))"
  by pat_completeness auto
termination
  by (relation "measure (\<lambda>(n, d). length d)") auto

declare read_blocks.simps [simp del]

lemma concat_read_blocks: "0 < n \<Longrightarrow> concat (read_blocks n d) = d"
  by (induction n d rule: read_blocks.induct) (subst read_blocks.simps, auto)

definition block_size :: nat where
  "block_size = 64 * 1024"

text \<open>The loop of \<open>sha256File\<close> ignores the result of \<open>EVP_DigestUpdate\<close>; so does the final
  step, whose failure leaves \<open>length = 0\<close> and therefore an empty string.\<close>

fun digest_blocks :: "'c evp \<Rightarrow> 'c \<Rightarrow> bytes list \<Rightarrow> 'c" where
  "digest_blocks E ctx [] = ctx"
| "digest_blocks E ctx (d # ds) =
     (case evp_update E ctx d of
        None \<Rightarrow> digest_blocks E ctx ds
      | Some ctx' \<Rightarrow> digest_blocks E ctx' ds)"

definition sha256_content :: "'c evp \<Rightarrow> bytes \<Rightarrow> string" where
  "sha256_content E d =
     (case evp_new E of
        None \<Rightarrow> ''''
      | Some ctx \<Rightarrow>
          (case evp_final E (digest_blocks E ctx (read_blocks block_size d)) of
             None \<Rightarrow> '''' | Some hash \<Rightarrow> to_hex hash))"

lemma digest_blocks_feed: "evp_feed E c ds = Some c' \<Longrightarrow> digest_blocks E c ds = c'"
  by (induction E c ds rule: evp_feed.induct) (auto split: option.splits)

lemma evp_feed_append:
  "evp_feed E c (xs @ ys) = (case evp_feed E c xs of None \<Rightarrow> None | Some c' \<Rightarrow> evp_feed E c' ys)"
  by (induction E c xs rule: evp_feed.induct) (auto split: option.splits)

lemma evp_total_feed: "evp_total E \<Longrightarrow> \<exists>c'. evp_feed E c ds = Some c'"
  by (induction E c ds rule: evp_feed.induct) (auto simp: evp_total_def split: option.splits)

lemma evp_computesD:
  "evp_computes E H \<Longrightarrow> evp_new E = Some c0 \<Longrightarrow> evp_feed E c0 ds = Some c \<Longrightarrow>
    evp_final E c = Some h \<Longrightarrow> h = H (concat ds)"
  by (auto simp: evp_computes_def)

lemma sha256_content_eq:
  assumes "evp_computes E H" and "evp_total E"
  shows "sha256_content E d = to_hex (H d)"
proof -
  obtain c0 where c0: "evp_new E = Some c0"
    using assms(2) by (auto simp: evp_total_def)
  obtain c where c: "evp_feed E c0 (read_blocks block_size d) = Some c"
    using evp_total_feed [OF assms(2)] by blast
  obtain h where h: "evp_final E c = Some h"
    using assms(2) unfolding evp_total_def by blast
  have "h = H d"
    using evp_computesD [OF assms(1) c0 c h] by (simp add: concat_read_blocks block_size_def)
  then show ?thesis
    by (simp add: sha256_content_def c0 digest_blocks_feed [OF c] h)
qed

lemma sha256_eq:
  assumes "evp_computes E H" and "evp_total E"
  shows "sha256 E s = to_hex (H (bytes_of s))"
proof -
  obtain c0 where c0: "evp_new E = Some c0"
    using assms(2) by (auto simp: evp_total_def)
  obtain c where c: "evp_feed E c0 [bytes_of s] = Some c"
    using evp_total_feed [OF assms(2)] by blast
  obtain h where h: "evp_final E c = Some h"
    using assms(2) unfolding evp_total_def by blast
  have "evp_update E c0 (bytes_of s) = Some c"
    using c by (simp split: option.splits)
  moreover have "h = H (bytes_of s)"
    using evp_computesD [OF assms(1) c0 c h] by simp
  ultimately show ?thesis
    by (simp add: sha256_def c0 h)
qed

end
