(* ===== verification/Filesystem.thy ===== *)
theory Filesystem
  imports Prelude "HOL-Library.Sublist"
begin

text \<open>
  What the program uses of \<open>std::filesystem\<close> and of file streams: paths and their lexical
  operations, the lookup of a path through directories and symbolic links, the status queries,
  \<open>canonical\<close> and \<open>weakly_canonical\<close>, directory creation, removal, renaming, and opening,
  writing and closing a file.  Paths are absolute and given by their elements, a trailing
  separator being a last element \<open>''''\<close>, as iteration over a \<open>std::filesystem::path\<close> gives them.
\<close>

section \<open>Paths\<close>

type_synonym apath = "string list"

datatype path = Path (is_absolute: bool) (elements: "string list")

fun split_slash :: "string \<Rightarrow> string list" where
  "split_slash [] = [[]]"
| "split_slash (c # s) =
     (if c = CHR ''/'' then [] # split_slash s
      else (case split_slash s of [] \<Rightarrow> [[c]] | x # xs \<Rightarrow> (c # x) # xs))"

definition path_of :: "string \<Rightarrow> path" where
  "path_of s =
     (let names = filter (\<lambda>x. x \<noteq> []) (split_slash s)
      in Path (s \<noteq> [] \<and> hd s = CHR ''/'')
           (if names \<noteq> [] \<and> last s = CHR ''/'' then names @ [[]] else names))"

fun join_slash :: "string list \<Rightarrow> string" where
  "join_slash [] = []"
| "join_slash [x] = x"
| "join_slash (x # y # ys) = x @ CHR ''/'' # join_slash (y # ys)"

definition path_string :: "apath \<Rightarrow> string" where
  "path_string p = CHR ''/'' # join_slash p"

text \<open>\<open>operator/\<close> with an absolute left operand: appending an empty path adds a separator.\<close>

definition path_append :: "apath \<Rightarrow> path \<Rightarrow> apath" where
  "path_append p q =
     (let base = (if p \<noteq> [] \<and> last p = [] then butlast p else p)
      in if is_absolute q then elements q
         else if elements q = [] then (if base = [] then [] else base @ [[]])
         else base @ elements q)"

definition parent_path :: "apath \<Rightarrow> apath" where
  "parent_path p = butlast p"

definition path_filename :: "apath \<Rightarrow> string" where
  "path_filename p = (if p = [] then [] else last p)"

definition as_directory :: "string list \<Rightarrow> apath" where
  "as_directory st = (if st = [] then [] else rev st @ [[]])"

text \<open>\<open>lexically_normal\<close> of an absolute path, with the normalised elements so far on a stack.\<close>

fun normal_loop :: "string list \<Rightarrow> apath \<Rightarrow> apath" where
  "normal_loop st [] = rev st"
| "normal_loop st [c] =
     (if c = [] \<or> c = ''.'' then as_directory st
      else if c = ''..'' then as_directory (tl st)
      else rev (c # st))"
| "normal_loop st (c # d # cs) =
     (if c = [] \<or> c = ''.'' then normal_loop st (d # cs)
      else if c = ''..'' then normal_loop (tl st) (d # cs)
      else normal_loop (c # st) (d # cs))"

definition lexically_normal :: "apath \<Rightarrow> apath" where
  "lexically_normal p = normal_loop [] p"

section \<open>The file system\<close>

datatype errno =
    ENOENT | ENOTDIR | EISDIR | EEXIST | ENOTEMPTY | ELOOP | EINVAL | EACCES | EBUSY

fun strerror :: "errno \<Rightarrow> string" where
  "strerror ENOENT = ''No such file or directory''"
| "strerror ENOTDIR = ''Not a directory''"
| "strerror EISDIR = ''Is a directory''"
| "strerror EEXIST = ''File exists''"
| "strerror ENOTEMPTY = ''Directory not empty''"
| "strerror ELOOP = ''Too many levels of symbolic links''"
| "strerror EINVAL = ''Invalid argument''"
| "strerror EACCES = ''Permission denied''"
| "strerror EBUSY = ''Device or resource busy''"

datatype node = File nat | Dir | Symlink string

text \<open>The calls that the operating system can refuse at a location.\<close>

datatype fs_call = SearchDir | ReadDir | ReadFile | StatFile | Create | Truncate | Unlink | Move

text \<open>
  The entries of the tree, each with its canonical location (the root directory is implicit);
  the bytes of every inode; the space left; the modification time that the system reports for
  a location; and which calls are refused where.
\<close>

record fs =
  tree :: "(apath \<times> node) list"
  content :: "nat \<Rightarrow> bytes"
  next_inode :: nat
  free :: nat
  mtime :: "apath \<Rightarrow> u64 option"
  denied :: "fs_call \<Rightarrow> apath \<Rightarrow> errno option"

definition node_at :: "fs \<Rightarrow> apath \<Rightarrow> node option" where
  "node_at f p = (if p = [] then Some Dir else map_of (tree f) p)"

definition children :: "fs \<Rightarrow> apath \<Rightarrow> string list" where
  "children f p = map last (filter (\<lambda>q. q \<noteq> [] \<and> butlast q = p) (map fst (tree f)))"

definition valid_name :: "string \<Rightarrow> bool" where
  "valid_name c \<longleftrightarrow> c \<noteq> [] \<and> c \<noteq> ''.'' \<and> c \<noteq> ''..'' \<and> CHR ''/'' \<notin> set c"

definition wf_fs :: "fs \<Rightarrow> bool" where
  "wf_fs f \<longleftrightarrow> distinct (map fst (tree f)) \<and>
     (\<forall>(p, n) \<in> set (tree f). p \<noteq> [] \<and> list_all valid_name p \<and> node_at f (butlast p) = Some Dir) \<and>
     (\<forall>(p, n) \<in> set (tree f). \<forall>i. n = File i \<longrightarrow> i < next_inode f)"

section \<open>Path lookup\<close>

text \<open>The kernel follows at most 40 symbolic links in one lookup.\<close>

definition max_links :: nat where
  "max_links = 40"

text \<open>\<open>walk k f cur cs\<close>: the location that the elements \<open>cs\<close> lead to from the directory \<open>cur\<close>.\<close>

function walk :: "nat \<Rightarrow> fs \<Rightarrow> apath \<Rightarrow> string list \<Rightarrow> errno + apath" where
  "walk k f cur [] = Inr cur"
| "walk k f cur (c # cs) =
     (case denied f SearchDir cur of
        Some e \<Rightarrow> Inl e
      | None \<Rightarrow>
          if c = [] \<or> c = ''.'' then walk k f cur cs
          else if c = ''..'' then walk k f (butlast cur) cs
          else case node_at f (cur @ [c]) of
              None \<Rightarrow> Inl ENOENT
            | Some Dir \<Rightarrow> walk k f (cur @ [c]) cs
            | Some (File i) \<Rightarrow> if cs = [] then Inr (cur @ [c]) else Inl ENOTDIR
            | Some (Symlink t) \<Rightarrow>
                if k = 0 then Inl ELOOP
                else walk (k - 1) f (if is_absolute (path_of t) then [] else cur)
                       (elements (path_of t) @ cs))"
  by pat_completeness auto
termination
  by (relation "measures [\<lambda>(k, f, cur, cs). k, \<lambda>(k, f, cur, cs). length cs]") auto

datatype file_status = Found apath node | NotFound | StatusError errno

definition status :: "fs \<Rightarrow> apath \<Rightarrow> file_status" where
  "status f p =
     (case walk max_links f [] p of
        Inl e \<Rightarrow> if e = ENOENT \<or> e = ENOTDIR then NotFound else StatusError e
      | Inr q \<Rightarrow> (case node_at f q of Some n \<Rightarrow> Found q n | None \<Rightarrow> NotFound))"

definition fs_exists :: "fs \<Rightarrow> apath \<Rightarrow> bool" where
  "fs_exists f p = (case status f p of Found q n \<Rightarrow> True | _ \<Rightarrow> False)"

definition is_directory :: "fs \<Rightarrow> apath \<Rightarrow> bool" where
  "is_directory f p = (case status f p of Found q Dir \<Rightarrow> True | _ \<Rightarrow> False)"

fun leading_elements :: "fs \<Rightarrow> apath \<Rightarrow> string list \<Rightarrow> errno + (apath \<times> string list)" where
  "leading_elements f pre [] = Inr (pre, [])"
| "leading_elements f pre (c # cs) =
     (case status f (pre @ [c]) of
        Found q n \<Rightarrow> leading_elements f (pre @ [c]) cs
      | NotFound \<Rightarrow> Inr (pre, c # cs)
      | StatusError e \<Rightarrow> Inl e)"

text \<open>\<open>weakly_canonical\<close>: an existing path is canonicalised; otherwise only its longest existing
  prefix is, and the rest is appended and normalised lexically.\<close>

definition weakly_canonical :: "fs \<Rightarrow> apath \<Rightarrow> errno + apath" where
  "weakly_canonical f p =
     (case status f p of
        Found q n \<Rightarrow> Inr q
      | StatusError e \<Rightarrow> Inl e
      | NotFound \<Rightarrow>
          (case leading_elements f [] p of
             Inl e \<Rightarrow> Inl e
           | Inr (pre, rest) \<Rightarrow>
               (case walk max_links f [] pre of
                  Inl e \<Rightarrow> Inl e
                | Inr q \<Rightarrow> Inr (lexically_normal (q @ rest)))))"

section \<open>Locations in a well-formed tree\<close>

lemma node_at_Nil [simp]: "node_at f [] = Some Dir"
  by (simp add: node_at_def)

lemma node_at_in_tree: "node_at f q = Some n \<Longrightarrow> q \<noteq> [] \<Longrightarrow> (q, n) \<in> set (tree f)"
  by (auto simp: node_at_def dest: map_of_SomeD)

lemma wf_fs_entryD:
  assumes "wf_fs f" and "node_at f q = Some n" and "q \<noteq> []"
  shows "list_all valid_name q" and "node_at f (butlast q) = Some Dir"
    and "n = File i \<Longrightarrow> i < next_inode f"
  using assms node_at_in_tree [OF assms(2,3)] unfolding wf_fs_def by fastforce+

lemma wf_fs_valid: "wf_fs f \<Longrightarrow> node_at f q = Some n \<Longrightarrow> list_all valid_name q"
  by (cases "q = []") (auto dest: wf_fs_entryD)

lemma wf_fs_prefix_dir:
  assumes "wf_fs f" and "node_at f (p @ r) = Some n" and "r \<noteq> []"
  shows "node_at f p = Some Dir"
  using assms(2,3)
proof (induction r arbitrary: n rule: rev_induct)
  case Nil
  then show ?case by simp
next
  case (snoc c r)
  then have "node_at f (p @ r) = Some Dir"
    using wf_fs_entryD(2) [OF assms(1) snoc.prems(1)] by (simp add: butlast_append)
  then show ?case
    using snoc.IH by (cases "r = []") auto
qed

text \<open>A canonical location: something that is not a link, below searchable directories.\<close>

definition canonical_at :: "fs \<Rightarrow> apath \<Rightarrow> bool" where
  "canonical_at f q \<longleftrightarrow> (\<exists>n. node_at f q = Some n \<and> (\<forall>t. n \<noteq> Symlink t)) \<and>
     (\<forall>p. strict_prefix p q \<longrightarrow> denied f SearchDir p = None)"

lemma canonical_at_Nil [simp]: "canonical_at f []"
  by (simp add: canonical_at_def)

lemma canonical_at_butlast:
  assumes "wf_fs f" and "canonical_at f q"
  shows "canonical_at f (butlast q) \<and> node_at f (butlast q) = Some Dir"
proof (cases "q = []")
  case False
  then have "node_at f (butlast q) = Some Dir"
    using assms by (auto simp: canonical_at_def dest: wf_fs_entryD)
  moreover have "strict_prefix p q" if "strict_prefix p (butlast q)" for p
    using that prefixeq_butlast [of q] prefix_order.less_le_trans by blast
  ultimately show ?thesis
    using assms(2) by (auto simp: canonical_at_def)
qed simp

lemma canonical_at_snoc:
  assumes "canonical_at f cur" and "node_at f (cur @ [c]) = Some n" and "\<forall>t. n \<noteq> Symlink t"
    and "denied f SearchDir cur = None"
  shows "canonical_at f (cur @ [c])"
  using assms by (auto simp: canonical_at_def strict_prefix_def)

lemma walk_canonical:
  assumes "wf_fs f" and "walk k f cur cs = Inr q" and "canonical_at f cur" and "node_at f cur = Some Dir"
  shows "canonical_at f q"
  using assms
proof (induction k f cur cs rule: walk.induct)
  case (1 k f cur)
  then show ?case by simp
next
  case (2 k f cur c cs)
  have search: "denied f SearchDir cur = None"
    using "2.prems"(2) by (auto split: option.splits)
  consider (stay) "c = [] \<or> c = ''.''" | (up) "c = ''..''"
    | (down) "\<not> (c = [] \<or> c = ''.'')" "c \<noteq> ''..''"
    by blast
  then show ?case
  proof cases
    case stay
    then show ?thesis
      using "2.IH"(1) "2.prems" search by auto
  next
    case up
    then show ?thesis
      using "2.IH"(2) "2.prems" search canonical_at_butlast [of f cur] by auto
  next
    case down
    then obtain n where n: "node_at f (cur @ [c]) = Some n"
      using "2.prems"(2) search by (auto split: option.splits)
    show ?thesis
    proof (cases n)
      case (File i)
      then show ?thesis
        using "2.prems" search down n canonical_at_snoc [of f cur c n] by (auto split: if_splits)
    next
      case Dir
      then show ?thesis
        using "2.IH"(3) "2.prems" search down n canonical_at_snoc [of f cur c n] by auto
    next
      case (Symlink t)
      then show ?thesis
        using "2.IH"(4) "2.prems" search down n by (auto split: if_splits)
    qed
  qed
qed

lemma walk_canonical_id:
  assumes "wf_fs f" and "canonical_at f (p @ r)"
  shows "walk k f p r = Inr (p @ r)"
  using assms(2)
proof (induction r arbitrary: p)
  case Nil
  then show ?case by simp
next
  case (Cons c r)
  obtain n where n: "node_at f (p @ c # r) = Some n" "\<forall>t. n \<noteq> Symlink t"
    using Cons.prems by (auto simp: canonical_at_def)
  have search: "denied f SearchDir p = None"
    using Cons.prems by (auto simp: canonical_at_def strict_prefix_def)
  have c: "valid_name c"
    using wf_fs_valid [OF assms(1) n(1)] by simp
  have "walk k f (p @ [c]) r = Inr (p @ c # r)"
    using Cons.IH [of "p @ [c]"] Cons.prems by simp
  moreover have "node_at f (p @ [c]) = Some Dir" if "r \<noteq> []"
    using wf_fs_prefix_dir [OF assms(1), of "p @ [c]" r n] n that by simp
  ultimately show ?case
    using n c search by (cases "r = []") (auto simp: valid_name_def split: node.splits)
qed

lemma status_Found:
  assumes "wf_fs f" and "status f p = Found q n"
  shows "canonical_at f q" and "node_at f q = Some n"
  using assms walk_canonical [OF assms(1), of max_links "[]" p q]
  by (auto simp: status_def split: sum.splits option.splits if_splits)

lemma status_canonical_at:
  assumes "wf_fs f" and "canonical_at f q" and "node_at f q = Some n"
  shows "status f q = Found q n"
  using walk_canonical_id [OF assms(1), of "[]" q max_links] assms(2,3) by (simp add: status_def)

lemma fs_exists_iff: "fs_exists f p \<longleftrightarrow> (\<exists>q n. status f p = Found q n)"
  by (auto simp: fs_exists_def split: file_status.splits)

lemma is_directory_iff: "is_directory f p \<longleftrightarrow> (\<exists>q. status f p = Found q Dir)"
  by (auto simp: is_directory_def split: file_status.splits node.splits)

section \<open>Normal paths\<close>

text \<open>The form of every path that \<open>weakly_canonical\<close> returns: proper names, and possibly a
  trailing separator.\<close>

definition normal_path :: "apath \<Rightarrow> bool" where
  "normal_path p \<longleftrightarrow> list_all valid_name p \<or>
     (\<exists>q. q \<noteq> [] \<and> p = q @ [[]] \<and> list_all valid_name q)"

definition no_slash :: "string \<Rightarrow> bool" where
  "no_slash c \<longleftrightarrow> CHR ''/'' \<notin> set c"

lemma valid_name_no_slash: "valid_name c \<Longrightarrow> no_slash c"
  by (simp add: valid_name_def no_slash_def)

lemma normal_path_as_directory: "list_all valid_name st \<Longrightarrow> normal_path (as_directory st)"
  by (auto simp: normal_path_def as_directory_def)

lemma list_all_tl: "list_all P xs \<Longrightarrow> list_all P (tl xs)"
  by (cases xs) simp_all

lemma normal_loop_normal:
  "list_all valid_name st \<Longrightarrow> list_all no_slash cs \<Longrightarrow> normal_path (normal_loop st cs)"
proof (induction st cs rule: normal_loop.induct)
  case (1 st)
  then show ?case by (simp add: normal_path_def)
next
  case (2 st c)
  show ?case
  proof (cases "c = [] \<or> c = ''.'' \<or> c = ''..''")
    case True
    with 2 show ?thesis
      by (auto simp: normal_path_as_directory list_all_tl)
  next
    case False
    with 2 have "valid_name c"
      by (simp add: valid_name_def no_slash_def)
    with 2 False show ?thesis
      by (simp add: normal_path_def)
  qed
next
  case (3 st c d cs)
  have "c = [] \<or> c = ''.'' \<or> c = ''..'' \<or> valid_name c"
    using "3.prems" by (auto simp: valid_name_def no_slash_def)
  with 3 show ?case
    by (auto simp: list_all_tl)
qed

lemma normal_loop_valid: "list_all valid_name cs \<Longrightarrow> normal_loop st cs = rev st @ cs"
  by (induction st cs rule: normal_loop.induct) (auto simp: valid_name_def)

lemma normal_loop_trailing:
  "list_all valid_name cs \<Longrightarrow> cs \<noteq> [] \<Longrightarrow> normal_loop st (cs @ [[]]) = rev st @ cs @ [[]]"
proof (induction cs arbitrary: st)
  case Nil
  then show ?case by simp
next
  case (Cons c cs)
  then show ?case
    by (cases cs) (auto simp: valid_name_def as_directory_def)
qed

lemma lexically_normal_id: "normal_path p \<Longrightarrow> lexically_normal p = p"
  unfolding lexically_normal_def normal_path_def
  using normal_loop_valid [of p "[]"] normal_loop_trailing [of _ "[]"] by auto

lemma split_slash_no_slash: "list_all no_slash (split_slash s)"
  by (induction s) (auto simp: no_slash_def split: list.splits)

lemma path_of_no_slash: "list_all no_slash (elements (path_of s))"
proof -
  have "list_all no_slash (filter (\<lambda>x. x \<noteq> []) (split_slash s))"
    using split_slash_no_slash [of s] by (auto simp: list_all_iff)
  then show ?thesis
    by (auto simp: path_of_def Let_def no_slash_def)
qed

lemma leading_elements_split:
  "leading_elements f pre cs = Inr (q, rest) \<Longrightarrow> q @ rest = pre @ cs"
  by (induction f pre cs arbitrary: q rest rule: leading_elements.induct)
    (auto split: file_status.splits)

lemma weakly_canonical_cases:
  assumes "wf_fs f" and "weakly_canonical f p = Inr r"
  obtains (existing) n where "status f p = Found r n" "canonical_at f r" "node_at f r = Some n"
  | (missing) q rest where "status f p = NotFound" "canonical_at f q" "\<exists>pre. pre @ rest = p"
      "r = lexically_normal (q @ rest)"
proof (cases "status f p")
  case (Found q n)
  with assms show ?thesis
    by (intro existing) (auto simp: weakly_canonical_def dest: status_Found)
next
  case NotFound
  then obtain pre rest q where *: "leading_elements f [] p = Inr (pre, rest)"
    "walk max_links f [] pre = Inr q" "r = lexically_normal (q @ rest)"
    using assms(2) by (auto simp: weakly_canonical_def split: sum.splits prod.splits)
  then have "canonical_at f q"
    using walk_canonical [OF assms(1), of max_links "[]" pre q] by simp
  with NotFound * show ?thesis
    using leading_elements_split [OF *(1)] by (intro missing) auto
next
  case (StatusError e)
  with assms(2) show ?thesis by (simp add: weakly_canonical_def)
qed

lemma weakly_canonical_normal:
  assumes "wf_fs f" and "weakly_canonical f p = Inr r" and "list_all no_slash p"
  shows "normal_path r"
  using assms(1,2)
proof (cases rule: weakly_canonical_cases)
  case (existing n)
  then show ?thesis
    using wf_fs_valid [OF assms(1)] by (simp add: normal_path_def)
next
  case (missing q rest)
  have "list_all valid_name q"
    using missing(2) wf_fs_valid [OF assms(1)] by (auto simp: canonical_at_def)
  then have "list_all no_slash (q @ rest)"
    using missing(3) assms(3) by (auto simp: list_all_iff intro: valid_name_no_slash)
  then show ?thesis
    unfolding missing(4) lexically_normal_def by (intro normal_loop_normal) simp_all
qed

section \<open>Prefixes of path strings\<close>

lemma path_string_concat: "p \<noteq> [] \<Longrightarrow> path_string p = concat (map (\<lambda>c. CHR ''/'' # c) p)"
  unfolding path_string_def by (induction p rule: join_slash.induct) simp_all

abbreviation slashed :: "apath \<Rightarrow> string" where
  "slashed p \<equiv> concat (map (\<lambda>c. CHR ''/'' # c) p)"

lemma prefix_before_slash:
  assumes "no_slash x" and "prefix x (y @ t)" and "t = [] \<or> hd t = CHR ''/''"
  shows "prefix x y"
proof (rule ccontr)
  assume "\<not> prefix x y"
  then obtain u where "x = y @ u" "u \<noteq> []" "prefix u t"
    using assms(2) by (auto simp: prefix_append)
  with assms show False
    by (cases u; cases t) (auto simp: no_slash_def)
qed

lemma prefix_whole_name:
  assumes "no_slash x" and "no_slash y" and "prefix (x @ CHR ''/'' # s) (y @ t)"
    and "t = [] \<or> hd t = CHR ''/''"
  shows "x = y \<and> prefix (CHR ''/'' # s) t"
proof -
  have "prefix x y"
    using assms by (intro prefix_before_slash [of x y t]) (auto dest: append_prefixD)
  then obtain u where u: "y = x @ u"
    by (auto simp: prefix_def)
  with assms show ?thesis
    by (cases u) (auto simp: no_slash_def)
qed

lemma prefix_slashed:
  assumes "list_all no_slash (a @ [x])" and "list_all no_slash r"
    and "prefix (slashed (a @ [x])) (slashed r)"
  shows "\<exists>ext rest. r = a @ (x @ ext) # rest"
  using assms
proof (induction a arbitrary: r)
  case Nil
  then obtain y ys where r: "r = y # ys"
    by (cases r) auto
  have "slashed ys = [] \<or> hd (slashed ys) = CHR ''/''"
    by (cases ys) auto
  then have "prefix x y"
    using Nil r by (intro prefix_before_slash [of x y "slashed ys"]) auto
  with r show ?case
    by (auto simp: prefix_def)
next
  case (Cons b a)
  then obtain y ys where r: "r = y # ys"
    by (cases r) auto
  have hd: "slashed ys = [] \<or> hd (slashed ys) = CHR ''/''"
    by (cases ys) auto
  obtain s where s: "slashed (a @ [x]) = CHR ''/'' # s"
    by (cases a) auto
  have "b = y \<and> prefix (slashed (a @ [x])) (slashed ys)"
    unfolding s using Cons.prems r s hd by (intro prefix_whole_name) auto
  with Cons.IH [of ys] Cons.prems r show ?case by auto
qed

lemma prefix_slashed_conv:
  "prefix (slashed (a @ [x])) (slashed (a @ (x @ ext) # rest))"
  by (simp add: prefix_def)

end
