(* ===== verification/File_Operations.thy ===== *)
theory File_Operations
  imports Filesystem
begin

text \<open>
  The operations of \<open>std::filesystem\<close> and of file streams that change the file system:
  \<open>create_directories\<close>, \<open>remove\<close>, \<open>rename\<close>, opening a file for writing, buffered writes and
  \<open>close\<close>.  An open stream refers to an inode, so that writes go to the file that was opened
  even when its name is removed, renamed or reused.
\<close>

section \<open>Names\<close>

text \<open>The location of the entry that a path names, its last element not followed if it is a
  symbolic link; the flag says that a trailing separator asks for a directory.\<close>

definition locate_entry :: "fs \<Rightarrow> apath \<Rightarrow> errno + apath" where
  "locate_entry f p =
     (if p = [] then Inl EBUSY
      else if last p = [] \<or> last p = ''.'' \<or> last p = ''..'' then Inl EINVAL
      else case walk max_links f [] (butlast p) of
          Inl e \<Rightarrow> Inl e
        | Inr q \<Rightarrow>
            (case denied f SearchDir q of
               Some e \<Rightarrow> Inl e
             | None \<Rightarrow> if node_at f q = Some Dir then Inr (q @ [last p]) else Inl ENOTDIR))"

definition locate :: "fs \<Rightarrow> apath \<Rightarrow> errno + (apath \<times> bool)" where
  "locate f p =
     (if p \<noteq> [] \<and> last p = []
      then (case locate_entry f (butlast p) of Inl e \<Rightarrow> Inl e | Inr q \<Rightarrow> Inr (q, True))
      else (case locate_entry f p of Inl e \<Rightarrow> Inl e | Inr q \<Rightarrow> Inr (q, False)))"

definition add_entry :: "apath \<Rightarrow> node \<Rightarrow> fs \<Rightarrow> fs" where
  "add_entry p n f = f\<lparr>tree := (p, n) # tree f\<rparr>"

definition del_entry :: "apath \<Rightarrow> fs \<Rightarrow> fs" where
  "del_entry p f = f\<lparr>tree := filter (\<lambda>(q, n). q \<noteq> p) (tree f)\<rparr>"

section \<open>Directories\<close>

definition fs_mkdir :: "fs \<Rightarrow> apath \<Rightarrow> errno + fs" where
  "fs_mkdir f p =
     (case locate f p of
        Inl e \<Rightarrow> Inl e
      | Inr (q, _) \<Rightarrow>
          if node_at f q \<noteq> None then Inl EEXIST
          else (case denied f Create q of Some e \<Rightarrow> Inl e | None \<Rightarrow> Inr (add_entry q Dir f)))"

text \<open>\<open>create_directories(p, ec)\<close>: whether the last directory was created, and the error.\<close>

fun mkdirs :: "fs \<Rightarrow> apath \<Rightarrow> string list \<Rightarrow> bool \<Rightarrow> bool \<times> errno option \<times> fs" where
  "mkdirs f pre [] created = (created, None, f)"
| "mkdirs f pre (c # cs) created =
     (case status f (pre @ [c]) of
        StatusError e \<Rightarrow> (False, Some e, f)
      | Found q n \<Rightarrow>
          if n = Dir then mkdirs f (pre @ [c]) cs False else (False, Some ENOTDIR, f)
      | NotFound \<Rightarrow>
          (case fs_mkdir f (pre @ [c]) of
             Inl e \<Rightarrow> (False, Some e, f)
           | Inr f' \<Rightarrow> mkdirs f' (pre @ [c]) cs True))"

definition create_directories :: "fs \<Rightarrow> apath \<Rightarrow> bool \<times> errno option \<times> fs" where
  "create_directories f p =
     mkdirs f [] (if p \<noteq> [] \<and> last p = [] then butlast p else p) False"

text \<open>\<open>directory_iterator(p, ec)\<close>: the names in the directory, in the order of the system.\<close>

definition list_dir :: "fs \<Rightarrow> apath \<Rightarrow> errno + string list" where
  "list_dir f p =
     (case status f p of
        Found q Dir \<Rightarrow> (case denied f ReadDir q of Some e \<Rightarrow> Inl e | None \<Rightarrow> Inr (children f q))
      | Found q n \<Rightarrow> Inl ENOTDIR
      | NotFound \<Rightarrow> Inl ENOENT
      | StatusError e \<Rightarrow> Inl e)"

section \<open>Removal and renaming\<close>

text \<open>\<open>remove(p, ec)\<close>: a missing entry is \<open>false\<close> without an error.\<close>

definition fs_remove :: "fs \<Rightarrow> apath \<Rightarrow> bool \<times> errno option \<times> fs" where
  "fs_remove f p =
     (case locate f p of
        Inl e \<Rightarrow> (False, if e = ENOENT then None else Some e, f)
      | Inr (q, dir_only) \<Rightarrow>
          (case node_at f q of
             None \<Rightarrow> (False, None, f)
           | Some n \<Rightarrow>
               (case denied f Unlink q of
                  Some e \<Rightarrow> (False, Some e, f)
                | None \<Rightarrow>
                    if n = Dir \<and> children f q \<noteq> [] then (False, Some ENOTEMPTY, f)
                    else if dir_only \<and> n \<noteq> Dir then (False, Some ENOTDIR, f)
                    else (True, None, del_entry q f))))"

definition move_path :: "apath \<Rightarrow> apath \<Rightarrow> apath \<Rightarrow> apath" where
  "move_path src dst p = (if prefix src p then dst @ drop (length src) p else p)"

definition move_entries :: "apath \<Rightarrow> apath \<Rightarrow> fs \<Rightarrow> fs" where
  "move_entries src dst f = f\<lparr>tree := map (\<lambda>(p, n). (move_path src dst p, n)) (tree f)\<rparr>"

definition replace_error :: "fs \<Rightarrow> node \<Rightarrow> apath \<Rightarrow> errno option" where
  "replace_error f n dst =
     (case node_at f dst of
        None \<Rightarrow> None
      | Some Dir \<Rightarrow>
          if n \<noteq> Dir then Some EISDIR
          else if children f dst \<noteq> [] then Some ENOTEMPTY else None
      | Some _ \<Rightarrow> if n = Dir then Some ENOTDIR else None)"

definition fs_rename :: "fs \<Rightarrow> apath \<Rightarrow> apath \<Rightarrow> errno + fs" where
  "fs_rename f p q =
     (case locate f p of
        Inl e \<Rightarrow> Inl e
      | Inr (src, src_dir) \<Rightarrow>
          (case locate f q of
             Inl e \<Rightarrow> Inl e
           | Inr (dst, dst_dir) \<Rightarrow>
               (case node_at f src of
                  None \<Rightarrow> Inl ENOENT
                | Some n \<Rightarrow>
                    if (src_dir \<or> dst_dir) \<and> n \<noteq> Dir then Inl ENOTDIR
                    else if src = dst then Inr f
                    else if prefix src dst then Inl (if n = Dir then EINVAL else ENOTDIR)
                    else
                      (case denied f Move src of
                         Some e \<Rightarrow> Inl e
                       | None \<Rightarrow>
                           (case replace_error f n dst of
                              Some e \<Rightarrow> Inl e
                            | None \<Rightarrow> Inr (move_entries src dst (del_entry dst f)))))))"

section \<open>Files\<close>

definition create_file :: "apath \<Rightarrow> fs \<Rightarrow> nat \<times> fs" where
  "create_file p f =
     (next_inode f,
      (add_entry p (File (next_inode f)) f)
        \<lparr>content := (content f)(next_inode f := []), next_inode := Suc (next_inode f)\<rparr>)"

text \<open>\<open>open(p, O_WRONLY | O_CREAT | O_TRUNC)\<close>: links are followed, a missing file is created.\<close>

fun open_trunc :: "nat \<Rightarrow> fs \<Rightarrow> apath \<Rightarrow> errno + (nat \<times> fs)" where
  "open_trunc k f p =
     (case locate f p of
        Inl e \<Rightarrow> Inl e
      | Inr (q, True) \<Rightarrow> Inl EISDIR
      | Inr (q, False) \<Rightarrow>
          (case node_at f q of
             None \<Rightarrow> (case denied f Create q of Some e \<Rightarrow> Inl e | None \<Rightarrow> Inr (create_file q f))
           | Some Dir \<Rightarrow> Inl EISDIR
           | Some (File i) \<Rightarrow>
               (case denied f Truncate q of
                  Some e \<Rightarrow> Inl e
                | None \<Rightarrow> Inr (i, f\<lparr>content := (content f)(i := [])\<rparr>))
           | Some (Symlink t) \<Rightarrow>
               (case k of
                  0 \<Rightarrow> Inl ELOOP
                | Suc k' \<Rightarrow> open_trunc k' f
                    (if is_absolute (path_of t) then elements (path_of t)
                     else butlast q @ elements (path_of t)))))"

text \<open>Opening for reading gives the content of the file that the path leads to.  A directory can be
  opened as well; every read of it fails, so that its content is empty.\<close>

definition open_read :: "fs \<Rightarrow> apath \<Rightarrow> errno + bytes" where
  "open_read f p =
     (case status f p of
        Found q n \<Rightarrow>
          (case denied f ReadFile q of
             Some e \<Rightarrow> Inl e
           | None \<Rightarrow> Inr (case n of File i \<Rightarrow> content f i | _ \<Rightarrow> []))
      | NotFound \<Rightarrow> Inl ENOENT
      | StatusError e \<Rightarrow> Inl e)"

definition file_size :: "fs \<Rightarrow> apath \<Rightarrow> errno + nat" where
  "file_size f p =
     (case status f p of
        Found q (File i) \<Rightarrow>
          (case denied f StatFile q of Some e \<Rightarrow> Inl e | None \<Rightarrow> Inr (length (content f i)))
      | Found q n \<Rightarrow> Inl EISDIR
      | NotFound \<Rightarrow> Inl ENOENT
      | StatusError e \<Rightarrow> Inl e)"

definition write_at :: "nat \<Rightarrow> bytes \<Rightarrow> bytes \<Rightarrow> bytes" where
  "write_at pos d old =
     take pos (old @ replicate (pos - length old) 0) @ d @ drop (pos + length d) old"

text \<open>\<open>write(fd, d)\<close>: as much as the space left allows; \<open>True\<close> if everything was written.\<close>

definition fs_write :: "fs \<Rightarrow> nat \<Rightarrow> nat \<Rightarrow> bytes \<Rightarrow> bool \<times> fs" where
  "fs_write f i pos d =
     (let n = min (free f) (length d)
      in (n = length d,
          f\<lparr>content := (content f)(i := write_at pos (take n d) (content f i)),
            free := free f - n\<rparr>))"

section \<open>Output streams\<close>

text \<open>
  An \<open>std::ofstream\<close> with its pending bytes.  A block of at least 1024 bytes, or one that does
  not fit in the buffer of 8191 bytes, is written through together with the pending bytes;
  a smaller one is only appended to them (libstdc++'s \<open>basic_filebuf::xsputn\<close>).  \<open>os_good\<close>
  is the stream state that \<open>good()\<close> reports.
\<close>

record ofstream =
  os_open :: bool
  os_inode :: nat
  os_pos :: nat
  os_pending :: bytes
  os_good :: bool

definition os_buffer_size :: nat where
  "os_buffer_size = 8191"

definition closed_stream :: ofstream where
  "closed_stream = \<lparr>os_open = False, os_inode = 0, os_pos = 0, os_pending = [], os_good = False\<rparr>"

definition os_opened :: "nat \<Rightarrow> ofstream" where
  "os_opened i = \<lparr>os_open = True, os_inode = i, os_pos = 0, os_pending = [], os_good = True\<rparr>"

definition os_flush :: "ofstream \<Rightarrow> bytes \<Rightarrow> fs \<Rightarrow> ofstream \<times> fs" where
  "os_flush st d f =
     (let all = os_pending st @ d; (ok, f') = fs_write f (os_inode st) (os_pos st) all
      in (if ok then st\<lparr>os_pos := os_pos st + length all, os_pending := []\<rparr>
          else st\<lparr>os_good := False\<rparr>, f'))"

definition os_write :: "ofstream \<Rightarrow> bytes \<Rightarrow> fs \<Rightarrow> ofstream \<times> fs" where
  "os_write st d f =
     (if \<not> os_open st \<or> \<not> os_good st then (st\<lparr>os_good := False\<rparr>, f)
      else if length d < min 1024 (os_buffer_size - length (os_pending st))
      then (st\<lparr>os_pending := os_pending st @ d\<rparr>, f)
      else os_flush st d f)"

definition os_close :: "ofstream \<Rightarrow> fs \<Rightarrow> ofstream \<times> fs" where
  "os_close st f =
     (if os_open st
      then (let (st', f') = os_flush st [] f in (st'\<lparr>os_open := False\<rparr>, f'))
      else (st\<lparr>os_good := False\<rparr>, f))"

section \<open>Facts about names\<close>

lemma locate_entry_Inr:
  assumes "wf_fs f" and "locate_entry f p = Inr q"
  shows "\<exists>d. q = d @ [last p] \<and> p \<noteq> [] \<and> canonical_at f d \<and> node_at f d = Some Dir \<and>
    denied f SearchDir d = None \<and> last p \<noteq> [] \<and> last p \<noteq> ''.'' \<and> last p \<noteq> ''..'' \<and>
    walk max_links f [] (butlast p) = Inr d"
  using assms walk_canonical [OF assms(1), of max_links "[]" "butlast p"]
  by (auto simp: locate_entry_def split: if_splits sum.splits option.splits)

lemma locate_Inr:
  assumes "wf_fs f" and "locate f p = Inr (q, b)" and "list_all no_slash p"
  shows "q \<noteq> [] \<and> canonical_at f (butlast q) \<and> node_at f (butlast q) = Some Dir \<and>
    denied f SearchDir (butlast q) = None \<and> valid_name (last q)"
proof -
  obtain p' where p': "locate_entry f p' = Inr q" "list_all no_slash p'"
  proof (cases "p \<noteq> [] \<and> last p = []")
    case True
    with assms(2,3) show ?thesis
      by (intro that [of "butlast p"]) (auto simp: locate_def list_all_iff dest: in_set_butlastD split: sum.splits)
  next
    case False
    with assms(2,3) show ?thesis
      by (intro that [of p]) (auto simp: locate_def split: sum.splits)
  qed
  from locate_entry_Inr [OF assms(1) p'(1)] p'(2) show ?thesis
    by (auto simp: valid_name_def no_slash_def list_all_iff)
qed

lemma locate_canonical:
  assumes "wf_fs f" and "canonical_at f r" and "r \<noteq> []"
  shows "locate f r = Inr (r, False)"
proof -
  have d: "canonical_at f (butlast r)" "node_at f (butlast r) = Some Dir"
    using canonical_at_butlast [OF assms(1,2)] by simp_all
  have "strict_prefix (butlast r) r"
    using assms(3) by (metis append_butlast_last_id strict_prefixI' )
  then have "denied f SearchDir (butlast r) = None"
    using assms(2) by (simp add: canonical_at_def)
  moreover have "valid_name (last r)"
    using assms wf_fs_valid [OF assms(1)] by (auto simp: canonical_at_def list_all_iff)
  moreover have "walk max_links f [] (butlast r) = Inr (butlast r)"
    using walk_canonical_id [OF assms(1), of "[]"] d by simp
  ultimately show ?thesis
    using d assms(3) by (simp add: locate_def locate_entry_def valid_name_def)
qed

lemma locate_trailing:
  assumes "wf_fs f" and "canonical_at f r" and "r \<noteq> []"
  shows "locate f (r @ [[]]) = Inr (r, True)"
proof -
  have "last r \<noteq> []"
    using assms wf_fs_valid [OF assms(1)] by (auto simp: canonical_at_def list_all_iff valid_name_def)
  then show ?thesis
    using locate_canonical [OF assms] assms(3) by (auto simp: locate_def split: sum.splits)
qed

lemma node_at_add_entry:
  "q \<noteq> [] \<Longrightarrow> node_at (add_entry q n f) p = (if p = q then Some n else node_at f p)"
  by (auto simp: node_at_def add_entry_def)

lemma map_of_filter_key: "map_of (filter (\<lambda>(q, n). q \<noteq> p) xs) r = (if r = p then None else map_of xs r)"
  by (induction xs) auto

lemma node_at_del_entry:
  "q \<noteq> [] \<Longrightarrow> node_at (del_entry q f) p = (if p = q then None else node_at f p)"
  by (auto simp: node_at_def del_entry_def map_of_filter_key)

lemma node_at_None_notin: "p \<noteq> [] \<Longrightarrow> node_at f p = None \<longleftrightarrow> p \<notin> fst ` set (tree f)"
  by (simp add: node_at_def map_of_eq_None_iff)

text \<open>Entries at or below a location.\<close>

lemma children_Nil_iff:
  "children f p = [] \<longleftrightarrow> (\<forall>c. (p @ [c]) \<notin> fst ` set (tree f))"
proof -
  have eq: "q \<noteq> [] \<and> butlast q = p \<longleftrightarrow> (\<exists>c. q = p @ [c])" for q
    by (metis append_butlast_last_id butlast_snoc snoc_eq_iff_butlast)
  have "children f p = [] \<longleftrightarrow> (\<forall>q \<in> fst ` set (tree f). \<not> (q \<noteq> [] \<and> butlast q = p))"
    by (simp add: children_def filter_empty_conv)
  then show ?thesis
    unfolding eq by blast
qed

lemma children_Nil_below:
  assumes "wf_fs f" and "children f p = []" and "node_at f (p @ r) = Some n"
  shows "r = []"
proof (rule ccontr)
  assume "r \<noteq> []"
  then obtain c s where r: "r = c # s"
    by (cases r) auto
  have "node_at f (p @ [c]) \<noteq> None"
  proof (cases "s = []")
    case False
    then have "node_at f (p @ [c]) = Some Dir"
      using wf_fs_prefix_dir [OF assms(1), of "p @ [c]" s n] assms(3) r by simp
    then show ?thesis by simp
  qed (use assms(3) r in simp)
  then show False
    using assms(2) node_at_None_notin [of "p @ [c]" f] by (auto simp: children_Nil_iff)
qed

section \<open>Well-formedness is kept\<close>

lemma wf_fsI:
  assumes "distinct (map fst (tree f))"
    and "\<And>p n. (p, n) \<in> set (tree f) \<Longrightarrow> p \<noteq> [] \<and> list_all valid_name p \<and> node_at f (butlast p) = Some Dir"
    and "\<And>p i. (p, File i) \<in> set (tree f) \<Longrightarrow> i < next_inode f"
  shows "wf_fs f"
  using assms unfolding wf_fs_def by auto

lemma wf_fs_treeD:
  assumes "wf_fs f" and "(p, n) \<in> set (tree f)"
  shows "p \<noteq> []" and "list_all valid_name p" and "node_at f (butlast p) = Some Dir"
    and "node_at f p = Some n" and "\<And>i. n = File i \<Longrightarrow> i < next_inode f"
proof -
  show *: "p \<noteq> []" "list_all valid_name p" "node_at f (butlast p) = Some Dir"
    "\<And>i. n = File i \<Longrightarrow> i < next_inode f"
    using assms unfolding wf_fs_def by fastforce+
  show "node_at f p = Some n"
    using assms * unfolding wf_fs_def node_at_def by simp
qed

lemma wf_add_entry:
  assumes "wf_fs f" and "q \<noteq> []" and "node_at f q = None" and "node_at f (butlast q) = Some Dir"
    and "list_all valid_name q" and "\<forall>i. n \<noteq> File i"
  shows "wf_fs (add_entry q n f)"
proof (rule wf_fsI, goal_cases)
  case 1
  show ?case
    using assms by (auto simp: add_entry_def wf_fs_def node_at_None_notin)
next
  case (2 p m)
  have ne: "butlast q \<noteq> q"
    using assms(2) by (metis append_butlast_last_id not_Cons_self2 self_append_conv)
  from 2 have "(p, m) = (q, n) \<or> (p, m) \<in> set (tree f)"
    by (auto simp: add_entry_def)
  then show ?case
  proof
    assume "(p, m) \<in> set (tree f)"
    from wf_fs_treeD(1-3) [OF assms(1) this] show ?case
      using assms(2,3) by (auto simp: node_at_add_entry)
  qed (use assms ne in \<open>simp add: node_at_add_entry\<close>)
next
  case (3 p i)
  then show ?case
    using assms wf_fs_treeD(5) [OF assms(1)] by (auto simp: add_entry_def)
qed

lemma wf_del_entry:
  assumes "wf_fs f" and "q \<noteq> []" and "node_at f q = Some Dir \<longrightarrow> children f q = []"
  shows "wf_fs (del_entry q f)"
proof (rule wf_fsI, goal_cases)
  case 1
  show ?case
    using assms(1) by (auto simp: del_entry_def wf_fs_def distinct_map_filter)
next
  case (2 p m)
  then have p: "(p, m) \<in> set (tree f)"
    by (auto simp: del_entry_def)
  note p' = wf_fs_treeD [OF assms(1) p]
  have "butlast p \<noteq> q"
  proof
    assume "butlast p = q"
    then have "p = q @ [last p]"
      using p'(1) by (metis append_butlast_last_id)
    moreover have "children f q = []"
      using assms(3) p'(3) \<open>butlast p = q\<close> by simp
    ultimately show False
      using p by (auto simp: children_Nil_iff image_iff) (metis fst_conv)
  qed
  with p' show ?case
    using assms(2) by (simp add: node_at_del_entry)
next
  case (3 p i)
  then show ?case
    using wf_fs_treeD(5) [OF assms(1)] by (auto simp: del_entry_def)
qed

lemma fs_fields [simp]:
  "content (add_entry q n f) = content f" "next_inode (add_entry q n f) = next_inode f"
  "free (add_entry q n f) = free f" "denied (add_entry q n f) = denied f" "mtime (add_entry q n f) = mtime f"
  "content (del_entry q f) = content f" "next_inode (del_entry q f) = next_inode f"
  "free (del_entry q f) = free f" "denied (del_entry q f) = denied f" "mtime (del_entry q f) = mtime f"
  by (simp_all add: add_entry_def del_entry_def)

lemma node_at_cong: "tree f = tree g \<Longrightarrow> node_at f = node_at g"
  by (simp add: node_at_def fun_eq_iff)

lemma wf_fs_cong: "tree f = tree g \<Longrightarrow> next_inode f = next_inode g \<Longrightarrow> wf_fs f \<longleftrightarrow> wf_fs g"
  using node_at_cong [of f g] by (simp add: wf_fs_def)

lemma node_at_updates [simp]:
  "node_at (f\<lparr>content := c\<rparr>) = node_at f" "node_at (f\<lparr>free := m\<rparr>) = node_at f"
  "node_at (f\<lparr>next_inode := j\<rparr>) = node_at f"
  by (intro node_at_cong; simp)+

lemma wf_fs_updates [simp]:
  "wf_fs (f\<lparr>content := c\<rparr>) \<longleftrightarrow> wf_fs f" "wf_fs (f\<lparr>free := m\<rparr>) \<longleftrightarrow> wf_fs f"
  by (intro wf_fs_cong; simp)+

lemma wf_fs_next_inode: "wf_fs f \<Longrightarrow> wf_fs (f\<lparr>next_inode := Suc (next_inode f)\<rparr>)"
  unfolding wf_fs_def by (fastforce simp: less_Suc_eq)

lemma add_entry_next_inode:
  "add_entry q n (f\<lparr>next_inode := j\<rparr>) = (add_entry q n f)\<lparr>next_inode := j\<rparr>"
  by (simp add: add_entry_def)

lemma wf_add_file:
  assumes "wf_fs f" and "q \<noteq> []" and "node_at f q = None" and "node_at f (butlast q) = Some Dir"
    and "list_all valid_name q" and "i < next_inode f"
  shows "wf_fs (add_entry q (File i) f)"
proof (rule wf_fsI, goal_cases)
  case 1
  show ?case
    using assms by (auto simp: add_entry_def wf_fs_def node_at_None_notin)
next
  case (2 p m)
  have ne: "butlast q \<noteq> q"
    using assms(2) by (metis append_butlast_last_id not_Cons_self2 self_append_conv)
  from 2 have "(p, m) = (q, File i) \<or> (p, m) \<in> set (tree f)"
    by (auto simp: add_entry_def)
  then show ?case
  proof
    assume "(p, m) \<in> set (tree f)"
    from wf_fs_treeD(1-3) [OF assms(1) this] show ?case
      using assms(2,3) by (auto simp: node_at_add_entry)
  qed (use assms ne in \<open>simp add: node_at_add_entry\<close>)
next
  case (3 p j)
  then show ?case
    using assms wf_fs_treeD(5) [OF assms(1)] by (auto simp: add_entry_def)
qed

lemma wf_create_file:
  assumes "wf_fs f" and "q \<noteq> []" and "node_at f q = None" and "node_at f (butlast q) = Some Dir"
    and "list_all valid_name q"
  shows "wf_fs (snd (create_file q f))"
proof -
  have "wf_fs (add_entry q (File (next_inode f)) (f\<lparr>next_inode := Suc (next_inode f)\<rparr>))"
    using assms by (intro wf_add_file wf_fs_next_inode) simp_all
  then show ?thesis
    by (subst wf_fs_cong) (auto simp: create_file_def add_entry_def)
qed

lemma list_all_snoc_last:
  "q \<noteq> [] \<Longrightarrow> list_all P (butlast q) \<Longrightarrow> P (last q) \<Longrightarrow> list_all P q"
  by (metis append_butlast_last_id list_all_append list.pred_inject)

lemma locate_valid:
  assumes "wf_fs f" and "locate f p = Inr (q, b)" and "list_all no_slash p"
  shows "q \<noteq> []" and "list_all valid_name q" and "node_at f (butlast q) = Some Dir"
  using locate_Inr [OF assms] wf_fs_valid [OF assms(1), of "butlast q" Dir]
  by (auto intro: list_all_snoc_last)

lemma wf_fs_mkdir:
  assumes "wf_fs f" and "list_all no_slash p" and "fs_mkdir f p = Inr f'"
  shows "wf_fs f'"
proof -
  obtain q b where q: "locate f p = Inr (q, b)" "node_at f q = None" "f' = add_entry q Dir f"
    using assms(3) by (auto simp: fs_mkdir_def split: sum.splits if_splits option.splits)
  from locate_valid [OF assms(1) q(1) assms(2)] q show ?thesis
    by (auto intro!: wf_add_entry [OF assms(1)])
qed

lemma wf_mkdirs:
  assumes "wf_fs f" and "list_all no_slash (pre @ cs)"
  shows "wf_fs (snd (snd (mkdirs f pre cs b)))"
  using assms
proof (induction f pre cs b rule: mkdirs.induct)
  case (2 f pre c cs b)
  then show ?case
    using wf_fs_mkdir [OF "2.prems"(1), of "pre @ [c]"]
    by (auto split: file_status.splits sum.splits)
qed simp

lemma wf_create_directories:
  "wf_fs f \<Longrightarrow> list_all no_slash p \<Longrightarrow> wf_fs (snd (snd (create_directories f p)))"
  unfolding create_directories_def
  by (intro wf_mkdirs) (auto simp: list_all_iff dest: in_set_butlastD)

lemma wf_fs_remove:
  assumes "wf_fs f" and "list_all no_slash p"
  shows "wf_fs (snd (snd (fs_remove f p)))"
proof (cases "locate f p")
  case (Inr a)
  obtain q b where q: "a = (q, b)" by force
  have "q \<noteq> []"
    using locate_valid(1) [OF assms(1) _ assms(2)] Inr q by simp
  then show ?thesis
    using assms(1) Inr q by (auto simp: fs_remove_def split: option.splits intro: wf_del_entry)
qed (use assms(1) in \<open>simp add: fs_remove_def\<close>)

lemma wf_open_trunc:
  assumes "wf_fs f" and "list_all no_slash p" and "open_trunc k f p = Inr (i, f')"
  shows "wf_fs f'"
  using assms
proof (induction k f p rule: open_trunc.induct)
  case (1 k f p)
  obtain q b where q: "locate f p = Inr (q, b)" "\<not> b"
    using "1.prems"(3) by (auto split: sum.splits bool.splits)
  note v = locate_valid [OF "1.prems"(1) q(1) "1.prems"(2)]
  show ?case
  proof (cases "node_at f q")
    case None
    then have "f' = snd (create_file q f)"
      using "1.prems"(3) q by (auto split: option.splits)
    then show ?thesis
      using wf_create_file [OF "1.prems"(1) v(1) None v(3,2)] by simp
  next
    case (Some n)
    show ?thesis
    proof (cases n)
      case (Symlink t)
      then obtain k' where k: "k = Suc k'"
        using "1.prems"(3) q Some by (cases k) auto
      have "list_all no_slash (butlast q)"
        using v(2) by (auto simp: list_all_iff intro: valid_name_no_slash dest: in_set_butlastD)
      with "1.IH" [OF q(1) refl _ Some Symlink k] "1.prems" q Some Symlink k show ?thesis
        by (simp add: path_of_no_slash)
    qed (use "1.prems" q Some in \<open>auto split: option.splits\<close>)
  qed
qed

section \<open>Renaming\<close>

lemma move_path_simps:
  "move_path src dst (src @ r) = dst @ r"
  "\<not> prefix src p \<Longrightarrow> move_path src dst p = p"
  by (simp_all add: move_path_def)

lemma del_entry_tree: "(p, n) \<in> set (tree (del_entry q f)) \<longleftrightarrow> (p, n) \<in> set (tree f) \<and> p \<noteq> q"
  by (auto simp: del_entry_def)

text \<open>What holds of a destination that a rename may use: nothing is at or below it once its
  entry is gone, and it is not inside the source.\<close>

definition rename_target :: "fs \<Rightarrow> apath \<Rightarrow> apath \<Rightarrow> bool" where
  "rename_target f src dst \<longleftrightarrow>
     src \<noteq> [] \<and> dst \<noteq> [] \<and> \<not> prefix src dst \<and> (\<forall>p n. node_at f (dst @ p) = Some n \<longrightarrow> p = [])"

lemma rename_target_leaf:
  assumes "wf_fs f" and "replace_error f n dst = None" and "src \<noteq> []" and "dst \<noteq> []"
    and "\<not> prefix src dst"
  shows "rename_target f src dst"
proof -
  have "p = []" if m: "node_at f (dst @ p) = Some m" for p m
  proof (cases "children f dst = []")
    case True
    then show ?thesis
      using children_Nil_below [OF assms(1)] m by blast
  next
    case False
    then show ?thesis
      using wf_fs_prefix_dir [OF assms(1) m] assms(2)
      by (cases "p = []") (auto simp: replace_error_def split: if_splits)
  qed
  with assms show ?thesis
    by (auto simp: rename_target_def)
qed

lemma move_path_inj:
  assumes "rename_target f src dst" and "node_at f p = Some m" and "node_at f q = Some n"
    and "p \<noteq> dst" and "q \<noteq> dst" and "move_path src dst p = move_path src dst q"
  shows "p = q"
proof -
  have below: "prefix dst r \<Longrightarrow> r = dst" if "node_at f r = Some k" for r k
    using assms(1) that by (auto simp: rename_target_def prefix_def)
  from assms below [OF assms(2)] below [OF assms(3)] show ?thesis
    by (auto simp: move_path_def prefix_def split: if_splits)
qed

lemma distinct_move:
  assumes "wf_fs f" and "rename_target f src dst"
  shows "distinct (map fst (tree (move_entries src dst (del_entry dst f))))"
proof -
  have "map fst (tree (move_entries src dst (del_entry dst f))) =
      map (move_path src dst) (map fst (tree (del_entry dst f)))"
    by (auto simp: move_entries_def)
  moreover have "distinct (map fst (tree (del_entry dst f)))"
    using assms(1) by (auto simp: del_entry_def wf_fs_def distinct_map_filter)
  moreover have "inj_on (move_path src dst) (fst ` set (tree (del_entry dst f)))"
  proof (rule inj_onI)
    fix p r assume p: "p \<in> fst ` set (tree (del_entry dst f))" and r: "r \<in> fst ` set (tree (del_entry dst f))"
      and e: "move_path src dst p = move_path src dst r"
    obtain m k where "(p, m) \<in> set (tree f)" "p \<noteq> dst" "(r, k) \<in> set (tree f)" "r \<noteq> dst"
      using p r by (auto simp: del_entry_tree)
    then show "p = r"
      using wf_fs_treeD(4) [OF assms(1)] move_path_inj [OF assms(2) _ _ _ _ e] by blast
  qed
  ultimately show ?thesis
    by (metis distinct_map list.set_map)
qed


lemma move_tree:
  "(r, n) \<in> set (tree (move_entries src dst (del_entry dst f))) \<longleftrightarrow>
   (\<exists>p. (p, n) \<in> set (tree f) \<and> p \<noteq> dst \<and> r = move_path src dst p)"
proof -
  have "(r, n) \<in> set (tree (move_entries src dst (del_entry dst f))) \<longleftrightarrow>
      (\<exists>p. (p, n) \<in> set (tree (del_entry dst f)) \<and> r = move_path src dst p)"
    by (auto simp: move_entries_def image_iff split: prod.splits)
  then show ?thesis
    by (auto simp: del_entry_tree)
qed

lemma node_at_Some_iff:
  assumes "distinct (map fst (tree f))" and "p \<noteq> []"
  shows "node_at f p = Some n \<longleftrightarrow> (p, n) \<in> set (tree f)"
  using assms by (auto simp: node_at_def dest: map_of_SomeD)

lemma node_at_moved:
  assumes "wf_fs f" and "rename_target f src dst"
  shows "node_at (move_entries src dst (del_entry dst f)) p =
    (if prefix dst p then node_at f (src @ drop (length dst) p)
     else if prefix src p then None else node_at f p)" (is "node_at ?g p = ?n")
proof (cases "p = []")
  case True
  with assms(2) show ?thesis
    by (auto simp: rename_target_def)
next
  case False
  have d: "distinct (map fst (tree f))" "src \<noteq> []" "dst \<noteq> []"
    using assms by (auto simp: wf_fs_def rename_target_def)
  have "node_at ?g p = Some n \<longleftrightarrow> ?n = Some n" for n
  proof -
    have "node_at ?g p = Some n \<longleftrightarrow>
        (\<exists>q. node_at f q = Some n \<and> q \<noteq> [] \<and> q \<noteq> dst \<and> p = move_path src dst q)"
      unfolding node_at_Some_iff [OF distinct_move [OF assms] False] move_tree
      using node_at_Some_iff [OF d(1)] wf_fs_treeD(1) [OF assms(1)] by blast
    also have "\<dots> \<longleftrightarrow> ?n = Some n"
    proof (cases "prefix dst p")
      case True
      then obtain r where r: "p = dst @ r"
        by (auto simp: prefix_def)
      have "src @ r \<noteq> dst"
        using assms(2) by (auto simp: rename_target_def)
      moreover have "q = src @ r" if "node_at f q = Some n" "q \<noteq> dst" "dst @ r = move_path src dst q" for q
        using that assms(2) by (auto simp: move_path_def rename_target_def prefix_def split: if_splits)
      ultimately have "(\<exists>q. node_at f q = Some n \<and> q \<noteq> [] \<and> q \<noteq> dst \<and> dst @ r = move_path src dst q) \<longleftrightarrow>
          node_at f (src @ r) = Some n"
        using d(2) move_path_simps(1) by (metis append_is_Nil_conv)
      then show ?thesis
        using r by simp
    next
      case out: False
      then have "q = p \<and> \<not> prefix src p" if "p = move_path src dst q" for q
        using that by (auto simp: move_path_def split: if_splits)
      moreover have "\<not> prefix src p \<Longrightarrow> p = move_path src dst p"
        by (simp add: move_path_simps)
      moreover have "p \<noteq> dst"
        using out by auto
      ultimately have "(\<exists>q. node_at f q = Some n \<and> q \<noteq> [] \<and> q \<noteq> dst \<and> p = move_path src dst q) \<longleftrightarrow>
          \<not> prefix src p \<and> node_at f p = Some n"
        using False by metis
      with out show ?thesis
        by simp
    qed
    finally show ?thesis .
  qed
  then show ?thesis
    by (metis not_None_eq)
qed

lemma wf_move_entries:
  assumes "wf_fs f" and "rename_target f src dst" and "node_at f (butlast dst) = Some Dir"
    and "list_all valid_name dst"
  shows "wf_fs (move_entries src dst (del_entry dst f))" (is "wf_fs ?g")
proof (rule wf_fsI, goal_cases)
  case 1
  show ?case by (rule distinct_move [OF assms(1,2)])
next
  case (2 r n)
  then obtain p where p: "(p, n) \<in> set (tree f)" "p \<noteq> dst" "r = move_path src dst p"
    by (auto simp: move_tree)
  note w = wf_fs_treeD [OF assms(1) p(1)]
  have ne: "src \<noteq> []" "dst \<noteq> []" "\<not> prefix src dst"
    using assms(2) by (auto simp: rename_target_def)
  show ?case
  proof (cases "prefix src p")
    case True
    then obtain s where s: "p = src @ s"
      by (auto simp: prefix_def)
    then have r: "r = dst @ s"
      using p(3) by (simp add: move_path_simps)
    have "node_at ?g (butlast r) = Some Dir"
    proof (cases "s = []")
      case True
      have "\<not> prefix dst (butlast dst)" "\<not> prefix src (butlast dst)"
        using ne prefix_length_le [of dst "butlast dst"] prefixeq_butlast [of dst]
        by (auto dest: prefix_order.trans simp: Suc_le_eq) (cases dst; simp)
      with True show ?thesis
        using assms(3) r by (simp add: node_at_moved [OF assms(1,2)])
    next
      case False
      with w(3) s r show ?thesis
        by (simp add: node_at_moved [OF assms(1,2)] butlast_append)
    qed
    with w(2) s r ne(2) assms(4) show ?thesis by simp
  next
    case False
    then have r: "r = p"
      using p(3) by (simp add: move_path_simps)
    have out: "\<not> prefix src (butlast p)"
      using False prefixeq_butlast [of p] prefix_order.trans by blast
    have "\<not> prefix dst (butlast p)"
    proof
      assume "prefix dst (butlast p)"
      then obtain u where u: "butlast p = dst @ u" by (auto simp: prefix_def)
      then have "p = dst @ u @ [last p]"
        using w(1) by (metis append.assoc append_butlast_last_id)
      then have "node_at f (dst @ u @ [last p]) = Some n"
        using w(4) by simp
      then show False
        using assms(2) unfolding rename_target_def by blast
    qed
    with out w(1-3) r show ?thesis
      by (simp add: node_at_moved [OF assms(1,2)])
  qed
next
  case (3 r i)
  then show ?case
    using wf_fs_treeD(5) [OF assms(1)] by (auto simp: move_tree move_entries_def del_entry_def)
qed

lemma fs_rename_cases:
  assumes "wf_fs f" and "list_all no_slash q" and "fs_rename f p q = Inr f'" and "list_all no_slash p"
  obtains (same) src b b' where "locate f p = Inr (src, b)" "locate f q = Inr (src, b')" "f' = f"
    | (moved) src dst n b b' where "locate f p = Inr (src, b)" "locate f q = Inr (dst, b')"
        "node_at f src = Some n" "src \<noteq> dst" "rename_target f src dst"
        "f' = move_entries src dst (del_entry dst f)" "replace_error f n dst = None"
proof -
  obtain src b dst b' n where *: "locate f p = Inr (src, b)" "locate f q = Inr (dst, b')"
    "node_at f src = Some n"
    using assms(3) by (auto simp: fs_rename_def split: sum.splits option.splits)
  show thesis
  proof (cases "src = dst")
    case True
    with * assms(3) show ?thesis
      by (intro same) (auto simp: fs_rename_def split: if_splits)
  next
    case False
    with * assms(3) have r: "f' = move_entries src dst (del_entry dst f)" "replace_error f n dst = None"
      "\<not> prefix src dst"
      by (auto simp: fs_rename_def split: if_splits option.splits)
    have "rename_target f src dst"
      using rename_target_leaf [OF assms(1) r(2) _ _ r(3)] locate_valid(1) [OF assms(1) *(1) assms(4)]
        locate_valid(1) [OF assms(1) *(2) assms(2)] by simp
    with * False r show ?thesis
      by (intro moved)
  qed
qed

lemma wf_fs_rename:
  assumes "wf_fs f" and "list_all no_slash p" and "list_all no_slash q" and "fs_rename f p q = Inr f'"
  shows "wf_fs f'"
  using assms(1,3,4,2)
proof (cases rule: fs_rename_cases)
  case (moved src dst n b b')
  then show ?thesis
    using locate_valid [OF assms(1) moved(2) assms(3)] assms(1) by (auto intro: wf_move_entries)
qed (use assms(1) in simp)

section \<open>What the operations do to the tree\<close>

lemma fs_remove_result:
  assumes "fs_remove f p = (ok, ec, f')"
  shows "if ok then ec = None \<and> (\<exists>q b n. locate f p = Inr (q, b) \<and> node_at f q = Some n \<and>
      (n = Dir \<longrightarrow> children f q = []) \<and> f' = del_entry q f) else f' = f"
proof (cases "locate f p")
  case (Inr a)
  obtain q b where a: "a = (q, b)" by force
  show ?thesis
  proof (cases "node_at f q")
    case (Some n)
    with assms Inr a show ?thesis
      by (cases "denied f Unlink q") (simp_all add: fs_remove_def split: if_splits)
  qed (use assms Inr a in \<open>simp add: fs_remove_def\<close>)
qed (use assms in \<open>simp add: fs_remove_def\<close>)

text \<open>The abstract view of a disk is the map \<open>node_at\<close> from locations to nodes with the contents
  of the inodes.  A removal updates it at one location.\<close>

lemma node_at_removed: "q \<noteq> [] \<Longrightarrow> node_at (del_entry q f) = (node_at f)(q := None)"
  by (rule ext) (simp add: node_at_del_entry)

text \<open>Directories may be added; nothing else changes.\<close>

definition dirs_added :: "fs \<Rightarrow> fs \<Rightarrow> bool" where
  "dirs_added f f' \<longleftrightarrow>
     (\<forall>p. node_at f' p = node_at f p \<or> (node_at f p = None \<and> node_at f' p = Some Dir)) \<and>
     content f' = content f \<and> next_inode f' = next_inode f \<and> free f' = free f \<and>
     denied f' = denied f \<and> mtime f' = mtime f"

lemma dirs_added_refl [simp]: "dirs_added f f"
  by (simp add: dirs_added_def)

lemma dirs_added_trans: "dirs_added f g \<Longrightarrow> dirs_added g h \<Longrightarrow> dirs_added f h"
  unfolding dirs_added_def by (metis (no_types, lifting))

lemma dirs_added_node: "dirs_added f f' \<Longrightarrow> node_at f p = Some n \<Longrightarrow> node_at f' p = Some n"
  unfolding dirs_added_def by (metis option.distinct(1))

lemma fs_mkdir_cases:
  assumes "fs_mkdir f p = Inr f'"
  obtains q b where "locate f p = Inr (q, b)" "node_at f q = None" "f' = add_entry q Dir f"
  using assms by (auto simp: fs_mkdir_def split: sum.splits option.splits if_splits)

lemma fs_mkdir_dirs_added:
  assumes "wf_fs f" and "list_all no_slash p" and "fs_mkdir f p = Inr f'"
  shows "dirs_added f f'"
  using assms(3)
proof (cases rule: fs_mkdir_cases)
  case (1 q b)
  then show ?thesis
    using locate_valid(1) [OF assms(1) 1(1) assms(2)] by (simp add: dirs_added_def node_at_add_entry)
qed

lemma mkdirs_dirs_added:
  assumes "wf_fs f" and "list_all no_slash (pre @ cs)"
  shows "dirs_added f (snd (snd (mkdirs f pre cs b)))"
  using assms
proof (induction f pre cs b rule: mkdirs.induct)
  case (2 f pre c cs b)
  then show ?case
    using wf_fs_mkdir [OF "2.prems"(1), of "pre @ [c]"] fs_mkdir_dirs_added [OF "2.prems"(1), of "pre @ [c]"]
    by (auto split: file_status.splits sum.splits intro: dirs_added_trans)
qed simp

lemma mkdirs_result: "mkdirs f pre cs b = (c, e, f') \<Longrightarrow> e \<noteq> None \<longrightarrow> \<not> c"
  by (induction f pre cs b rule: mkdirs.induct) (auto split: file_status.splits sum.splits if_splits)

text \<open>Lookups keep their results when entries are added.\<close>

definition extends :: "fs \<Rightarrow> fs \<Rightarrow> bool" where
  "extends f f' \<longleftrightarrow> (\<forall>p n. node_at f p = Some n \<longrightarrow> node_at f' p = Some n) \<and> denied f' = denied f"

lemma extends_trans: "extends f g \<Longrightarrow> extends g h \<Longrightarrow> extends f h"
  by (simp add: extends_def)

lemma dirs_added_extends: "dirs_added f f' \<Longrightarrow> extends f f'"
  unfolding extends_def by (simp add: dirs_added_node, simp add: dirs_added_def)

lemma extends_node: "extends f f' \<Longrightarrow> node_at f p = Some n \<Longrightarrow> node_at f' p = Some n"
  by (simp add: extends_def)

lemma walk_extends:
  assumes "extends f f'" and "walk k f cur cs = Inr q"
  shows "walk k f' cur cs = Inr q"
  using assms
proof (induction k f cur cs rule: walk.induct)
  case (2 k f cur c cs)
  have s: "denied f SearchDir cur = None" "denied f' SearchDir cur = None"
    using "2.prems" by (auto simp: extends_def split: option.splits)
  consider (stay) "c = [] \<or> c = ''.''" | (up) "c = ''..''"
    | (down) n where "\<not> (c = [] \<or> c = ''.'')" "c \<noteq> ''..''" "node_at f (cur @ [c]) = Some n"
    using "2.prems" s by (auto split: option.splits if_splits)
  then show ?case
  proof cases
    case stay
    then show ?thesis using "2.IH"(1) "2.prems" s by auto
  next
    case up
    then show ?thesis using "2.IH"(2) "2.prems" s by auto
  next
    case (down n)
    note n = extends_node [OF "2.prems"(1) down(3)]
    show ?thesis
    proof (cases n)
      case (File i)
      then show ?thesis using "2.prems" s down n by (auto split: if_splits)
    next
      case Dir
      then show ?thesis using "2.IH"(3) "2.prems" s down n by auto
    next
      case (Symlink t)
      then show ?thesis using "2.IH"(4) "2.prems" s down n by (auto split: if_splits)
    qed
  qed
qed simp

text \<open>One more name after a lookup that ended in a directory.\<close>

lemma walk_snoc:
  assumes "walk k f cur cs = Inr d" and "node_at f d = Some Dir" and "denied f SearchDir d = None"
    and "node_at f (d @ [c]) = Some n" and "\<forall>t. n \<noteq> Symlink t" and "c \<noteq> []" "c \<noteq> ''.''" "c \<noteq> ''..''"
  shows "walk k f cur (cs @ [c]) = Inr (d @ [c])"
  using assms
proof (induction k f cur cs rule: walk.induct)
  case (1 k f cur)
  then show ?case by (cases n) auto
next
  case (2 k f cur b cs)
  have s: "denied f SearchDir cur = None"
    using "2.prems"(1) by (auto split: option.splits)
  consider (stay) "b = [] \<or> b = ''.''" | (up) "b = ''..''"
    | (down) m where "\<not> (b = [] \<or> b = ''.'')" "b \<noteq> ''..''" "node_at f (cur @ [b]) = Some m"
    using "2.prems"(1) s by (auto split: option.splits if_splits)
  then show ?case
  proof cases
    case stay
    then show ?thesis using "2.IH"(1) "2.prems" s by auto
  next
    case up
    then show ?thesis using "2.IH"(2) "2.prems" s by auto
  next
    case (down m)
    show ?thesis
    proof (cases m)
      case (File i)
      then show ?thesis using "2.prems"(1,2) s down by (auto split: if_splits)
    next
      case Dir
      then show ?thesis using "2.IH"(3) "2.prems" s down by auto
    next
      case (Symlink t)
      then show ?thesis using "2.IH"(4) "2.prems" s down by (auto split: if_splits)
    qed
  qed
qed

lemma is_directory_walk:
  "is_directory f p \<longleftrightarrow> (\<exists>q. walk max_links f [] p = Inr q \<and> node_at f q = Some Dir)"
  by (auto simp: is_directory_def status_def split: sum.splits option.splits node.splits)

lemma is_directory_extends:
  "extends f f' \<Longrightarrow> is_directory f p \<Longrightarrow> is_directory f' p"
  unfolding is_directory_walk using walk_extends extends_node by blast

lemma locate_entry_extends:
  assumes "extends f f'" and "locate_entry f p = Inr q"
  shows "locate_entry f' p = Inr q"
proof -
  obtain d where "walk max_links f [] (butlast p) = Inr d"
    using assms(2) by (auto simp: locate_entry_def split: if_splits sum.splits)
  with walk_extends [OF assms(1) this] assms show ?thesis
    by (auto simp: locate_entry_def extends_def split: if_splits option.splits)
qed

lemma locate_extends: "extends f f' \<Longrightarrow> locate f p = Inr x \<Longrightarrow> locate f' p = Inr x"
  by (auto simp: locate_def dest: locate_entry_extends split: if_splits sum.splits)

lemma fs_mkdir_is_directory:
  assumes "wf_fs f" and "list_all no_slash (p @ [c])" and "fs_mkdir f (p @ [c]) = Inr f'" and "c \<noteq> []"
  shows "is_directory f' (p @ [c])"
  using assms(3)
proof (cases rule: fs_mkdir_cases)
  case (1 q b)
  then have "locate_entry f (p @ [c]) = Inr q"
    using assms(4) by (auto simp: locate_def split: sum.splits)
  then obtain d where d: "q = d @ [c]" "node_at f d = Some Dir" "denied f SearchDir d = None"
    "c \<noteq> []" "c \<noteq> ''.''" "c \<noteq> ''..''" "walk max_links f [] p = Inr d"
    using locate_entry_Inr [OF assms(1), of "p @ [c]" q] by auto
  have a: "dirs_added f f'"
    by (rule fs_mkdir_dirs_added [OF assms(1-3)])
  then have "denied f' = denied f"
    by (simp add: dirs_added_def)
  then have "walk max_links f' [] (p @ [c]) = Inr q"
    using walk_snoc [OF walk_extends [OF dirs_added_extends [OF a] d(7)] dirs_added_node [OF a d(2)], of c Dir] 1 d
    by (simp add: node_at_add_entry)
  then show ?thesis
    using 1 d(1) by (simp add: is_directory_def status_def node_at_add_entry)
qed

lemma mkdirs_is_directory:
  assumes "wf_fs f" and "list_all no_slash (pre @ cs)" and "mkdirs f pre cs b = (created, None, f')"
    and "is_directory f pre" and "[] \<notin> set cs"
  shows "is_directory f' (pre @ cs)"
  using assms
proof (induction f pre cs b rule: mkdirs.induct)
  case (2 f pre c cs b)
  show ?case
  proof (cases "status f (pre @ [c])")
    case (Found q n)
    with 2 show ?thesis
      by (auto simp: is_directory_iff split: if_splits)
  next
    case NotFound
    then obtain f1 where f1: "fs_mkdir f (pre @ [c]) = Inr f1"
      using "2.prems"(3) by (auto split: sum.splits)
    then have "is_directory f1 (pre @ [c])" "wf_fs f1"
      using fs_mkdir_is_directory [OF "2.prems"(1) _ f1] wf_fs_mkdir [OF "2.prems"(1) _ f1] "2.prems" by auto
    with "2.IH"(2) [OF NotFound f1] "2.prems" NotFound f1 show ?thesis by simp
  qed (use "2.prems" in simp)
qed simp

definition no_trailing :: "apath \<Rightarrow> apath" where
  "no_trailing p = (if p \<noteq> [] \<and> last p = [] then butlast p else p)"

lemma normal_path_no_trailing: "normal_path p \<Longrightarrow> list_all valid_name (no_trailing p)"
  by (auto simp: normal_path_def no_trailing_def list_all_iff dest: in_set_butlastD)

lemma create_directories_spec:
  assumes "wf_fs f" and "normal_path p" and "create_directories f p = (created, e, f')"
  shows "dirs_added f f' \<and> wf_fs f' \<and> (e = None \<longrightarrow> is_directory f' (no_trailing p)) \<and> (created \<longrightarrow> e = None)"
proof -
  have m: "mkdirs f [] (no_trailing p) False = (created, e, f')"
    using assms(3) by (simp add: create_directories_def no_trailing_def)
  have v: "list_all no_slash (no_trailing p)" "[] \<notin> set (no_trailing p)"
    using normal_path_no_trailing [OF assms(2)]
    by (auto simp: list_all_iff valid_name_def no_slash_def)
  have "is_directory f []"
    by (simp add: is_directory_def status_def)
  with mkdirs_dirs_added [OF assms(1), of "[]" "no_trailing p" False] wf_mkdirs [OF assms(1), of "[]" "no_trailing p" False]
    mkdirs_is_directory [OF assms(1), of "[]" "no_trailing p" False created f'] mkdirs_result [OF m] m v
  show ?thesis by auto
qed

section \<open>Output streams\<close>

lemma write_at_end: "pos = length old \<Longrightarrow> write_at pos d old = old @ d"
  by (simp add: write_at_def)

text \<open>What has been written to a stream, flushed or not, and the state of a stream that has only
  been appended to.\<close>

definition os_view :: "fs \<Rightarrow> ofstream \<Rightarrow> bytes" where
  "os_view f st = content f (os_inode st) @ os_pending st"

definition os_ok :: "fs \<Rightarrow> ofstream \<Rightarrow> bool" where
  "os_ok f st \<longleftrightarrow> os_open st \<and> os_good st \<and> os_pos st = length (content f (os_inode st)) \<and>
     length (os_pending st) < os_buffer_size"

text \<open>Writing changes the content of one inode and the space left.\<close>

definition writes_inode :: "nat \<Rightarrow> fs \<Rightarrow> fs \<Rightarrow> bool" where
  "writes_inode i f f' \<longleftrightarrow>
     (\<exists>d m. m \<le> free f \<and> f' = f\<lparr>content := (content f)(i := d), free := m\<rparr>)"

lemma writes_inode_refl [simp]: "writes_inode i f f"
  unfolding writes_inode_def by (rule exI [of _ "content f i"], rule exI [of _ "free f"]) simp

lemma writes_inode_trans: "writes_inode i f g \<Longrightarrow> writes_inode i g h \<Longrightarrow> writes_inode i f h"
  unfolding writes_inode_def
proof (elim exE conjE, goal_cases)
  case (1 d e m l)
  then have "l \<le> free f" "h = f\<lparr>content := (content f)(i := e), free := l\<rparr>"
    by (auto intro: order_trans)
  then show ?case by blast
qed

lemma writes_inodeD:
  assumes "writes_inode i f f'"
  shows "tree f' = tree f" "next_inode f' = next_inode f" "node_at f' = node_at f" "denied f' = denied f"
    "mtime f' = mtime f" "free f' \<le> free f" "j \<noteq> i \<Longrightarrow> content f' j = content f j"
    "wf_fs f' \<longleftrightarrow> wf_fs f"
proof -
  obtain d m where f': "m \<le> free f" "f' = f\<lparr>content := (content f)(i := d), free := m\<rparr>"
    using assms unfolding writes_inode_def by blast
  show "tree f' = tree f" "next_inode f' = next_inode f" "node_at f' = node_at f" "denied f' = denied f"
    "mtime f' = mtime f" "free f' \<le> free f" "j \<noteq> i \<Longrightarrow> content f' j = content f j"
    using f' by simp_all
  then show "wf_fs f' \<longleftrightarrow> wf_fs f"
    by (intro wf_fs_cong) simp_all
qed

lemma writes_inode_extends: "writes_inode i f f' \<Longrightarrow> extends f f'"
  using writes_inodeD(3,4) [of i f f'] by (simp add: extends_def)

lemma fs_write_writes: "fs_write f i pos d = (ok, f') \<Longrightarrow> writes_inode i f f'"
  unfolding fs_write_def writes_inode_def Let_def
  by (intro exI [of _ "write_at pos (take (min (free f) (length d)) d) (content f i)"]
      exI [of _ "free f - min (free f) (length d)"]) auto

lemma os_flush_writes: "os_flush st d f = (st', f') \<Longrightarrow>
    writes_inode (os_inode st) f f' \<and> os_inode st' = os_inode st \<and> os_open st' = os_open st"
  by (auto simp: os_flush_def Let_def dest: fs_write_writes split: prod.splits if_splits)

lemma os_write_writes: "os_write st d f = (st', f') \<Longrightarrow>
    writes_inode (os_inode st) f f' \<and> os_inode st' = os_inode st \<and> os_open st' = os_open st"
  by (auto simp: os_write_def dest: os_flush_writes split: if_splits)

lemma os_close_writes: "os_close st f = (st', f') \<Longrightarrow>
    writes_inode (os_inode st) f f' \<and> os_inode st' = os_inode st \<and> \<not> os_open st'"
  by (auto simp: os_close_def dest: os_flush_writes split: prod.splits if_splits)

lemma os_flush_content:
  assumes "os_flush st d f = (st', f')" and "os_pos st = length (content f (os_inode st))"
  shows "content f' (os_inode st) =
    take (length (content f (os_inode st)) + free f) (os_view f st @ d)"
    and "os_good st \<Longrightarrow> os_good st' \<longleftrightarrow> length (os_pending st) + length d \<le> free f"
    and "os_good st \<Longrightarrow> os_good st' \<Longrightarrow> os_pending st' = [] \<and> os_pos st' = length (content f' (os_inode st))"
  using assms
  by (auto simp: os_flush_def fs_write_def Let_def write_at_end os_view_def min_def split: if_splits)

lemma os_write_ok:
  assumes "os_write st d f = (st', f')" and "os_ok f st" and "os_good st'"
  shows "os_ok f' st' \<and> os_view f' st' = os_view f st @ d"
proof (cases "length d < min 1024 (os_buffer_size - length (os_pending st))")
  case True
  then show ?thesis
    using assms by (auto simp: os_write_def os_ok_def os_view_def)
next
  case False
  then have fl: "os_flush st d f = (st', f')"
    using assms by (auto simp: os_write_def os_ok_def split: if_splits)
  note c = os_flush_content [OF fl]
  have "length (os_pending st) + length d \<le> free f"
    using c(2) assms(2,3) by (simp add: os_ok_def)
  then have "content f' (os_inode st) = os_view f st @ d"
    using c(1) assms(2) by (simp add: os_ok_def os_view_def)
  with c(3) assms(2,3) os_flush_writes [OF fl] fl show ?thesis
    by (auto simp: os_ok_def os_view_def os_buffer_size_def os_flush_def Let_def split: prod.splits if_splits)
qed

lemma os_write_space:
  assumes "os_write st d f = (st', f')" and "os_ok f st" and "length (os_pending st) + length d + m \<le> free f"
  shows "os_good st' \<and> length (os_pending st') + m \<le> free f'"
proof (cases "length d < min 1024 (os_buffer_size - length (os_pending st))")
  case True
  then show ?thesis
    using assms by (auto simp: os_write_def os_ok_def)
next
  case False
  then show ?thesis
    using assms by (auto simp: os_write_def os_ok_def os_flush_def fs_write_def Let_def split: if_splits)
qed

lemma os_close_ok:
  assumes "os_close st f = (st', f')" and "os_ok f st"
  shows "content f' (os_inode st) = take (length (content f (os_inode st)) + free f) (os_view f st)"
  using assms os_flush_content(1) [of st "[]" f]
  by (auto simp: os_close_def os_ok_def split: prod.splits)

lemma os_opened_ok: "content f i = [] \<Longrightarrow> os_ok f (os_opened i) \<and> os_view f (os_opened i) = []"
  by (simp add: os_ok_def os_view_def os_opened_def os_buffer_size_def)

section \<open>Opening\<close>

lemma open_trunc_result:
  assumes "wf_fs f" and "list_all no_slash p" and "open_trunc k f p = Inr (i, f')"
  shows "\<exists>q. node_at f' q = Some (File i) \<and> content f' i = [] \<and> (\<forall>j. j \<noteq> i \<longrightarrow> content f' j = content f j) \<and>
    (\<forall>r. node_at f' r = (if r = q then Some (File i) else node_at f r)) \<and>
    (node_at f q = None \<and> i = next_inode f \<or> node_at f q = Some (File i)) \<and> free f' = free f \<and>
    denied f' = denied f \<and> ((\<forall>r t. node_at f r \<noteq> Some (Symlink t)) \<longrightarrow> locate f p = Inr (q, False))"
  using assms
proof (induction k f p rule: open_trunc.induct)
  case (1 k f p)
  obtain q b where q: "locate f p = Inr (q, b)" "\<not> b"
    using "1.prems"(3) by (auto split: sum.splits bool.splits)
  note v = locate_valid [OF "1.prems"(1) q(1) "1.prems"(2)]
  show ?case
  proof (cases "node_at f q")
    case None
    then have "f' = snd (create_file q f)" "i = fst (create_file q f)"
      using "1.prems"(3) q by (auto split: option.splits)
    then show ?thesis
      using v(1) None q by (intro exI [of _ q]) (simp add: create_file_def node_at_add_entry)
  next
    case (Some n)
    show ?thesis
    proof (cases n)
      case (File j)
      then have "j = i" "f' = f\<lparr>content := (content f)(i := [])\<rparr>"
        using "1.prems"(3) q Some by (auto split: option.splits)
      then show ?thesis
        using Some File q by (intro exI [of _ q]) auto
    next
      case (Symlink t)
      then obtain k' where k: "k = Suc k'"
        using "1.prems"(3) q Some by (cases k) auto
      have "list_all no_slash (butlast q)"
        using v(2) by (auto simp: list_all_iff intro: valid_name_no_slash dest: in_set_butlastD)
      then have n: "list_all no_slash (if is_absolute (path_of t) then elements (path_of t)
          else butlast q @ elements (path_of t))"
        by (simp add: path_of_no_slash)
      have o: "open_trunc k' f (if is_absolute (path_of t) then elements (path_of t)
          else butlast q @ elements (path_of t)) = Inr (i, f')"
        using "1.prems"(3) q Some Symlink k by simp
      have link: "\<not> (\<forall>r t. node_at f r \<noteq> Some (Symlink t))"
        using Some Symlink by blast
      show ?thesis
        using "1.IH" [OF q(1) refl _ Some Symlink k "1.prems"(1) n o] q(2) link by blast
    qed (use "1.prems" q Some in auto)
  qed
qed

end
