(* ===== verification/Wire.thy ===== *)
theory Wire
  imports Prelude
begin

text \<open>
  The framing layer of the protocol: \<open>protocol/packet.hpp\<close>, \<open>protocol/packet_type.hpp\<close> and
  \<open>protocol/packet_serializer.cpp\<close>.  A packet is a packed 12-byte header (a 32-bit type and a
  64-bit payload size, both big-endian) and a payload.  \<open>deserialize\<close> keeps the code's 64-bit
  addition in its bounds check, with its wrap-around.
\<close>

section \<open>Packets\<close>

record packet_header =
  ptype :: u32
  payload_size :: u64

record packet =
  header :: packet_header
  payload :: bytes

datatype packet_type =
    PING | PONG
  | AUTH_REQUEST | AUTH_RESPONSE
  | LIST | LIST_RESPONSE
  | UPLOAD_BEGIN | UPLOAD_CHUNK | UPLOAD_END
  | DOWNLOAD_REQUEST | DOWNLOAD_CHUNK
  | DELETE_FILE | RENAME_FILE | MKDIR
  | SUCCESS | ERROR
  | UPLOAD_ACK
  | DOWNLOAD_BEGIN | DOWNLOAD_END
  | DELETE_REQUEST | DELETE_RESPONSE
  | RENAME_REQUEST | RENAME_RESPONSE
  | MKDIR_REQUEST | MKDIR_RESPONSE
  | RMDIR_REQUEST | RMDIR_RESPONSE

fun type_code :: "packet_type \<Rightarrow> u32" where
  "type_code PING = 1"
| "type_code PONG = 2"
| "type_code AUTH_REQUEST = 3"
| "type_code AUTH_RESPONSE = 4"
| "type_code LIST = 5"
| "type_code LIST_RESPONSE = 6"
| "type_code UPLOAD_BEGIN = 7"
| "type_code UPLOAD_CHUNK = 8"
| "type_code UPLOAD_END = 9"
| "type_code DOWNLOAD_REQUEST = 10"
| "type_code DOWNLOAD_CHUNK = 11"
| "type_code DELETE_FILE = 12"
| "type_code RENAME_FILE = 13"
| "type_code MKDIR = 14"
| "type_code SUCCESS = 15"
| "type_code ERROR = 16"
| "type_code UPLOAD_ACK = 17"
| "type_code DOWNLOAD_BEGIN = 18"
| "type_code DOWNLOAD_END = 19"
| "type_code DELETE_REQUEST = 20"
| "type_code DELETE_RESPONSE = 21"
| "type_code RENAME_REQUEST = 22"
| "type_code RENAME_RESPONSE = 23"
| "type_code MKDIR_REQUEST = 24"
| "type_code MKDIR_RESPONSE = 25"
| "type_code RMDIR_REQUEST = 26"
| "type_code RMDIR_RESPONSE = 27"

definition all_packet_types :: "packet_type list" where
  "all_packet_types =
     [PING, PONG, AUTH_REQUEST, AUTH_RESPONSE, LIST, LIST_RESPONSE, UPLOAD_BEGIN, UPLOAD_CHUNK,
      UPLOAD_END, DOWNLOAD_REQUEST, DOWNLOAD_CHUNK, DELETE_FILE, RENAME_FILE, MKDIR, SUCCESS,
      ERROR, UPLOAD_ACK, DOWNLOAD_BEGIN, DOWNLOAD_END, DELETE_REQUEST, DELETE_RESPONSE,
      RENAME_REQUEST, RENAME_RESPONSE, MKDIR_REQUEST, MKDIR_RESPONSE, RMDIR_REQUEST,
      RMDIR_RESPONSE]"

text \<open>\<open>static_cast<PacketType>(header.type)\<close>: a value without an enumerator is \<open>None\<close> and
  reaches the \<open>default\<close> of the code's switch statements.\<close>

definition packet_type_of :: "u32 \<Rightarrow> packet_type option" where
  "packet_type_of c = List.find (\<lambda>t. type_code t = c) all_packet_types"

lemma packet_type_of_code [simp]: "packet_type_of (type_code t) = Some t"
  by (cases t) (simp_all add: packet_type_of_def all_packet_types_def)

lemma type_code_inject [simp]: "type_code s = type_code t \<longleftrightarrow> s = t"
  by (metis option.inject packet_type_of_code)

lemma packet_type_of_Some: "packet_type_of c = Some t \<Longrightarrow> type_code t = c"
  by (auto simp: packet_type_of_def find_Some_iff)

instantiation packet_type :: linorder
begin

definition less_eq_packet_type :: "packet_type \<Rightarrow> packet_type \<Rightarrow> bool" where
  "less_eq_packet_type s t \<longleftrightarrow> type_code s \<le> type_code t"

definition less_packet_type :: "packet_type \<Rightarrow> packet_type \<Rightarrow> bool" where
  "less_packet_type s t \<longleftrightarrow> type_code s < type_code t"

instance
  by standard (auto simp: less_eq_packet_type_def less_packet_type_def order_less_le)

end

definition packet_kind :: "packet \<Rightarrow> packet_type option" where
  "packet_kind p = packet_type_of (ptype (header p))"

text \<open>What every builder does last: set the type and \<open>payload_size = payload.size()\<close>.\<close>

definition mk_packet :: "packet_type \<Rightarrow> bytes \<Rightarrow> packet" where
  "mk_packet t d =
     \<lparr>header = \<lparr>ptype = type_code t, payload_size = size64 (length d)\<rparr>, payload = d\<rparr>"

lemma mk_packet_sel [simp]:
  "payload (mk_packet t d) = d"
  "ptype (header (mk_packet t d)) = type_code t"
  "payload_size (header (mk_packet t d)) = size64 (length d)"
  "packet_kind (mk_packet t d) = Some t"
  by (simp_all add: mk_packet_def packet_kind_def)

lemma mk_packet_inject [simp]: "mk_packet s d = mk_packet t e \<longleftrightarrow> s = t \<and> d = e"
  by (auto simp: mk_packet_def)

definition consistent :: "packet \<Rightarrow> bool" where
  "consistent p \<longleftrightarrow> payload_size (header p) = size64 (length (payload p))"

lemma consistent_mk_packet [simp]: "consistent (mk_packet t d)"
  by (simp add: consistent_def)

section \<open>PacketSerializer\<close>

definition header_len :: nat where
  "header_len = 12"

definition encode_header :: "packet_header \<Rightarrow> bytes" where
  "encode_header h = enc32 (ptype h) @ enc64 (payload_size h)"

definition serialize :: "packet \<Rightarrow> bytes" where
  "serialize p =
     layout (header_len + length (payload p)) [encode_header (header p), payload p]"

definition deserialize :: "bytes \<Rightarrow> packet parse" where
  "deserialize d =
     (if length d < header_len then Rejected
      else read32 d 0 (\<lambda>t. read64 d 4 (\<lambda>n.
        if (size64 (length d) :: u64) < size64 header_len + n then Rejected
        else read_bytes d header_len (unat n) (\<lambda>body.
          Parsed \<lparr>header = \<lparr>ptype = t, payload_size = n\<rparr>, payload = body\<rparr>))))"

lemma length_encode_header [simp]: "length (encode_header h) = header_len"
  by (simp add: encode_header_def header_len_def)

lemma serialize_eq: "serialize p = encode_header (header p) @ payload p"
  unfolding serialize_def by (subst layout_concat) simp_all

lemma length_serialize [simp]: "length (serialize p) = 12 + length (payload p)"
  by (simp add: serialize_eq header_len_def)

lemma serialize_prefix_free:
  assumes "consistent p" and "consistent q"
    and "length (payload p) < 2 ^ 64" and "length (payload q) < 2 ^ 64"
    and "serialize p @ xs = serialize q @ ys"
  shows "p = q \<and> xs = ys"
proof -
  have hd: "encode_header (header p) = encode_header (header q)"
    and tl: "payload p @ xs = payload q @ ys"
    using assms(5) by (simp_all add: serialize_eq)
  then have "header p = header q"
    by (cases "header p"; cases "header q") (auto simp: encode_header_def)
  moreover from this assms(1-4) have "length (payload p) = length (payload q)"
    by (simp add: consistent_def size64_inject)
  ultimately show ?thesis
    using tl by (cases p; cases q) auto
qed

text \<open>The three outcomes of \<open>deserialize\<close>, and when each arises.\<close>

lemma deserialize_header:
  assumes "header_len \<le> length d"
  shows "deserialize d =
    (let t = dec32 (take 4 d); n = dec64 (take 8 (drop 4 d))
     in if (size64 (length d) :: u64) < size64 header_len + n then Rejected
        else if header_len + unat n \<le> length d
        then Parsed \<lparr>header = \<lparr>ptype = t, payload_size = n\<rparr>,
                     payload = take (unat n) (drop header_len d)\<rparr>
        else OOB)"
  using assms by (simp add: deserialize_def read_defs header_len_def Let_def)

lemma deserialize_serialize:
  assumes "consistent p" and "length (payload p) + length xs < 2 ^ 64 - 12"
  shows "deserialize (serialize p @ xs) = Parsed p"
proof -
  let ?d = "serialize p @ xs"
  let ?n = "payload_size (header p)"
  have n: "unat ?n = length (payload p)"
    using assms by (simp add: consistent_def)
  have "unat (size64 header_len + ?n :: u64) = header_len + length (payload p)"
    using assms(2) n by (simp add: unat_word_ariths header_len_def unat_size)
  moreover have "unat (size64 (length ?d)) = length ?d"
    using assms(2) by simp
  ultimately have "\<not> size64 (length ?d) < size64 header_len + ?n"
    by (simp add: word_less_nat_alt serialize_eq header_len_def)
  moreover have "take 4 ?d = enc32 (ptype (header p))" "take 8 (drop 4 ?d) = enc64 ?n"
    "drop header_len ?d = payload p @ xs"
    by (simp_all add: serialize_eq encode_header_def header_len_def)
  ultimately show ?thesis
    by (simp add: deserialize_header header_len_def n Let_def)
qed

lemma deserialize_Parsed:
  assumes "deserialize d = Parsed p" and "length d < 2 ^ 64"
  shows "consistent p \<and> d = serialize p @ drop (length (serialize p)) d"
proof -
  have len: "header_len \<le> length d"
    using assms(1) by (auto simp: deserialize_def split: if_splits)
  define t where "t = dec32 (take 4 d)"
  define n where "n = dec64 (take 8 (drop 4 d))"
  have fit: "header_len + unat n \<le> length d"
    and p: "p = \<lparr>header = \<lparr>ptype = t, payload_size = n\<rparr>, payload = take (unat n) (drop header_len d)\<rparr>"
    using assms(1) len by (auto simp: deserialize_header Let_def t_def n_def split: if_splits)
  have "take 4 d = enc32 t" "take 8 (drop 4 d) = enc64 n"
    using len by (simp_all add: t_def n_def enc_dec header_len_def)
  then have "take header_len d = enc32 t @ enc64 n"
    using take_add [of 4 8 d] by (simp add: header_len_def)
  then have "d = enc32 t @ enc64 n @ take (unat n) (drop header_len d) @ drop (header_len + unat n) d"
    by (metis append.assoc append_take_drop_id drop_drop add.commute)
  then show ?thesis
    using fit by (simp add: p consistent_def serialize_eq encode_header_def header_len_def size64_def)
qed

text \<open>C40. The bounds check of PacketSerializer::deserialize adds the attacker-controlled 64-bit payload
  size to the header length with wrap-around. The function reads outside its input exactly when
  that addition overflows, for a payload size of at least \<open>2^64 - 12\<close>; every other
  input is handled inside its bounds.\<close>

theorem deserialize_out_of_bounds_iff:
  assumes "length d < 2 ^ 64"
  shows "deserialize d = OOB \<longleftrightarrow>
    header_len \<le> length d \<and> 2 ^ 64 - header_len \<le> unat (dec64 (take 8 (drop 4 d)))"
proof (cases "header_len \<le> length d")
  case False
  then show ?thesis by (simp add: deserialize_def)
next
  case True
  define n where "n = dec64 (take 8 (drop 4 d))"
  have n: "unat n < 2 ^ 64"
    by simp
  have eq: "deserialize d =
      (if size64 (length d) < size64 header_len + n then Rejected
       else if header_len + unat n \<le> length d
       then Parsed \<lparr>header = \<lparr>ptype = dec32 (take 4 d), payload_size = n\<rparr>,
                     payload = take (unat n) (drop header_len d)\<rparr>
       else OOB)"
    using True by (simp add: deserialize_header n_def Let_def)
  have sum: "unat (size64 header_len + n :: u64) = (header_len + unat n) mod 2 ^ 64"
    by (simp add: unat_word_ariths unat_size header_len_def)
  have test: "size64 (length d) < size64 header_len + n \<longleftrightarrow>
      length d < (header_len + unat n) mod 2 ^ 64"
    using assms by (simp add: word_less_nat_alt sum)
  show ?thesis
  proof (cases "2 ^ 64 - header_len \<le> unat n")
    case wraps: True
    then obtain k where k: "unat n = 2 ^ 64 - header_len + k"
      using le_Suc_ex by blast
    then have "k < header_len"
      using n by (simp add: header_len_def)
    with k have "(header_len + unat n) mod 2 ^ 64 = header_len + unat n - 2 ^ 64"
      by (simp add: header_len_def)
    then have "\<not> size64 (length d) < size64 header_len + n"
      using test True k \<open>k < header_len\<close> by simp
    moreover have "\<not> header_len + unat n \<le> length d"
      using assms wraps by (simp add: header_len_def)
    ultimately show ?thesis
      using wraps True by (simp add: eq n_def [symmetric])
  next
    case False
    then have "(header_len + unat n) mod 2 ^ 64 = header_len + unat n"
      by (simp add: header_len_def)
    with test False True show ?thesis
      by (simp add: eq n_def [symmetric])
  qed
qed

lemma deserialize_out_of_bounds_iff_witness:
  "deserialize (enc32 1 @ enc64 0xFFFFFFFFFFFFFFFF) = OOB"
  by (subst deserialize_out_of_bounds_iff) (simp_all add: header_len_def)

section \<open>Framing\<close>

lemma serialize_header:
  assumes "serialize p @ xs = serialize q @ ys"
  shows "header p = header q"
proof -
  have "encode_header (header p) @ payload p @ xs = encode_header (header q) @ payload q @ ys"
    using assms by (simp add: serialize_eq)
  then have "encode_header (header p) = encode_header (header q)"
    by (simp add: append_eq_append_conv encode_header_def)
  then show ?thesis
    by (cases "header p"; cases "header q") (auto simp: encode_header_def append_eq_append_conv)
qed

lemma serialize_kind: "serialize p @ xs = serialize q @ ys \<Longrightarrow> packet_kind p = packet_kind q"
  by (drule serialize_header) (simp add: packet_kind_def)

lemma serialize_not_Nil [simp]: "serialize p \<noteq> []"
  using length_serialize [of p] by (metis list.size(3) add_is_0 zero_neq_numeral)

lemma serialize_list_inject:
  assumes "concat (map serialize ps) = concat (map serialize qs)"
    and "\<forall>p \<in> set ps. consistent p \<and> length (payload p) < 2 ^ 64"
    and "\<forall>p \<in> set qs. consistent p \<and> length (payload p) < 2 ^ 64"
  shows "ps = qs"
  using assms
proof (induction ps arbitrary: qs)
  case Nil
  then show ?case by (cases qs) simp_all
next
  case (Cons p ps)
  then obtain q qs' where qs: "qs = q # qs'"
    by (cases qs) simp_all
  then have "p = q \<and> concat (map serialize ps) = concat (map serialize qs')"
    using Cons.prems by (intro serialize_prefix_free) simp_all
  with Cons.IH [of qs'] Cons.prems qs show ?case by simp
qed

end
