(* ===== verification/Directory_Listing.thy ===== *)
theory Directory_Listing
  imports Wire
begin

text \<open>
  \<open>filesystem/directory_entry.hpp\<close> and \<open>protocol/directory_serializer.cpp\<close>: the entries of a
  directory listing and their encoding as a 32-bit count followed by one record per entry
  (name length, name, kind, size, modification time, all integers big-endian).
  \<open>alloc_max\<close> is the largest allocation the process is granted; \<open>reserve(count)\<close> throws above it.
\<close>

record directory_entry =
  entry_name :: string
  entry_is_directory :: bool
  entry_size :: u64
  entry_mtime :: u64

section \<open>DirectorySerializer\<close>

definition encode_entry :: "directory_entry \<Rightarrow> bytes" where
  "encode_entry e =
     enc16 (size16 (length (entry_name e))) @ bytes_of (entry_name e) @
     [if entry_is_directory e then 1 else 0] @ enc64 (entry_size e) @ enc64 (entry_mtime e)"

fun serialize_loop :: "bytes \<Rightarrow> directory_entry list \<Rightarrow> bytes" where
  "serialize_loop buffer [] = buffer"
| "serialize_loop buffer (e # es) = serialize_loop (buffer @ encode_entry e) es"

definition serialize_entries :: "directory_entry list \<Rightarrow> bytes" where
  "serialize_entries es = serialize_loop (enc32 (size32 (length es))) es"

text \<open>\<open>sizeof(DirectoryEntry)\<close> on the LP64 ABI: a 32-byte string, a flag and two 64-bit fields.\<close>

definition entry_sizeof :: nat where
  "entry_sizeof = 56"

fun deserialize_loop ::
  "nat \<Rightarrow> bytes \<Rightarrow> nat \<Rightarrow> directory_entry list \<Rightarrow> directory_entry list parse" where
  "deserialize_loop 0 d off out = Parsed out"
| "deserialize_loop (Suc i) d off out =
     (if length d < off + 2 then Rejected
      else read16 d off (\<lambda>name_len.
        let off = off + 2 in
        if length d < off + unat name_len + 1 + 8 * 2 then Rejected
        else read_string d off (unat name_len) (\<lambda>nm.
          let off = off + unat name_len in
          read8 d off (\<lambda>kind.
            read64 d (off + 1) (\<lambda>sz.
              read64 d (off + 9) (\<lambda>mtime.
                deserialize_loop i d (off + 17)
                  (out @ [\<lparr>entry_name = nm, entry_is_directory = (kind = 1),
                           entry_size = sz, entry_mtime = mtime\<rparr>])))))))"

definition deserialize_entries :: "nat \<Rightarrow> bytes \<Rightarrow> directory_entry list parse" where
  "deserialize_entries alloc_max d =
     (if length d < 4 then Rejected
      else read32 d 0 (\<lambda>count.
        if alloc_max < unat count * entry_sizeof then Throws
        else deserialize_loop (unat count) d 4 []))"

section \<open>Safety and round trip\<close>

lemma length_encode_entry [simp]: "length (encode_entry e) = 19 + length (entry_name e)"
  by (simp add: encode_entry_def)

lemma serialize_loop_eq: "serialize_loop buf es = buf @ concat (map encode_entry es)"
  by (induction buf es rule: serialize_loop.induct) simp_all

lemma serialize_entries_eq:
  "serialize_entries es = enc32 (size32 (length es)) @ concat (map encode_entry es)"
  by (simp add: serialize_entries_def serialize_loop_eq)

lemma deserialize_loop_safe: "deserialize_loop n d off out \<noteq> OOB \<and> deserialize_loop n d off out \<noteq> Throws"
  by (induction n d off out rule: deserialize_loop.induct) (simp_all add: read_defs Let_def)

lemma deserialize_entries_safe [safe_simps]: "deserialize_entries alloc_max d \<noteq> OOB"
  by (simp add: deserialize_entries_def read_defs deserialize_loop_safe)

definition entry_fits :: "directory_entry \<Rightarrow> bool" where
  "entry_fits e \<longleftrightarrow> length (entry_name e) < 65536"

lemma deserialize_loop_encode:
  assumes "entry_fits e"
  shows "deserialize_loop (Suc n) (pre @ encode_entry e @ post) (length pre) out =
    deserialize_loop n ((pre @ encode_entry e) @ post) (length (pre @ encode_entry e)) (out @ [e])"
  using assms
  by (cases e) (simp add: encode_entry_def entry_fits_def read_defs Let_def add_ac)

lemma deserialize_loop_concat:
  assumes "\<forall>e \<in> set es. entry_fits e"
  shows "deserialize_loop (length es) (pre @ concat (map encode_entry es) @ post) (length pre) out =
    Parsed (out @ es)"
  using assms
proof (induction es arbitrary: pre out)
  case Nil
  then show ?case by simp
next
  case (Cons e es)
  have "deserialize_loop (length (e # es)) (pre @ concat (map encode_entry (e # es)) @ post)
      (length pre) out =
    deserialize_loop (length es) ((pre @ encode_entry e) @ (concat (map encode_entry es) @ post))
      (length (pre @ encode_entry e)) (out @ [e])"
    using Cons.prems deserialize_loop_encode [of e "length es" pre "concat (map encode_entry es) @ post"]
    by simp
  also have "\<dots> = Parsed ((out @ [e]) @ es)"
    using Cons.prems by (intro Cons.IH) simp
  finally show ?case by simp
qed

definition listing_fits :: "nat \<Rightarrow> directory_entry list \<Rightarrow> bool" where
  "listing_fits alloc_max es \<longleftrightarrow>
     (\<forall>e \<in> set es. entry_fits e) \<and> length es < 2 ^ 32 \<and> length es * entry_sizeof \<le> alloc_max"

lemma deserialize_serialize_entries [codec_simps]:
  assumes "listing_fits alloc_max es"
  shows "deserialize_entries alloc_max (serialize_entries es) = Parsed es"
  using assms deserialize_loop_concat [of es "enc32 (size32 (length es))" "[]" "[]"]
  by (simp add: deserialize_entries_def listing_fits_def serialize_entries_eq read_defs)

end
