(* ===== verification/File_Service.thy ===== *)
theory File_Service
  imports File_Operations Directory_Listing "HOL-Library.Char_ord" "HOL-Library.List_Lexorder"
    "HOL-Library.Product_Lexorder"
begin

text \<open>
  \<open>filesystem/file_service.cpp\<close>: the resolution of a client's path below the storage root and
  the sorted listing of a directory.  A C++ exception is \<open>Inl\<close> with its \<open>what()\<close>.
\<close>

section \<open>resolvePath\<close>

definition strip_leading :: "string \<Rightarrow> string" where
  "strip_leading s = dropWhile (\<lambda>c. c = CHR ''/'' \<or> c = CHR 0x5C) s"

definition resolvePath :: "apath \<Rightarrow> fs \<Rightarrow> string \<Rightarrow> string + apath" where
  "resolvePath root f relative_path =
     (let sanitized = strip_leading relative_path;
          target = path_append root (path_of sanitized)
      in case weakly_canonical f target of
           Inl e \<Rightarrow> Inl ''Invalid path''
         | Inr resolved \<Rightarrow>
             let root_str = path_string (lexically_normal root);
                 resolved_str = path_string (lexically_normal resolved)
             in if \<not> prefix root_str resolved_str then Inl ''Path traversal attack detected''
                else Inr resolved)"

section \<open>listDirectory\<close>

definition entry_of :: "fs \<Rightarrow> apath \<Rightarrow> string \<Rightarrow> directory_entry" where
  "entry_of f dir_path nm =
     (let p = path_append dir_path (Path False [nm]); isdir = is_directory f p
      in \<lparr>entry_name = nm,
          entry_is_directory = isdir,
          entry_size = (if isdir then 0
                        else case file_size f p of Inl _ \<Rightarrow> 0 | Inr n \<Rightarrow> size64 n),
          entry_mtime = (case status f p of
                           Found q n \<Rightarrow> (case mtime f q of None \<Rightarrow> 0 | Some t \<Rightarrow> t)
                         | _ \<Rightarrow> 0)\<rparr>)"

text \<open>The comparison passed to \<open>std::sort\<close>, and the sort key that realises it.\<close>

definition entry_less :: "directory_entry \<Rightarrow> directory_entry \<Rightarrow> bool" where
  "entry_less a b =
     (if entry_is_directory a \<noteq> entry_is_directory b
      then entry_is_directory a \<and> \<not> entry_is_directory b
      else entry_name a < entry_name b)"

definition entry_key :: "directory_entry \<Rightarrow> bool \<times> string" where
  "entry_key e = (\<not> entry_is_directory e, entry_name e)"

definition listDirectory :: "apath \<Rightarrow> fs \<Rightarrow> string \<Rightarrow> string + directory_entry list" where
  "listDirectory root f relative_path =
     (case resolvePath root f relative_path of
        Inl e \<Rightarrow> Inl e
      | Inr dir_path \<Rightarrow>
          if \<not> fs_exists f dir_path \<or> \<not> is_directory f dir_path then Inl ''Directory not found''
          else
            (let names = (case list_dir f dir_path of Inl e \<Rightarrow> [] | Inr names \<Rightarrow> names)
             in Inr (sort_key entry_key (map (entry_of f dir_path) names))))"

lemma entry_less_key: "entry_less a b \<longleftrightarrow> entry_key a < entry_key b"
  by (auto simp: entry_less_def entry_key_def less_prod_def)

end
