(* ===== verification/Audit_Log.thy ===== *)
theory Audit_Log
  imports File_Service
begin

text \<open>
  What the services that change the storage share: the disk, the lines of the audit log
  (\<open>logs/audit.log\<close>, kept apart from the storage), and the environment of a call (the storage
  root, the formatted UTC time, and whether the log file can be opened).
\<close>

record store =
  disk :: fs
  audit :: "string list"

record service_env =
  root :: apath
  time_str :: string
  log_opens :: bool

definition audit_line :: "service_env \<Rightarrow> string \<Rightarrow> string \<Rightarrow> string \<Rightarrow> string \<Rightarrow> string \<Rightarrow> string" where
  "audit_line env username action path st detail =
     time_str env @ '' | '' @ username @ '' | '' @ action @ '' | '' @ path @ '' | '' @ st @
     (if detail \<noteq> [] then '' ('' @ detail @ '')'' else [])"

definition log_line :: "service_env \<Rightarrow> string \<Rightarrow> store \<Rightarrow> store" where
  "log_line env line s = (if log_opens env then s\<lparr>audit := audit s @ [line]\<rparr> else s)"

text \<open>What the constructor of each of these services does: it makes the directory of the log file, if
  the path names one, and ignores the error; \<open>cwd\<close> is the working directory.\<close>

definition audit_parent :: "fs \<Rightarrow> apath \<Rightarrow> string \<Rightarrow> fs" where
  "audit_parent f cwd audit_log_path =
     (let log_path = path_of audit_log_path;
          parent = Path (is_absolute log_path) (butlast (elements log_path))
      in if is_absolute parent \<or> elements parent \<noteq> []
         then snd (snd (create_directories f (path_append cwd parent))) else f)"

lemma disk_log_line [simp]: "disk (log_line env line s) = disk s"
  by (simp add: log_line_def)

lemma audit_log_line [simp]:
  "audit (log_line env line s) = audit s @ (if log_opens env then [line] else [])"
  by (simp add: log_line_def)

end
