(* ===== verification/Transport.thy ===== *)
theory Transport
  imports Prelude
begin

text \<open>
  \<open>transport/itransport.hpp\<close>, \<open>transport/tcp_transport.cpp\<close> and \<open>transport/tls_transport.cpp\<close>.
  The virtual interface \<open>ITransport\<close> is a record of its two operations; the locale \<open>itransport\<close>
  is its contract.  The system calls \<open>send\<close>/\<open>recv\<close> and the OpenSSL calls \<open>SSL_write\<close>/\<open>SSL_read\<close>
  are parameters of the loops; the locale \<open>raw_stream\<close> states what the loops rely on (a call that
  returns a positive count has moved that many bytes, in order).  \<open>sock\<close> is a connection whose
  partial transfers and failures follow an arbitrary plan; it instantiates the contracts.
\<close>

section \<open>The interface\<close>

record 't transport =
  sendAll :: "'t \<Rightarrow> bytes \<Rightarrow> bool \<times> 't"
  recvAll :: "'t \<Rightarrow> nat \<Rightarrow> bytes option \<times> 't"

locale itransport =
  fixes T :: "'t transport"
    and inq :: "'t \<Rightarrow> bytes"
    and outq :: "'t \<Rightarrow> bytes"
  assumes send_ok: "sendAll T t d = (True, t') \<Longrightarrow> outq t' = outq t @ d \<and> inq t' = inq t"
    and send_fail: "sendAll T t d = (False, t') \<Longrightarrow>
      (\<exists>n \<le> length d. outq t' = outq t @ take n d) \<and> inq t' = inq t"
    and recv_ok: "recvAll T t n = (Some d, t') \<Longrightarrow>
      length d = n \<and> inq t = d @ inq t' \<and> outq t' = outq t"
    and recv_fail: "recvAll T t n = (None, t') \<Longrightarrow>
      (\<exists>m \<le> n. inq t' = drop m (inq t)) \<and> outq t' = outq t"

locale live_transport = itransport T inq outq
  for T :: "'t transport" and inq outq +
  fixes ready :: "'t \<Rightarrow> bool"
    and max_len :: nat
  assumes ready_send: "ready t \<Longrightarrow> length d \<le> max_len \<Longrightarrow> \<exists>t'. sendAll T t d = (True, t') \<and> ready t'"
    and ready_recv: "ready t \<Longrightarrow> n \<le> max_len \<Longrightarrow> n \<le> length (inq t) \<Longrightarrow>
      \<exists>d t'. recvAll T t n = (Some d, t') \<and> ready t'"

section \<open>The loops of TcpTransport and TlsTransport\<close>

text \<open>Both transports call their primitive on the rest of the buffer until \<open>total = size\<close> or a
  call returns a value that is not positive.\<close>

function send_loop :: "('s \<Rightarrow> bytes \<Rightarrow> int \<times> 's) \<Rightarrow> bytes \<Rightarrow> nat \<Rightarrow> 's \<Rightarrow> bool \<times> 's" where
  "send_loop wr data sent s =
     (if sent < length data
      then (case wr s (drop sent data) of (r, s') \<Rightarrow>
        if r \<le> 0 then (False, s') else send_loop wr data (sent + nat r) s')
      else (True, s))"
  by pat_completeness auto
termination
  by (relation "measure (\<lambda>(wr, data, sent, s). length data - sent)") auto

text \<open>A read delivers bytes; the empty list stands for a return value that is not positive.\<close>

function recv_loop :: "('s \<Rightarrow> nat \<Rightarrow> bytes \<times> 's) \<Rightarrow> nat \<Rightarrow> bytes \<Rightarrow> 's \<Rightarrow> bytes option \<times> 's" where
  "recv_loop rd n buf s =
     (if length buf < n
      then (case rd s (n - length buf) of (d, s') \<Rightarrow>
        if d = [] then (None, s') else recv_loop rd n (buf @ d) s')
      else (Some buf, s))"
  by pat_completeness auto
termination
proof (relation "measure (\<lambda>(rd, n, buf, s). n - length buf)", goal_cases)
  case 1
  show ?case by simp
next
  case (2 rd n buf s d s')
  then have "0 < length d"
    by simp
  with 2 show ?case
    by (simp del: length_greater_0_conv)
qed

declare send_loop.simps [simp del] recv_loop.simps [simp del]

section \<open>TcpTransport\<close>

definition tcp_transport ::
  "('s \<Rightarrow> bytes \<Rightarrow> int \<times> 's) \<Rightarrow> ('s \<Rightarrow> nat \<Rightarrow> bytes \<times> 's) \<Rightarrow> 's transport" where
  "tcp_transport send recv =
     \<lparr>sendAll = (\<lambda>s data. send_loop send data 0 s),
      recvAll = (\<lambda>s n. recv_loop recv n [] s)\<rparr>"

section \<open>TlsTransport\<close>

text \<open>\<open>static_cast<int>(size - total)\<close>: the low 32 bits, read as a signed number.\<close>

definition int_of_size :: "nat \<Rightarrow> int" where
  "int_of_size n = sint (word_of_nat n :: 32 word)"

definition tls_transport ::
  "('s \<Rightarrow> bytes \<Rightarrow> int \<Rightarrow> int \<times> 's) \<Rightarrow> ('s \<Rightarrow> int \<Rightarrow> bytes \<times> 's) \<Rightarrow>
   's option transport" where
  "tls_transport ssl_write ssl_read =
     \<lparr>sendAll = (\<lambda>ssl data. case ssl of
         None \<Rightarrow> (False, None)
       | Some s \<Rightarrow> apsnd Some
           (send_loop (\<lambda>s rest. ssl_write s rest (int_of_size (length rest))) data 0 s)),
      recvAll = (\<lambda>ssl n. case ssl of
         None \<Rightarrow> (None, None)
       | Some s \<Rightarrow> apsnd Some
           (recv_loop (\<lambda>s k. ssl_read s (int_of_size k)) n [] s))\<rparr>"

section \<open>The primitive calls\<close>

locale raw_stream =
  fixes wr :: "'s \<Rightarrow> bytes \<Rightarrow> int \<times> 's"
    and rd :: "'s \<Rightarrow> nat \<Rightarrow> bytes \<times> 's"
    and inq :: "'s \<Rightarrow> bytes"
    and outq :: "'s \<Rightarrow> bytes"
  assumes wr_pos: "wr s d = (r, s') \<Longrightarrow> 0 < r \<Longrightarrow>
      nat r \<le> length d \<and> outq s' = outq s @ take (nat r) d \<and> inq s' = inq s"
    and wr_fail: "wr s d = (r, s') \<Longrightarrow> r \<le> 0 \<Longrightarrow> outq s' = outq s \<and> inq s' = inq s"
    and rd_some: "rd s n = (d, s') \<Longrightarrow> length d \<le> n \<and> inq s = d @ inq s' \<and> outq s' = outq s"
begin

lemma send_loop_transfers:
  assumes "send_loop wr data sent s = (ok, s')" and "sent \<le> length data"
  shows "\<exists>k \<le> length data - sent. (ok \<longrightarrow> k = length data - sent) \<and>
    outq s' = outq s @ take k (drop sent data) \<and> inq s' = inq s"
  using assms
proof (induction "length data - sent" arbitrary: sent s rule: less_induct)
  case less
  obtain r s1 where w: "wr s (drop sent data) = (r, s1)"
    by fastforce
  consider "length data \<le> sent" | "sent < length data" "r \<le> 0" | "sent < length data" "0 < r"
    by linarith
  then show ?case
  proof cases
    case 1
    with less.prems show ?thesis
      by (simp add: send_loop.simps)
  next
    case 2
    with less.prems(1) w have "ok = False" "s' = s1"
      by (simp_all add: send_loop.simps [of wr data sent])
    then show ?thesis
      using wr_fail [OF w 2(2)] by (intro exI [of _ 0]) simp
  next
    case 3
    have run: "send_loop wr data (sent + nat r) s1 = (ok, s')"
      using less.prems(1) w 3 by (simp add: send_loop.simps [of wr data sent])
    have r: "nat r \<le> length data - sent" "outq s1 = outq s @ take (nat r) (drop sent data)"
      "inq s1 = inq s"
      using wr_pos [OF w 3(2)] by simp_all
    have "length data - (sent + nat r) < length data - sent" "sent + nat r \<le> length data"
      using r(1) 3 by linarith+
    from less.hyps [OF this(1) run this(2)] obtain k where k: "k \<le> length data - (sent + nat r)"
      "ok \<longrightarrow> k = length data - (sent + nat r)"
      "outq s' = outq s1 @ take k (drop (sent + nat r) data)" "inq s' = inq s1"
      by blast
    have "take (nat r) (drop sent data) @ take k (drop (sent + nat r) data)
        = take (nat r + k) (drop sent data)"
      using take_add [of "nat r" k "drop sent data"] by (simp add: add.commute)
    with k r 3 show ?thesis
      by (intro exI [of _ "nat r + k"]) auto
  qed
qed

lemma recv_loop_transfers:
  assumes "recv_loop rd n buf s = (res, s')" and "length buf \<le> n"
  shows "\<exists>d. inq s = d @ inq s' \<and> length (buf @ d) \<le> n \<and> outq s' = outq s \<and>
    (\<forall>out. res = Some out \<longrightarrow> out = buf @ d \<and> length out = n)"
  using assms
proof (induction "n - length buf" arbitrary: buf s rule: less_induct)
  case less
  obtain d1 s1 where rd: "rd s (n - length buf) = (d1, s1)"
    by fastforce
  note d1 = rd_some [OF rd]
  consider "length buf = n" | "length buf < n" "d1 = []" | "length buf < n" "d1 \<noteq> []"
    using less.prems(2) by linarith
  then show ?case
  proof cases
    case 1
    with less.prems show ?thesis
      by (auto simp: recv_loop.simps)
  next
    case 2
    with less.prems(1) rd have "res = None" "s' = s1"
      by (simp_all add: recv_loop.simps [of rd n buf])
    with d1 2 show ?thesis by simp
  next
    case 3
    have run: "recv_loop rd n (buf @ d1) s1 = (res, s')"
      using less.prems(1) rd 3 by (simp add: recv_loop.simps [of rd n buf])
    have "0 < length d1"
      using 3 by simp
    then have "n - length (buf @ d1) < n - length buf" "length (buf @ d1) \<le> n"
      using 3(1) d1 unfolding length_append by linarith+
    from less.hyps [OF this(1) run this(2)] obtain d where
      "inq s1 = d @ inq s'" "length ((buf @ d1) @ d) \<le> n" "outq s' = outq s1"
      "\<forall>out. res = Some out \<longrightarrow> out = (buf @ d1) @ d \<and> length out = n"
      by blast
    with d1 show ?thesis
      by (intro exI [of _ "d1 @ d"]) simp
  qed
qed

lemma send_loop_ok:
  "send_loop wr data 0 s = (True, s') \<Longrightarrow> outq s' = outq s @ data \<and> inq s' = inq s"
  using send_loop_transfers [of data 0 s True s'] by auto

lemma send_loop_fail:
  "send_loop wr data 0 s = (False, s') \<Longrightarrow>
    (\<exists>n \<le> length data. outq s' = outq s @ take n data) \<and> inq s' = inq s"
  using send_loop_transfers [of data 0 s False s'] by auto

lemma recv_loop_ok:
  "recv_loop rd n [] s = (Some d, s') \<Longrightarrow> length d = n \<and> inq s = d @ inq s' \<and> outq s' = outq s"
  using recv_loop_transfers [of n "[]" s "Some d" s'] by auto

lemma recv_loop_fail:
  "recv_loop rd n [] s = (None, s') \<Longrightarrow> (\<exists>m \<le> n. inq s' = drop m (inq s)) \<and> outq s' = outq s"
proof -
  assume "recv_loop rd n [] s = (None, s')"
  from recv_loop_transfers [OF this] obtain d where
    "inq s = d @ inq s'" "length d \<le> n" "outq s' = outq s"
    by auto
  then show ?thesis
    by (intro conjI exI [of _ "length d"]) simp_all
qed

end

sublocale raw_stream \<subseteq> tcp: itransport "tcp_transport wr rd" inq outq
  by unfold_locales
    (auto simp: tcp_transport_def dest: send_loop_ok send_loop_fail recv_loop_ok recv_loop_fail)

text \<open>The same loops over calls that take their length as an \<open>int\<close>: what OpenSSL's calls promise
  for each \<open>int\<close> gives \<open>raw_stream\<close> for the converted lengths.\<close>

locale ssl_stream =
  fixes ssl_write :: "'s \<Rightarrow> bytes \<Rightarrow> int \<Rightarrow> int \<times> 's"
    and ssl_read :: "'s \<Rightarrow> int \<Rightarrow> bytes \<times> 's"
    and inq :: "'s \<Rightarrow> bytes"
    and outq :: "'s \<Rightarrow> bytes"
  assumes ssl_write_pos: "ssl_write s d num = (r, s') \<Longrightarrow> 0 < r \<Longrightarrow>
      r \<le> num \<and> outq s' = outq s @ take (nat r) d \<and> inq s' = inq s"
    and ssl_write_fail: "ssl_write s d num = (r, s') \<Longrightarrow> r \<le> 0 \<Longrightarrow>
      outq s' = outq s \<and> inq s' = inq s"
    and ssl_read_some: "ssl_read s num = (d, s') \<Longrightarrow>
      length d \<le> nat num \<and> inq s = d @ inq s' \<and> outq s' = outq s"

lemma int_of_size_le: "int_of_size n \<le> int n"
proof -
  have "int_of_size n \<le> uint (word_of_nat n :: 32 word)"
    unfolding int_of_size_def sint_uint
    by (simp add: signed_take_bit_int_less_eq_self_iff order_trans [OF _ uint_ge_0])
  also have "\<dots> \<le> int n"
    by (simp add: unsigned_of_nat take_bit_nat_less_eq_self)
  finally show ?thesis .
qed

sublocale ssl_stream \<subseteq> raw_stream "\<lambda>s rest. ssl_write s rest (int_of_size (length rest))"
  "\<lambda>s n. ssl_read s (int_of_size n)" inq outq
proof (unfold_locales, goal_cases)
  case (1 s d r s')
  then show ?case
    using ssl_write_pos [OF 1] int_of_size_le [of "length d"] by (auto simp: nat_le_iff)
next
  case (2 s d r s')
  then show ?case by (rule ssl_write_fail)
next
  case (3 s n d s')
  then show ?case
    using ssl_read_some [OF 3] int_of_size_le [of n] by auto
qed

text \<open>A transport without an SSL handle moves nothing; its queues are empty.\<close>

abbreviation ssl_queue :: "('s \<Rightarrow> bytes) \<Rightarrow> 's option \<Rightarrow> bytes" where
  "ssl_queue q ssl \<equiv> (case ssl of None \<Rightarrow> [] | Some s \<Rightarrow> q s)"

sublocale ssl_stream \<subseteq> tls: itransport "tls_transport ssl_write ssl_read" "ssl_queue inq" "ssl_queue outq"
proof (unfold_locales, goal_cases)
  case (1 t d t')
  then show ?case
    by (auto simp: tls_transport_def apsnd_eq_Pair dest!: send_loop_ok split: option.splits prod.splits)
next
  case (2 t d t')
  then show ?case
    by (auto simp: tls_transport_def apsnd_eq_Pair dest!: send_loop_fail split: option.splits prod.splits)
next
  case (3 t n d t')
  then show ?case
    by (auto simp: tls_transport_def apsnd_eq_Pair dest!: recv_loop_ok split: option.splits prod.splits)
next
  case (4 t n t')
  then show ?case
    by (auto simp: tls_transport_def apsnd_eq_Pair dest!: recv_loop_fail split: option.splits prod.splits)
qed

section \<open>A connection\<close>

text \<open>
  One end of an established connection: what the peer has written and closed (\<open>inbox\<close>), what
  this end has written (\<open>outbox\<close>), and the plan that says how much the operating system moves
  in the n-th call (a value that is not positive makes the call fail).  An exhausted \<open>inbox\<close> is
  the end of the stream.
\<close>

record sock =
  inbox :: bytes
  outbox :: bytes
  calls :: nat
  plan :: "nat \<Rightarrow> int"

definition sock_send :: "sock \<Rightarrow> bytes \<Rightarrow> int \<times> sock" where
  "sock_send s d =
     (let k = plan s (calls s); s' = s\<lparr>calls := Suc (calls s)\<rparr>;
          n = min (nat k) (length d)
      in if k \<le> 0 then (k, s') else (int n, s'\<lparr>outbox := outbox s @ take n d\<rparr>))"

definition sock_recv :: "sock \<Rightarrow> nat \<Rightarrow> bytes \<times> sock" where
  "sock_recv s n =
     (let k = min (nat (plan s (calls s))) n
      in (take k (inbox s), s\<lparr>calls := Suc (calls s), inbox := drop k (inbox s)\<rparr>))"

definition sock_ssl_write :: "sock \<Rightarrow> bytes \<Rightarrow> int \<Rightarrow> int \<times> sock" where
  "sock_ssl_write s d num = (if num \<le> 0 then (-1, s) else sock_send s (take (nat num) d))"

definition sock_ssl_read :: "sock \<Rightarrow> int \<Rightarrow> bytes \<times> sock" where
  "sock_ssl_read s num = (if num \<le> 0 then ([], s) else sock_recv s (nat num))"

interpretation sock_tcp: raw_stream sock_send sock_recv inbox outbox
  by unfold_locales (auto simp: sock_send_def sock_recv_def Let_def min_def split: if_splits)

interpretation sock_tls: ssl_stream sock_ssl_write sock_ssl_read inbox outbox
  by unfold_locales
    (auto simp: sock_ssl_write_def sock_ssl_read_def sock_send_def sock_recv_def Let_def min_def
      split: if_splits)

section \<open>Progress\<close>

text \<open>A stream whose calls make progress completes every transfer, up to the length its calls
  can express.\<close>

locale live_stream = raw_stream wr rd inq outq
  for wr :: "'s \<Rightarrow> bytes \<Rightarrow> int \<times> 's" and rd :: "'s \<Rightarrow> nat \<Rightarrow> bytes \<times> 's" and inq outq +
  fixes ready :: "'s \<Rightarrow> bool"
    and max_len :: nat
  assumes wr_live: "ready s \<Longrightarrow> d \<noteq> [] \<Longrightarrow> length d \<le> max_len \<Longrightarrow> wr s d = (r, s') \<Longrightarrow>
      0 < r \<and> ready s'"
    and rd_live: "ready s \<Longrightarrow> 0 < n \<Longrightarrow> n \<le> max_len \<Longrightarrow> inq s \<noteq> [] \<Longrightarrow> rd s n = (d, s') \<Longrightarrow>
      d \<noteq> [] \<and> ready s'"
begin

lemma send_loop_live:
  assumes "ready s" and "length data \<le> max_len"
  shows "\<exists>s'. send_loop wr data sent s = (True, s') \<and> ready s'"
  using assms
proof (induction "length data - sent" arbitrary: sent s rule: less_induct)
  case less
  obtain r s1 where w: "wr s (drop sent data) = (r, s1)"
    by fastforce
  show ?case
  proof (cases "sent < length data")
    case False
    with less.prems show ?thesis
      by (simp add: send_loop.simps)
  next
    case True
    then have "0 < r" "ready s1"
      using wr_live [OF less.prems(1) _ _ w] less.prems(2) by auto
    then have "\<exists>s'. send_loop wr data (sent + nat r) s1 = (True, s') \<and> ready s'"
      using True less.prems(2) by (intro less.hyps) auto
    with True w \<open>0 < r\<close> show ?thesis
      by (simp add: send_loop.simps [of wr data sent])
  qed
qed

lemma recv_loop_live:
  assumes "ready s" and "n \<le> max_len" and "n \<le> length buf + length (inq s)" and "length buf \<le> n"
  shows "\<exists>out s'. recv_loop rd n buf s = (Some out, s') \<and> ready s'"
  using assms
proof (induction "n - length buf" arbitrary: buf s rule: less_induct)
  case less
  obtain d s1 where r: "rd s (n - length buf) = (d, s1)"
    by fastforce
  note rd_some [OF r]
  show ?case
  proof (cases "length buf < n")
    case False
    with less.prems show ?thesis
      by (simp add: recv_loop.simps)
  next
    case True
    then have "inq s \<noteq> []"
      using less.prems(3) by auto
    then have d: "d \<noteq> []" "ready s1"
      using rd_live [OF less.prems(1) _ _ _ r] True less.prems(2) by auto
    then have "0 < length d"
      by simp
    then have "n - length (buf @ d) < n - length buf"
      using True unfolding length_append by linarith
    then have "\<exists>out s'. recv_loop rd n (buf @ d) s1 = (Some out, s') \<and> ready s'"
      using rd_some [OF r] d less.prems True by (intro less.hyps) auto
    with True r d show ?thesis
      by (simp add: recv_loop.simps [of rd n buf])
  qed
qed

end

sublocale live_stream \<subseteq> tcp_live: live_transport "tcp_transport wr rd" inq outq ready max_len
  by unfold_locales (use send_loop_live recv_loop_live [of _ _ "[]"] in \<open>auto simp: tcp_transport_def\<close>)

text \<open>The largest length that survives the cast to \<open>int\<close>.\<close>

definition max_int :: nat where
  "max_int = 2 ^ 31 - 1"

lemma int_of_size_small: "n \<le> max_int \<Longrightarrow> int_of_size n = int n"
  unfolding int_of_size_def max_int_def sint_uint
  by (simp add: unsigned_of_nat take_bit_nat_eq_self signed_take_bit_int_eq_self)

locale live_ssl_stream = ssl_stream ssl_write ssl_read inq outq
  for ssl_write :: "'s \<Rightarrow> bytes \<Rightarrow> int \<Rightarrow> int \<times> 's" and ssl_read :: "'s \<Rightarrow> int \<Rightarrow> bytes \<times> 's"
    and inq outq +
  fixes ready :: "'s \<Rightarrow> bool"
  assumes ssl_write_live: "ready s \<Longrightarrow> 0 < num \<Longrightarrow> num \<le> int (length d) \<Longrightarrow>
      ssl_write s d num = (r, s') \<Longrightarrow> 0 < r \<and> ready s'"
    and ssl_read_live: "ready s \<Longrightarrow> 0 < num \<Longrightarrow> inq s \<noteq> [] \<Longrightarrow> ssl_read s num = (d, s') \<Longrightarrow>
      d \<noteq> [] \<and> ready s'"

sublocale live_ssl_stream \<subseteq> stream: live_stream
  "\<lambda>s rest. ssl_write s rest (int_of_size (length rest))" "\<lambda>s n. ssl_read s (int_of_size n)"
  inq outq ready max_int
proof (unfold_locales, goal_cases)
  case (1 s d r s')
  then show ?case
    using ssl_write_live [of s "int_of_size (length d)" d r s'] by (simp add: int_of_size_small)
next
  case (2 s n d s')
  then show ?case
    using ssl_read_live [of s "int_of_size n" d s'] by (simp add: int_of_size_small)
qed

abbreviation ssl_ready :: "('s \<Rightarrow> bool) \<Rightarrow> 's option \<Rightarrow> bool" where
  "ssl_ready P ssl \<equiv> (case ssl of None \<Rightarrow> False | Some s \<Rightarrow> P s)"

sublocale live_ssl_stream \<subseteq> tls_live: live_transport "tls_transport ssl_write ssl_read"
  "ssl_queue inq" "ssl_queue outq" "ssl_ready ready" max_int
proof (unfold_locales, goal_cases)
  case (1 t d)
  then show ?case
    using stream.send_loop_live [of "the t" d 0]
    by (auto simp: tls_transport_def apsnd_eq_Pair split: option.splits)
next
  case (2 t n)
  then show ?case
    using stream.recv_loop_live [of "the t" n "[]"]
    by (auto simp: tls_transport_def apsnd_eq_Pair split: option.splits)
qed

text \<open>A connection whose plan never fails.\<close>

definition sock_ready :: "sock \<Rightarrow> bool" where
  "sock_ready s \<longleftrightarrow> (\<forall>i. 0 < plan s i)"

lemma sock_ready_simps [simp]:
  "sock_ready (s\<lparr>calls := n\<rparr>) = sock_ready s"
  "sock_ready (s\<lparr>inbox := xs\<rparr>) = sock_ready s"
  "sock_ready (s\<lparr>outbox := xs\<rparr>) = sock_ready s"
  by (simp_all add: sock_ready_def)

interpretation sock_tls_live: live_ssl_stream sock_ssl_write sock_ssl_read inbox outbox sock_ready
proof (unfold_locales, goal_cases)
  case (1 s num d r s')
  then have "0 < plan s (calls s)"
    by (simp add: sock_ready_def)
  with 1 show ?case
    by (auto simp: sock_ssl_write_def sock_send_def Let_def split: if_splits)
next
  case (2 s num d s')
  then have "0 < plan s (calls s)"
    by (simp add: sock_ready_def)
  with 2 show ?case
    by (auto simp: sock_ssl_read_def sock_recv_def Let_def split: if_splits)
qed

end
