(* ===== verification/Packet_IO.thy ===== *)
theory Packet_IO
  imports Wire Transport
begin

text \<open>
  \<open>protocol/packet_io.cpp\<close>: packets over a transport.  \<open>receivePacket\<close> resizes the payload to
  the size found in the header before anything is checked; \<open>alloc_max\<close> is the largest
  allocation the process is granted, and above it \<open>resize\<close> throws.
\<close>

datatype receive = RecvFailed | RecvThrows | Received packet

definition sendPacket :: "'t transport \<Rightarrow> 't \<Rightarrow> packet \<Rightarrow> bool \<times> 't" where
  "sendPacket T t p = sendAll T t (serialize p)"

definition receivePacket :: "'t transport \<Rightarrow> nat \<Rightarrow> 't \<Rightarrow> receive \<times> 't" where
  "receivePacket T alloc_max t =
     (case recvAll T t header_len of
        (None, t) \<Rightarrow> (RecvFailed, t)
      | (Some wire_header, t) \<Rightarrow>
          let hdr = \<lparr>ptype = dec32 (take 4 wire_header), payload_size = dec64 (drop 4 wire_header)\<rparr>;
              n = unat (payload_size hdr)
          in if alloc_max < n then (RecvThrows, t)
             else if 0 < n then
               (case recvAll T t n of
                  (None, t) \<Rightarrow> (RecvFailed, t)
                | (Some body, t) \<Rightarrow> (Received \<lparr>header = hdr, payload = body\<rparr>, t))
             else (Received \<lparr>header = hdr, payload = []\<rparr>, t))"

lemma encode_header_dec:
  assumes "length w = header_len"
  shows "encode_header \<lparr>ptype = dec32 (take 4 w), payload_size = dec64 (drop 4 w)\<rparr> = w"
proof -
  have "length (take 4 w) = 4" "length (drop 4 w) = 8"
    using assms by (simp_all add: header_len_def)
  then show ?thesis
    by (simp add: encode_header_def enc_dec)
qed

context itransport
begin

lemma sendPacket_ok:
  "sendPacket T t p = (True, t') \<Longrightarrow> outq t' = outq t @ serialize p \<and> inq t' = inq t"
  unfolding sendPacket_def by (rule send_ok)

lemma sendPacket_inq: "sendPacket T t p = (ok, t') \<Longrightarrow> inq t' = inq t"
  unfolding sendPacket_def by (cases ok) (auto dest: send_ok send_fail)

lemma receivePacket_exact:
  assumes "receivePacket T alloc_max t = (Received p, t')"
  shows "consistent p \<and> length (payload p) \<le> alloc_max \<and> inq t = serialize p @ inq t' \<and> outq t' = outq t"
proof -
  obtain w t1 where w: "recvAll T t header_len = (Some w, t1)"
    using assms by (auto simp: receivePacket_def split: prod.splits option.splits)
  define hdr where
    "hdr = \<lparr>ptype = dec32 (take 4 w), payload_size = dec64 (drop 4 w)\<rparr>"
  note w' = recv_ok [OF w]
  have enc: "encode_header hdr = w"
    using encode_header_dec [of w] w' by (simp add: hdr_def)
  show ?thesis
  proof (cases "unat (payload_size hdr) = 0")
    case True
    then have "p = \<lparr>header = hdr, payload = []\<rparr>" "t' = t1"
      using assms w by (auto simp: receivePacket_def hdr_def [symmetric] Let_def split: if_splits)
    with True w' enc show ?thesis
      by (simp add: consistent_def serialize_eq size64_def unsigned_eq_0_iff)
  next
    case False
    then obtain body where b: "recvAll T t1 (unat (payload_size hdr)) = (Some body, t')"
      and p: "p = \<lparr>header = hdr, payload = body\<rparr>" and "unat (payload_size hdr) \<le> alloc_max"
      using assms w by (auto simp: receivePacket_def hdr_def [symmetric] Let_def
          split: if_splits prod.splits option.splits)
    with recv_ok [OF b] w' enc show ?thesis
      by (simp add: consistent_def serialize_eq size64_def)
  qed
qed

lemma receivePacket_sent:
  assumes "receivePacket T alloc_max t = (Received q, t')"
    and "inq t = serialize p @ xs" and "consistent p" and "length (payload p) < 2 ^ 64"
    and "alloc_max < 2 ^ 64"
  shows "q = p \<and> inq t' = xs"
  using receivePacket_exact [OF assms(1)] assms(2-)
  by (metis le_less_trans serialize_prefix_free)

lemma receivePacket_outq: "receivePacket T alloc_max t = (r, t') \<Longrightarrow> outq t' = outq t"
  by (auto simp: receivePacket_def Let_def dest!: recv_ok recv_fail
      split: if_splits prod.splits option.splits)

end

context live_transport
begin

lemma receivePacket_live:
  assumes "ready t" and "inq t = serialize p @ xs" and "consistent p"
    and "length (payload p) \<le> alloc_max" and "length (payload p) \<le> max_len"
    and "header_len \<le> max_len" and "max_len < 2 ^ 64"
  shows "\<exists>t'. receivePacket T alloc_max t = (Received p, t') \<and> inq t' = xs \<and> ready t'"
proof -
  obtain w t1 where w: "recvAll T t header_len = (Some w, t1)" "ready t1"
    using ready_recv [OF assms(1,6)] assms(2) by (auto simp: serialize_eq)
  note w' = recv_ok [OF w(1)]
  have hd: "w = encode_header (header p)" "inq t1 = payload p @ xs"
    using w' assms(2)
      append_eq_append_conv [of "encode_header (header p)" w "payload p @ xs" "inq t1"]
    by (simp_all add: serialize_eq)
  have hdr: "\<lparr>ptype = dec32 (take 4 w), payload_size = dec64 (drop 4 w)\<rparr> = header p"
    unfolding hd by (simp add: encode_header_def)
  have n: "unat (payload_size (header p)) = length (payload p)"
    using assms(3,5,7) by (simp add: consistent_def)
  show ?thesis
  proof (cases "payload p = []")
    case True
    then have "receivePacket T alloc_max t = (Received p, t1)"
      using n by (cases p) (simp add: receivePacket_def w hdr)
    with True hd w show ?thesis by simp
  next
    case False
    obtain body t2 where b: "recvAll T t1 (length (payload p)) = (Some body, t2)" "ready t2"
      using ready_recv [OF w(2) assms(5)] hd by auto
    have "body = payload p" "inq t2 = xs"
      using recv_ok [OF b(1)] hd append_eq_append_conv [of "payload p" body xs "inq t2"]
      by simp_all
    with False n b assms(4) show ?thesis
      by (cases p) (simp add: receivePacket_def w hdr)
  qed
qed

end

end
