(* ===== verification/Samples.thy ===== *)
theory Samples
  imports Audit_Log Packet_IO Hashing
begin

text \<open>
  Concrete instances on which the properties are shown to apply: a small file system, a service
  environment, an in-memory connection and a digest that returns the first bytes of its input.  Nothing of the
  model depends on them.
\<close>

definition sample_fs :: fs where
  "sample_fs =
     \<lparr>tree = [([''srv''], Dir), ([''srv'', ''data''], Dir), ([''srv'', ''data'', ''a''], File 0),
              ([''srv'', ''data'', ''b''], Dir), ([''srv'', ''data'', ''b'', ''c''], File 1)],
      content = (\<lambda>i. if i = 0 then [1, 2, 3] else []), next_inode = 2, free = 100000,
      mtime = (\<lambda>_. None), denied = (\<lambda>_ _. None)\<rparr>"

definition sample_root :: apath where
  "sample_root = [''srv'', ''data'']"

definition sample_env :: service_env where
  "sample_env = \<lparr>root = sample_root, time_str = ''2026-01-01 00:00:00 UTC'', log_opens = True\<rparr>"

definition sample_store :: store where
  "sample_store = \<lparr>disk = sample_fs, audit = []\<rparr>"

definition sample_digest :: "bytes \<Rightarrow> bytes" where
  "sample_digest d = take 32 (d @ replicate 32 0)"

definition sample_evp :: "bytes evp" where
  "sample_evp =
     \<lparr>evp_new = Some [], evp_update = (\<lambda>c d. Some (c @ d)), evp_final = (\<lambda>c. Some (sample_digest c))\<rparr>"

definition sample_link :: "(bytes \<times> bytes) transport" where
  "sample_link =
     \<lparr>sendAll = (\<lambda>(i, j) d. (True, (i, j @ d))),
      recvAll = (\<lambda>(i, j) n. if n \<le> length i then (Some (take n i), (drop n i, j)) else (None, (i, j)))\<rparr>"

interpretation sample_link: live_transport sample_link fst snd "\<lambda>_. True" m
  by unfold_locales (auto simp: sample_link_def split: if_splits)

lemma sample_receive:
  assumes "consistent p" and "length (payload p) \<le> 4096"
  shows "receivePacket sample_link 4096 (serialize p @ xs, ys) = (Received p, (xs, ys))"
proof -
  obtain t where t: "receivePacket sample_link 4096 (serialize p @ xs, ys) = (Received p, t)" "fst t = xs"
    using sample_link.receivePacket_live [of "(serialize p @ xs, ys)" p xs 4096 4096] assms
    by (auto simp: header_len_def)
  then show ?thesis
    using sample_link.receivePacket_outq [OF t(1)] by (cases t) simp
qed

lemma sample_evp_total: "evp_total sample_evp"
  by (simp add: evp_total_def sample_evp_def)

lemma sample_evp_feed: "evp_feed sample_evp c ds = Some (c @ concat ds)"
  by (induction ds arbitrary: c) (simp_all add: sample_evp_def)

lemma sample_evp_computes: "evp_computes sample_evp sample_digest"
  by (auto simp: evp_computes_def sample_evp_feed) (simp_all add: sample_evp_def sample_digest_def)

lemma sample_fs_wf: "wf_fs sample_fs"
  by (simp add: sample_fs_def wf_fs_def node_at_def valid_name_def)

lemma sample_fs_canonical:
  "node_at sample_fs p = Some n \<Longrightarrow> canonical_at sample_fs p"
  by (auto simp: canonical_at_def sample_fs_def node_at_def split: if_splits)

lemma sample_fs_simps [simp]:
  "disk sample_store = sample_fs" "audit sample_store = []"
  "root sample_env = sample_root" "log_opens sample_env"
  by (simp_all add: sample_store_def sample_env_def)

text \<open>What evaluates path lookups and services on the sample.\<close>

lemmas sample_eval =
  resolvePath_def strip_leading_def path_of_def path_append_def weakly_canonical_def Let_def
  status_def max_links_def node_at_def lexically_normal_def path_string_def sample_root_def
  fs_exists_def is_directory_def list_dir_def sample_fs_def children_def locate_def locate_entry_def

end
