(* ===== verification/Upload_Service.thy ===== *)
theory Upload_Service
  imports Hashing File_Service Samples
begin

text \<open>
  \<open>filesystem/upload_service.cpp\<close>: upload sessions keyed by the identifier that the client
  chose.  A session owns an output stream and a digest context; \<open>received_bytes + size\<close> is the
  64-bit addition of the code.  The final comparison reads as many bytes of the expected hash
  as the computed hash has: past the terminating NUL of a shorter string the read is undefined
  behaviour, which is the outcome \<open>UploadUB\<close>.
\<close>

record 'c upload_session =
  us_upload_id :: u64
  us_filename :: string
  us_target_path :: apath
  us_expected_size :: u64
  us_received_bytes :: u64
  us_expected_sha256 :: string
  us_file_stream :: ofstream
  us_md_ctx :: 'c
  us_active :: bool

type_synonym 'c sessions = "u64 \<Rightarrow> 'c upload_session option"

datatype upload_result = UploadOk | UploadError string | UploadUB

section \<open>beginUpload\<close>

definition valid_filename :: "string \<Rightarrow> bool" where
  "valid_filename s \<longleftrightarrow> \<not> (s = [] \<or> CHR ''/'' \<in> set s \<or> CHR 0x5C \<in> set s)"

definition beginUpload ::
  "'c evp \<Rightarrow> apath \<Rightarrow> 'c sessions \<Rightarrow> fs \<Rightarrow> u64 \<Rightarrow> string \<Rightarrow> string \<Rightarrow> u64 \<Rightarrow> string \<Rightarrow>
   upload_result \<times> 'c sessions \<times> fs" where
  "beginUpload E storageRoot ss f upload_id remote_dir filename expected_size expected_sha256 =
     (if ss upload_id \<noteq> None then (UploadError ''Upload session already exists'', ss, f)
      else if \<not> valid_filename filename then (UploadError ''Invalid filename'', ss, f)
      else case resolvePath storageRoot f remote_dir of
        Inl e \<Rightarrow> (UploadError (''Target path error: '' @ e), ss, f)
      | Inr dir_path \<Rightarrow>
          (let f = (if \<not> fs_exists f dir_path then snd (snd (create_directories f dir_path)) else f);
               target_file = path_append dir_path (path_of filename)
           in case open_trunc max_links f target_file of
                Inl e \<Rightarrow> (UploadError ''Could not open target file for writing'', ss, f)
              | Inr (i, f) \<Rightarrow>
                  (case evp_new E of
                     None \<Rightarrow> (UploadError ''Failed to initialize digest context'', ss, f)
                   | Some ctx \<Rightarrow>
                       (UploadOk,
                        ss(upload_id \<mapsto>
                          \<lparr>us_upload_id = upload_id, us_filename = filename,
                           us_target_path = target_file, us_expected_size = expected_size,
                           us_received_bytes = 0, us_expected_sha256 = expected_sha256,
                           us_file_stream = os_opened i, us_md_ctx = ctx, us_active = True\<rparr>),
                        f))))"

section \<open>writeChunk\<close>

definition writeChunk ::
  "'c evp \<Rightarrow> 'c sessions \<Rightarrow> fs \<Rightarrow> u64 \<Rightarrow> u64 \<Rightarrow> bytes \<Rightarrow> upload_result \<times> 'c sessions \<times> fs" where
  "writeChunk E ss f upload_id offset data =
     (case ss upload_id of
        None \<Rightarrow> (UploadError ''No active upload session with specified ID'', ss, f)
      | Some session \<Rightarrow>
          if \<not> us_active session
          then (UploadError ''No active upload session with specified ID'', ss, f)
          else if offset \<noteq> us_received_bytes session
          then (UploadError ''Out-of-order chunk offset received'', ss, f)
          else if us_expected_size session < us_received_bytes session + size64 (length data)
          then (UploadError ''Received bytes exceed expected file size'', ss, f)
          else
            (let (st, f) = os_write (us_file_stream session) data f;
                 session = session\<lparr>us_file_stream := st\<rparr>
             in if \<not> os_good st
                then (UploadError ''Filesystem write failure'', ss(upload_id \<mapsto> session), f)
                else case evp_update E (us_md_ctx session) data of
                  None \<Rightarrow> (UploadError ''Failed to update digest'', ss(upload_id \<mapsto> session), f)
                | Some ctx \<Rightarrow>
                    (UploadOk,
                     ss(upload_id \<mapsto> session\<lparr>us_md_ctx := ctx,
                          us_received_bytes := us_received_bytes session + size64 (length data)\<rparr>),
                     f)))"

section \<open>abortUpload and finishUpload\<close>

definition abortUpload :: "'c sessions \<Rightarrow> fs \<Rightarrow> u64 \<Rightarrow> 'c sessions \<times> fs" where
  "abortUpload ss f upload_id =
     (case ss upload_id of
        None \<Rightarrow> (ss, f)
      | Some session \<Rightarrow>
          (let f = (if os_open (us_file_stream session)
                    then snd (os_close (us_file_stream session) f) else f);
               f = snd (snd (fs_remove f (us_target_path session)))
           in (ss(upload_id := None), f)))"

text \<open>\<open>CRYPTO_memcmp(computed.data(), expected.data(), computed.size()) != 0\<close>.\<close>

definition hash_differs :: "string \<Rightarrow> string \<Rightarrow> bool parse" where
  "hash_differs computed expected =
     (if length computed \<le> Suc (length expected)
      then Parsed (take (length computed) (expected @ [CHR 0x00]) \<noteq> computed)
      else OOB)"

definition finishUpload ::
  "'c evp \<Rightarrow> 'c sessions \<Rightarrow> fs \<Rightarrow> u64 \<Rightarrow> upload_result \<times> 'c sessions \<times> fs" where
  "finishUpload E ss f upload_id =
     (case ss upload_id of
        None \<Rightarrow> (UploadError ''No active upload session with specified ID'', ss, f)
      | Some session \<Rightarrow>
          if \<not> us_active session
          then (UploadError ''No active upload session with specified ID'', ss, f)
          else
            (let (st, f) = os_close (us_file_stream session) f;
                 session = session\<lparr>us_file_stream := st\<rparr>;
                 ss = ss(upload_id \<mapsto> session)
             in if us_received_bytes session \<noteq> us_expected_size session
                then (UploadError (''Size mismatch: expected '' @
                        to_string (unat (us_expected_size session)) @ '' but received '' @
                        to_string (unat (us_received_bytes session))), abortUpload ss f upload_id)
                else case evp_final E (us_md_ctx session) of
                  None \<Rightarrow> (UploadError ''Failed to finalize SHA256 digest'', abortUpload ss f upload_id)
                | Some hash \<Rightarrow>
                    (let computed_hash = to_hex hash;
                         accepted = (UploadOk, ss(upload_id := None), f)
                     in if us_expected_sha256 session = [] then accepted
                        else case hash_differs computed_hash (us_expected_sha256 session) of
                          Parsed False \<Rightarrow> accepted
                        | Parsed True \<Rightarrow>
                            (UploadError ''SHA256 checksum mismatch (corrupted upload)'',
                             abortUpload ss f upload_id)
                        | _ \<Rightarrow> (UploadUB, ss, f))))"

section \<open>Undefined behaviour\<close>

lemma beginUpload_no_UB: "beginUpload E rt ss f i d n sz h \<noteq> (UploadUB, r)"
  by (auto simp: beginUpload_def Let_def split: sum.splits option.splits prod.splits)

lemma writeChunk_no_UB: "writeChunk E ss f i off d \<noteq> (UploadUB, r)"
  by (auto simp: writeChunk_def Let_def split: option.splits prod.splits)

lemma hash_differs_cases:
  "hash_differs a b = OOB \<longleftrightarrow> Suc (length b) < length a"
  "hash_differs a b \<noteq> Throws" "hash_differs a b \<noteq> Rejected"
  by (auto simp: hash_differs_def)

lemma finishUpload_UB_iff:
  "fst (finishUpload E ss f i) = UploadUB \<longleftrightarrow>
    (\<exists>se hash. ss i = Some se \<and> us_active se \<and> us_received_bytes se = us_expected_size se \<and>
      evp_final E (us_md_ctx se) = Some hash \<and> us_expected_sha256 se \<noteq> [] \<and>
      Suc (length (us_expected_sha256 se)) < length (to_hex hash))"
proof (cases "ss i")
  case (Some se)
  obtain st f' where c: "os_close (us_file_stream se) f = (st, f')" by force
  show ?thesis
  proof (cases "evp_final E (us_md_ctx se)")
    case (Some hash)
    then show ?thesis
      using \<open>ss i = Some se\<close> c hash_differs_cases [of "to_hex hash" "us_expected_sha256 se"]
      by (cases "hash_differs (to_hex hash) (us_expected_sha256 se)")
        (auto simp: finishUpload_def Let_def split: bool.splits)
  qed (use Some c in \<open>simp add: finishUpload_def Let_def\<close>)
qed (simp add: finishUpload_def)

end
