(* ===== verification/Packet_Builder.thy ===== *)
theory Packet_Builder
  imports Directory_Listing
begin

text \<open>
  \<open>common/packet_builder.hpp\<close>: one builder and one parser per message.  A builder resizes the
  payload to a computed total and copies its fields at running offsets (\<open>layout\<close>); a parser
  checks the length before each read.  Lengths are truncated to 16 (or 32) bits as the casts of
  the code do.  The locale \<open>wire_message\<close> is the contract of a message: within its size limits
  the parser inverts the builder, and no payload makes the parser read outside it.
\<close>

section \<open>Builders\<close>

definition ping :: packet where
  "ping = mk_packet PING []"

definition pong :: packet where
  "pong = mk_packet PONG []"

definition authRequest :: "string \<Rightarrow> string \<Rightarrow> packet" where
  "authRequest username password =
     mk_packet AUTH_REQUEST
       (layout (2 + length username + 2 + length password)
          [enc16 (size16 (length username)), bytes_of username,
           enc16 (size16 (length password)), bytes_of password])"

definition status_byte :: "bool \<Rightarrow> byte" where
  "status_byte ok = (if ok then 1 else 0)"

definition authResponse :: "bool \<Rightarrow> u64 \<Rightarrow> string \<Rightarrow> packet" where
  "authResponse ok session_id message =
     mk_packet AUTH_RESPONSE
       (layout (1 + 8 + 2 + length message)
          [[status_byte ok], enc64 session_id, enc16 (size16 (length message)), bytes_of message])"

definition error :: "string \<Rightarrow> packet" where
  "error message =
     mk_packet ERROR
       (layout (2 + length message) [enc16 (size16 (length message)), bytes_of message])"

definition success :: "string \<Rightarrow> packet" where
  "success message =
     mk_packet SUCCESS
       (layout (2 + length message) [enc16 (size16 (length message)), bytes_of message])"

definition listRequest :: "string \<Rightarrow> packet" where
  "listRequest path =
     mk_packet LIST (layout (2 + length path) [enc16 (size16 (length path)), bytes_of path])"

definition listResponse :: "directory_entry list \<Rightarrow> packet" where
  "listResponse entries = mk_packet LIST_RESPONSE (serialize_entries entries)"

definition uploadBegin :: "u64 \<Rightarrow> u64 \<Rightarrow> string \<Rightarrow> string \<Rightarrow> string \<Rightarrow> packet" where
  "uploadBegin upload_id file_size remote_path filename sha256_hash =
     mk_packet UPLOAD_BEGIN
       (layout (8 + 8 + 2 + length remote_path + 2 + length filename + 2 + length sha256_hash)
          [enc64 upload_id, enc64 file_size,
           enc16 (size16 (length remote_path)), bytes_of remote_path,
           enc16 (size16 (length filename)), bytes_of filename,
           enc16 (size16 (length sha256_hash)), bytes_of sha256_hash])"

definition uploadChunk :: "u64 \<Rightarrow> u64 \<Rightarrow> bytes \<Rightarrow> packet" where
  "uploadChunk upload_id offset data =
     mk_packet UPLOAD_CHUNK
       (layout (8 + 8 + 4 + length data)
          [enc64 upload_id, enc64 offset, enc32 (size32 (length data)), data])"

definition uploadEnd :: "u64 \<Rightarrow> packet" where
  "uploadEnd upload_id = mk_packet UPLOAD_END (layout 8 [enc64 upload_id])"

definition downloadRequest :: "string \<Rightarrow> packet" where
  "downloadRequest remote_path =
     mk_packet DOWNLOAD_REQUEST
       (layout (2 + length remote_path)
          [enc16 (size16 (length remote_path)), bytes_of remote_path])"

definition downloadBegin :: "u64 \<Rightarrow> u64 \<Rightarrow> string \<Rightarrow> string \<Rightarrow> packet" where
  "downloadBegin download_id file_size filename sha256_hash =
     mk_packet DOWNLOAD_BEGIN
       (layout (8 + 8 + 2 + length filename + 2 + length sha256_hash)
          [enc64 download_id, enc64 file_size,
           enc16 (size16 (length filename)), bytes_of filename,
           enc16 (size16 (length sha256_hash)), bytes_of sha256_hash])"

definition downloadChunk :: "u64 \<Rightarrow> u64 \<Rightarrow> bytes \<Rightarrow> packet" where
  "downloadChunk download_id offset data =
     mk_packet DOWNLOAD_CHUNK
       (layout (8 + 8 + 4 + length data)
          [enc64 download_id, enc64 offset, enc32 (size32 (length data)), data])"

definition downloadEnd :: "u64 \<Rightarrow> packet" where
  "downloadEnd download_id = mk_packet DOWNLOAD_END (layout 8 [enc64 download_id])"

definition deleteRequest :: "string \<Rightarrow> packet" where
  "deleteRequest remote_path =
     mk_packet DELETE_REQUEST
       (layout (2 + length remote_path)
          [enc16 (size16 (length remote_path)), bytes_of remote_path])"

definition deleteResponse :: "bool \<Rightarrow> string \<Rightarrow> packet" where
  "deleteResponse ok message =
     mk_packet DELETE_RESPONSE
       (layout (1 + 2 + length message)
          [[status_byte ok], enc16 (size16 (length message)), bytes_of message])"

definition renameRequest :: "string \<Rightarrow> string \<Rightarrow> packet" where
  "renameRequest source destination =
     mk_packet RENAME_REQUEST
       (layout (2 + length source + 2 + length destination)
          [enc16 (size16 (length source)), bytes_of source,
           enc16 (size16 (length destination)), bytes_of destination])"

text \<open>The remaining builders reuse the payload of another one and overwrite the type.\<close>

definition retype :: "packet_type \<Rightarrow> packet \<Rightarrow> packet" where
  "retype t p = p\<lparr>header := (header p)\<lparr>ptype := type_code t\<rparr>\<rparr>"

definition renameResponse :: "bool \<Rightarrow> string \<Rightarrow> packet" where
  "renameResponse ok message = retype RENAME_RESPONSE (deleteResponse ok message)"

definition mkdirRequest :: "string \<Rightarrow> packet" where
  "mkdirRequest path = retype MKDIR_REQUEST (deleteRequest path)"

definition mkdirResponse :: "bool \<Rightarrow> string \<Rightarrow> packet" where
  "mkdirResponse ok message = retype MKDIR_RESPONSE (deleteResponse ok message)"

definition rmdirRequest :: "string \<Rightarrow> packet" where
  "rmdirRequest path = retype RMDIR_REQUEST (deleteRequest path)"

definition rmdirResponse :: "bool \<Rightarrow> string \<Rightarrow> packet" where
  "rmdirResponse ok message = retype RMDIR_RESPONSE (deleteResponse ok message)"

section \<open>Parsers\<close>

definition parseAuthRequest :: "packet \<Rightarrow> (string \<times> string) parse" where
  "parseAuthRequest packet =
     (let d = payload packet in
      if length d < 2 * 2 then Rejected
      else read16 d 0 (\<lambda>ulen.
        let offset = 2 in
        if length d < offset + unat ulen + 2 then Rejected
        else read_string d offset (unat ulen) (\<lambda>out_user.
          let offset = offset + unat ulen in
          read16 d offset (\<lambda>plen.
            let offset = offset + 2 in
            if length d < offset + unat plen then Rejected
            else read_string d offset (unat plen) (\<lambda>out_pass. Parsed (out_user, out_pass))))))"

definition parseAuthResponse :: "packet \<Rightarrow> (bool \<times> u64 \<times> string) parse" where
  "parseAuthResponse packet =
     (let d = payload packet in
      if length d < 1 + 8 + 2 then Rejected
      else read8 d 0 (\<lambda>status. read64 d 1 (\<lambda>session_id. read16 d 9 (\<lambda>mlen.
        let offset = 11 in
        if length d < offset + unat mlen then Rejected
        else read_string d offset (unat mlen) (\<lambda>out_msg.
          Parsed (status = 1, session_id, out_msg))))))"

definition parseError :: "packet \<Rightarrow> string parse" where
  "parseError packet =
     (let d = payload packet in
      if length d < 2 then Rejected
      else read16 d 0 (\<lambda>mlen.
        if length d < 2 + unat mlen then Rejected
        else read_string d 2 (unat mlen) (\<lambda>out_msg. Parsed out_msg)))"

definition parseSuccess :: "packet \<Rightarrow> string parse" where
  "parseSuccess packet = parseError packet"

definition parseListRequest :: "packet \<Rightarrow> string parse" where
  "parseListRequest packet =
     (let d = payload packet in
      if length d < 2 then Rejected
      else read16 d 0 (\<lambda>plen.
        if length d < 2 + unat plen then Rejected
        else read_string d 2 (unat plen) (\<lambda>out_path. Parsed out_path)))"

definition parseListResponse :: "nat \<Rightarrow> packet \<Rightarrow> directory_entry list parse" where
  "parseListResponse alloc_max packet = deserialize_entries alloc_max (payload packet)"

definition parseUploadBegin :: "packet \<Rightarrow> (u64 \<times> u64 \<times> string \<times> string \<times> string) parse" where
  "parseUploadBegin packet =
     (let d = payload packet in
      if length d < 8 * 2 + 2 * 3 then Rejected
      else read64 d 0 (\<lambda>out_id. read64 d 8 (\<lambda>out_size. read16 d 16 (\<lambda>p_len.
        let pos = 18 in
        if length d < pos + unat p_len + 2 then Rejected
        else read_string d pos (unat p_len) (\<lambda>out_path.
          let pos = pos + unat p_len in
          read16 d pos (\<lambda>f_len.
            let pos = pos + 2 in
            if length d < pos + unat f_len + 2 then Rejected
            else read_string d pos (unat f_len) (\<lambda>out_filename.
              let pos = pos + unat f_len in
              read16 d pos (\<lambda>h_len.
                let pos = pos + 2 in
                if length d < pos + unat h_len then Rejected
                else read_string d pos (unat h_len) (\<lambda>out_hash.
                  Parsed (out_id, out_size, out_path, out_filename, out_hash))))))))))"

definition parseUploadChunk :: "packet \<Rightarrow> (u64 \<times> u64 \<times> bytes) parse" where
  "parseUploadChunk packet =
     (let d = payload packet in
      if length d < 8 * 2 + 4 then Rejected
      else read64 d 0 (\<lambda>out_id. read64 d 8 (\<lambda>out_offset. read32 d 16 (\<lambda>out_size.
        let pos = 20 in
        if length d < pos + unat out_size then Rejected
        else read_bytes d pos (unat out_size) (\<lambda>out_data.
          Parsed (out_id, out_offset, out_data))))))"

definition parseUploadEnd :: "packet \<Rightarrow> u64 parse" where
  "parseUploadEnd packet =
     (let d = payload packet in
      if length d < 8 then Rejected else read64 d 0 (\<lambda>out_id. Parsed out_id))"

definition parseDownloadRequest :: "packet \<Rightarrow> string parse" where
  "parseDownloadRequest packet =
     (let d = payload packet in
      if length d < 2 then Rejected
      else read16 d 0 (\<lambda>plen.
        if length d < 2 + unat plen then Rejected
        else read_string d 2 (unat plen) (\<lambda>out_path. Parsed out_path)))"

definition parseDownloadBegin :: "packet \<Rightarrow> (u64 \<times> u64 \<times> string \<times> string) parse" where
  "parseDownloadBegin packet =
     (let d = payload packet in
      if length d < 8 * 2 + 2 * 2 then Rejected
      else read64 d 0 (\<lambda>out_id. read64 d 8 (\<lambda>out_size. read16 d 16 (\<lambda>f_len.
        let pos = 18 in
        if length d < pos + unat f_len + 2 then Rejected
        else read_string d pos (unat f_len) (\<lambda>out_filename.
          let pos = pos + unat f_len in
          read16 d pos (\<lambda>h_len.
            let pos = pos + 2 in
            if length d < pos + unat h_len then Rejected
            else read_string d pos (unat h_len) (\<lambda>out_hash.
              Parsed (out_id, out_size, out_filename, out_hash))))))))"

definition parseDownloadChunk :: "packet \<Rightarrow> (u64 \<times> u64 \<times> bytes) parse" where
  "parseDownloadChunk packet = parseUploadChunk packet"

definition parseDownloadEnd :: "packet \<Rightarrow> u64 parse" where
  "parseDownloadEnd packet = parseUploadEnd packet"

definition parseDeleteRequest :: "packet \<Rightarrow> string parse" where
  "parseDeleteRequest packet = parseListRequest packet"

definition parseDeleteResponse :: "packet \<Rightarrow> (bool \<times> string) parse" where
  "parseDeleteResponse packet =
     (let d = payload packet in
      if length d < 1 + 2 then Rejected
      else read8 d 0 (\<lambda>status. read16 d 1 (\<lambda>m_len.
        let offset = 3 in
        if length d < offset + unat m_len then Rejected
        else read_string d offset (unat m_len) (\<lambda>out_message. Parsed (status = 1, out_message)))))"

definition parseRenameRequest :: "packet \<Rightarrow> (string \<times> string) parse" where
  "parseRenameRequest packet =
     (let d = payload packet in
      if length d < 2 * 2 then Rejected
      else read16 d 0 (\<lambda>s_len.
        let offset = 2 in
        if length d < offset + unat s_len + 2 then Rejected
        else read_string d offset (unat s_len) (\<lambda>out_source.
          let offset = offset + unat s_len in
          read16 d offset (\<lambda>d_len.
            let offset = offset + 2 in
            if length d < offset + unat d_len then Rejected
            else read_string d offset (unat d_len) (\<lambda>out_dest. Parsed (out_source, out_dest))))))"

definition parseRenameResponse :: "packet \<Rightarrow> (bool \<times> string) parse" where
  "parseRenameResponse packet = parseDeleteResponse packet"

definition parseMkdirRequest :: "packet \<Rightarrow> string parse" where
  "parseMkdirRequest packet = parseListRequest packet"

definition parseMkdirResponse :: "packet \<Rightarrow> (bool \<times> string) parse" where
  "parseMkdirResponse packet = parseDeleteResponse packet"

definition parseRmdirRequest :: "packet \<Rightarrow> string parse" where
  "parseRmdirRequest packet = parseListRequest packet"

definition parseRmdirResponse :: "packet \<Rightarrow> (bool \<times> string) parse" where
  "parseRmdirResponse packet = parseDeleteResponse packet"

section \<open>Every parser stays inside its payload\<close>

lemma primitive_parsers_safe [safe_simps]:
  "parseAuthRequest p \<noteq> OOB" "parseAuthResponse p \<noteq> OOB" "parseError p \<noteq> OOB"
  "parseListRequest p \<noteq> OOB" "parseUploadBegin p \<noteq> OOB" "parseUploadChunk p \<noteq> OOB"
  "parseUploadEnd p \<noteq> OOB" "parseDownloadRequest p \<noteq> OOB" "parseDownloadBegin p \<noteq> OOB"
  "parseDeleteResponse p \<noteq> OOB" "parseRenameRequest p \<noteq> OOB"
  by (simp_all add: parseAuthRequest_def parseAuthResponse_def parseError_def parseListRequest_def
      parseUploadBegin_def parseUploadChunk_def parseUploadEnd_def parseDownloadRequest_def
      parseDownloadBegin_def parseDeleteResponse_def parseRenameRequest_def read_defs Let_def)

section \<open>What the builders produce\<close>

lemma retype_mk_packet [simp]: "retype t (mk_packet s d) = mk_packet t d"
  by (simp add: retype_def mk_packet_def)

lemma builder_eqs [codec_simps]:
  "authRequest u p = mk_packet AUTH_REQUEST
     (enc16 (size16 (length u)) @ bytes_of u @ enc16 (size16 (length p)) @ bytes_of p)"
  "authResponse ok sid m = mk_packet AUTH_RESPONSE
     (status_byte ok # enc64 sid @ enc16 (size16 (length m)) @ bytes_of m)"
  "error m = mk_packet ERROR (enc16 (size16 (length m)) @ bytes_of m)"
  "success m = mk_packet SUCCESS (enc16 (size16 (length m)) @ bytes_of m)"
  "listRequest m = mk_packet LIST (enc16 (size16 (length m)) @ bytes_of m)"
  "uploadBegin i n r f h = mk_packet UPLOAD_BEGIN
     (enc64 i @ enc64 n @ enc16 (size16 (length r)) @ bytes_of r @
      enc16 (size16 (length f)) @ bytes_of f @ enc16 (size16 (length h)) @ bytes_of h)"
  "uploadChunk i off d = mk_packet UPLOAD_CHUNK
     (enc64 i @ enc64 off @ enc32 (size32 (length d)) @ d)"
  "uploadEnd i = mk_packet UPLOAD_END (enc64 i)"
  "downloadRequest m = mk_packet DOWNLOAD_REQUEST (enc16 (size16 (length m)) @ bytes_of m)"
  "downloadBegin i n f h = mk_packet DOWNLOAD_BEGIN
     (enc64 i @ enc64 n @ enc16 (size16 (length f)) @ bytes_of f @
      enc16 (size16 (length h)) @ bytes_of h)"
  "downloadChunk i off d = mk_packet DOWNLOAD_CHUNK
     (enc64 i @ enc64 off @ enc32 (size32 (length d)) @ d)"
  "downloadEnd i = mk_packet DOWNLOAD_END (enc64 i)"
  "deleteRequest m = mk_packet DELETE_REQUEST (enc16 (size16 (length m)) @ bytes_of m)"
  "deleteResponse ok m = mk_packet DELETE_RESPONSE
     (status_byte ok # enc16 (size16 (length m)) @ bytes_of m)"
  "renameRequest s t = mk_packet RENAME_REQUEST
     (enc16 (size16 (length s)) @ bytes_of s @ enc16 (size16 (length t)) @ bytes_of t)"
  by (simp_all add: authRequest_def authResponse_def error_def success_def listRequest_def
      uploadBegin_def uploadChunk_def uploadEnd_def downloadRequest_def downloadBegin_def
      downloadChunk_def downloadEnd_def deleteRequest_def deleteResponse_def renameRequest_def
      layout_concat)

lemma retyped_builder_eqs [codec_simps]:
  "renameResponse ok m = mk_packet RENAME_RESPONSE
     (status_byte ok # enc16 (size16 (length m)) @ bytes_of m)"
  "mkdirRequest m = mk_packet MKDIR_REQUEST (enc16 (size16 (length m)) @ bytes_of m)"
  "mkdirResponse ok m = mk_packet MKDIR_RESPONSE
     (status_byte ok # enc16 (size16 (length m)) @ bytes_of m)"
  "rmdirRequest m = mk_packet RMDIR_REQUEST (enc16 (size16 (length m)) @ bytes_of m)"
  "rmdirResponse ok m = mk_packet RMDIR_RESPONSE
     (status_byte ok # enc16 (size16 (length m)) @ bytes_of m)"
  by (simp_all add: renameResponse_def mkdirRequest_def mkdirResponse_def rmdirRequest_def
      rmdirResponse_def codec_simps)

lemma status_byte_eq_1 [simp]: "status_byte ok = 1 \<longleftrightarrow> ok"
  by (simp add: status_byte_def)

lemma string_of_take_bytes_of: "string_of (take n (bytes_of s)) = take n s"
  by (simp add: string_of_def bytes_of_def take_map o_def)

text \<open>The length-prefixed string that most requests consist of: whatever its length, the reader
  sees the prefix that the truncated 16-bit length announces.\<close>

definition prefixed :: "string \<Rightarrow> bytes" where
  "prefixed s = enc16 (size16 (length s)) @ bytes_of s"

lemma unat_size16_le: "unat (size16 n) \<le> n"
  by (simp add: unat_size)

lemma parse_prefixed:
  assumes "payload p = prefixed s"
  shows "parseListRequest p = Parsed (take (length s mod 65536) s)"
    and "parseDownloadRequest p = Parsed (take (length s mod 65536) s)"
    and "parseError p = Parsed (take (length s mod 65536) s)"
  using assms unat_size16_le [of "length s"]
  by (simp_all add: parseListRequest_def parseDownloadRequest_def parseError_def prefixed_def
      read_defs Let_def string_of_take_bytes_of unat_size)

lemma parse_status_prefixed:
  assumes "payload p = status_byte ok # prefixed s"
  shows "parseDeleteResponse p = Parsed (ok, take (length s mod 65536) s)"
  using assms unat_size16_le [of "length s"]
  by (simp add: parseDeleteResponse_def prefixed_def read_defs Let_def string_of_take_bytes_of
      unat_size)

section \<open>The contract of a message\<close>

locale wire_message =
  fixes build :: "'m \<Rightarrow> packet"
    and parse :: "packet \<Rightarrow> 'm parse"
    and fits :: "'m \<Rightarrow> bool"
    and kind :: packet_type
  assumes parse_build: "fits m \<Longrightarrow> parse (build m) = Parsed m"
    and build_kind: "packet_kind (build m) = Some kind"
    and build_consistent: "consistent (build m)"
    and parse_safe: "parse p \<noteq> OOB"
begin

lemma build_inject: "fits m \<Longrightarrow> fits m' \<Longrightarrow> build m = build m' \<longleftrightarrow> m = m'"
  by (metis parse.inject parse_build)

lemma wire_roundtrip:
  assumes "fits m" and "length (payload (build m)) + length xs < 2 ^ 64 - 12"
  obtains p where "deserialize (serialize (build m) @ xs) = Parsed p"
    and "packet_kind p = Some kind" and "parse p = Parsed m"
  using assms deserialize_serialize [OF build_consistent] parse_build build_kind by blast

end

abbreviation short :: "string \<Rightarrow> bool" where
  "short s \<equiv> length s < 65536"

interpretation auth_request: wire_message
  "\<lambda>(u, p). authRequest u p" parseAuthRequest "\<lambda>(u, p). short u \<and> short p" AUTH_REQUEST
  by unfold_locales
    (auto simp: codec_simps safe_simps parseAuthRequest_def read_defs Let_def)

interpretation auth_response: wire_message
  "\<lambda>(ok, sid, m). authResponse ok sid m" parseAuthResponse "\<lambda>(ok, sid, m). short m" AUTH_RESPONSE
  by unfold_locales
    (auto simp: codec_simps safe_simps parseAuthResponse_def read_defs Let_def)

interpretation upload_begin: wire_message
  "\<lambda>(i, n, r, f, h). uploadBegin i n r f h" parseUploadBegin
  "\<lambda>(i, n, r, f, h). short r \<and> short f \<and> short h" UPLOAD_BEGIN
  by unfold_locales
    (auto simp: codec_simps safe_simps parseUploadBegin_def read_defs Let_def)

interpretation upload_chunk: wire_message
  "\<lambda>(i, off, d). uploadChunk i off d" parseUploadChunk "\<lambda>(i, off, d). length d < 2 ^ 32" UPLOAD_CHUNK
  by unfold_locales
    (auto simp: codec_simps safe_simps parseUploadChunk_def read_defs Let_def)

interpretation upload_end: wire_message uploadEnd parseUploadEnd "\<lambda>_. True" UPLOAD_END
  by unfold_locales
    (auto simp: codec_simps safe_simps parseUploadEnd_def read_defs Let_def)

interpretation download_begin: wire_message
  "\<lambda>(i, n, f, h). downloadBegin i n f h" parseDownloadBegin
  "\<lambda>(i, n, f, h). short f \<and> short h" DOWNLOAD_BEGIN
  by unfold_locales
    (auto simp: codec_simps safe_simps parseDownloadBegin_def read_defs Let_def)

interpretation download_chunk: wire_message
  "\<lambda>(i, off, d). downloadChunk i off d" parseDownloadChunk "\<lambda>(i, off, d). length d < 2 ^ 32"
  DOWNLOAD_CHUNK
  by unfold_locales
    (auto simp: codec_simps safe_simps parseDownloadChunk_def parseUploadChunk_def read_defs Let_def)

interpretation download_end: wire_message downloadEnd parseDownloadEnd "\<lambda>_. True" DOWNLOAD_END
  by unfold_locales
    (auto simp: codec_simps safe_simps parseDownloadEnd_def parseUploadEnd_def read_defs Let_def)

interpretation rename_request: wire_message
  "\<lambda>(s, t). renameRequest s t" parseRenameRequest "\<lambda>(s, t). short s \<and> short t" RENAME_REQUEST
  by unfold_locales
    (auto simp: codec_simps safe_simps parseRenameRequest_def read_defs Let_def)

lemmas parse_aliases =
  parseSuccess_def parseDownloadChunk_def parseDownloadEnd_def parseDeleteRequest_def
  parseRenameResponse_def parseMkdirRequest_def parseMkdirResponse_def parseRmdirRequest_def
  parseRmdirResponse_def

lemma parse_string_requests:
  "parseListRequest (listRequest s) = Parsed (take (length s mod 65536) s)"
  "parseDownloadRequest (downloadRequest s) = Parsed (take (length s mod 65536) s)"
  "parseDeleteRequest (deleteRequest s) = Parsed (take (length s mod 65536) s)"
  "parseMkdirRequest (mkdirRequest s) = Parsed (take (length s mod 65536) s)"
  "parseRmdirRequest (rmdirRequest s) = Parsed (take (length s mod 65536) s)"
  "parseError (error s) = Parsed (take (length s mod 65536) s)"
  "parseSuccess (success s) = Parsed (take (length s mod 65536) s)"
  by (simp_all add: codec_simps parse_aliases parse_prefixed prefixed_def)

lemma parse_status_responses:
  "parseDeleteResponse (deleteResponse ok s) = Parsed (ok, take (length s mod 65536) s)"
  "parseRenameResponse (renameResponse ok s) = Parsed (ok, take (length s mod 65536) s)"
  "parseMkdirResponse (mkdirResponse ok s) = Parsed (ok, take (length s mod 65536) s)"
  "parseRmdirResponse (rmdirResponse ok s) = Parsed (ok, take (length s mod 65536) s)"
  by (simp_all add: codec_simps parse_aliases parse_status_prefixed prefixed_def)

lemma alias_parsers_safe [safe_simps]:
  "parseSuccess p \<noteq> OOB" "parseDownloadChunk p \<noteq> OOB" "parseDownloadEnd p \<noteq> OOB"
  "parseDeleteRequest p \<noteq> OOB" "parseRenameResponse p \<noteq> OOB" "parseMkdirRequest p \<noteq> OOB"
  "parseMkdirResponse p \<noteq> OOB" "parseRmdirRequest p \<noteq> OOB" "parseRmdirResponse p \<noteq> OOB"
  "parseListResponse alloc_max p \<noteq> OOB"
  by (simp_all add: parse_aliases parseListResponse_def safe_simps)

interpretation list_request: wire_message listRequest parseListRequest short LIST
  by unfold_locales (simp_all add: parse_string_requests, simp_all add: codec_simps safe_simps)

interpretation list_response: wire_message listResponse "parseListResponse alloc_max"
  "listing_fits alloc_max" LIST_RESPONSE for alloc_max
  by unfold_locales
    (simp_all add: listResponse_def parseListResponse_def codec_simps safe_simps)

interpretation download_request: wire_message downloadRequest parseDownloadRequest short
  DOWNLOAD_REQUEST
  by unfold_locales (simp_all add: parse_string_requests, simp_all add: codec_simps safe_simps)

interpretation delete_request: wire_message deleteRequest parseDeleteRequest short DELETE_REQUEST
  by unfold_locales (simp_all add: parse_string_requests, simp_all add: codec_simps safe_simps)

interpretation delete_response: wire_message "\<lambda>(ok, m). deleteResponse ok m" parseDeleteResponse
  "\<lambda>(ok, m). short m" DELETE_RESPONSE
  by unfold_locales
    (auto simp: parse_status_responses, simp_all add: codec_simps safe_simps)

interpretation rename_response: wire_message "\<lambda>(ok, m). renameResponse ok m" parseRenameResponse
  "\<lambda>(ok, m). short m" RENAME_RESPONSE
  by unfold_locales
    (auto simp: parse_status_responses, simp_all add: codec_simps safe_simps)

interpretation mkdir_request: wire_message mkdirRequest parseMkdirRequest short MKDIR_REQUEST
  by unfold_locales (simp_all add: parse_string_requests, simp_all add: codec_simps safe_simps)

interpretation mkdir_response: wire_message "\<lambda>(ok, m). mkdirResponse ok m" parseMkdirResponse
  "\<lambda>(ok, m). short m" MKDIR_RESPONSE
  by unfold_locales
    (auto simp: parse_status_responses, simp_all add: codec_simps safe_simps)

interpretation rmdir_request: wire_message rmdirRequest parseRmdirRequest short RMDIR_REQUEST
  by unfold_locales (simp_all add: parse_string_requests, simp_all add: codec_simps safe_simps)

interpretation rmdir_response: wire_message "\<lambda>(ok, m). rmdirResponse ok m" parseRmdirResponse
  "\<lambda>(ok, m). short m" RMDIR_RESPONSE
  by unfold_locales
    (auto simp: parse_status_responses, simp_all add: codec_simps safe_simps)

interpretation error_message: wire_message error parseError short ERROR
  by unfold_locales (simp_all add: parse_string_requests, simp_all add: codec_simps safe_simps)

interpretation success_message: wire_message success parseSuccess short SUCCESS
  by unfold_locales (simp_all add: parse_string_requests, simp_all add: codec_simps safe_simps)

end
