(* ===== verification/Download_Service.thy ===== *)
theory Download_Service
  imports Hashing File_Service Packet_Builder Packet_IO Samples
begin

text \<open>
  \<open>filesystem/download_service.cpp\<close>: the metadata of a requested file, and its stream of
  64 KB chunks between \<open>DOWNLOAD_BEGIN\<close> and \<open>DOWNLOAD_END\<close>.
\<close>

record download_meta =
  dm_download_id :: u64
  dm_file_size :: u64
  dm_filename :: string
  dm_sha256_hash :: string
  dm_full_path :: apath

definition sha256File :: "'c evp \<Rightarrow> fs \<Rightarrow> apath \<Rightarrow> string" where
  "sha256File E f p = (case open_read f p of Inl e \<Rightarrow> '''' | Inr d \<Rightarrow> sha256_content E d)"

definition prepareDownload ::
  "'c evp \<Rightarrow> apath \<Rightarrow> fs \<Rightarrow> u64 \<Rightarrow> string \<Rightarrow> string + download_meta" where
  "prepareDownload E storageRoot f random_id remote_path =
     (if remote_path = [] then Inl ''Remote path cannot be empty''
      else case resolvePath storageRoot f remote_path of
        Inl e \<Rightarrow> Inl (''Invalid path: '' @ e)
      | Inr target_path \<Rightarrow>
          if \<not> fs_exists f target_path then Inl ''File not found''
          else if is_directory f target_path then Inl ''Target is a directory, not a file''
          else case file_size f target_path of
            Inl e \<Rightarrow> Inl ''Unable to read file metadata''
          | Inr n \<Rightarrow>
              (let file_hash = sha256File E f target_path
               in if file_hash = [] \<and> 0 < n then Inl ''Failed to calculate file checksum''
                  else Inr \<lparr>dm_download_id = random_id, dm_file_size = size64 n,
                            dm_filename = path_filename target_path,
                            dm_sha256_hash = file_hash, dm_full_path = target_path\<rparr>))"

text \<open>The chunk loop over the blocks that the file stream delivers; \<open>None\<close> is success.\<close>

fun stream_loop ::
  "'t transport \<Rightarrow> u64 \<Rightarrow> u64 \<Rightarrow> bytes list \<Rightarrow> u64 \<Rightarrow> 't \<Rightarrow> string option \<times> 't" where
  "stream_loop T download_id total_size [] offset t = (None, t)"
| "stream_loop T download_id total_size (d # ds) offset t =
     (if offset < total_size then
        (case sendPacket T t (downloadChunk download_id offset d) of
           (False, t) \<Rightarrow> (Some (''Failed to send DOWNLOAD_CHUNK at offset '' @ to_string (unat offset)), t)
         | (True, t) \<Rightarrow> stream_loop T download_id total_size ds (offset + size64 (length d)) t)
      else (None, t))"

definition streamFile ::
  "'t transport \<Rightarrow> fs \<Rightarrow> download_meta \<Rightarrow> 't \<Rightarrow> string option \<times> 't" where
  "streamFile T f meta t =
     (case sendPacket T t (downloadBegin (dm_download_id meta) (dm_file_size meta)
             (dm_filename meta) (dm_sha256_hash meta)) of
        (False, t) \<Rightarrow> (Some ''Failed to send DOWNLOAD_BEGIN packet'', t)
      | (True, t) \<Rightarrow>
          (case open_read f (dm_full_path meta) of
             Inl e \<Rightarrow> (Some ''Failed to open file for streaming'', t)
           | Inr d \<Rightarrow>
               (case stream_loop T (dm_download_id meta) (dm_file_size meta)
                       (read_blocks block_size d) 0 t of
                  (Some e, t) \<Rightarrow> (Some e, t)
                | (None, t) \<Rightarrow>
                    (case sendPacket T t (downloadEnd (dm_download_id meta)) of
                       (False, t) \<Rightarrow> (Some ''Failed to send DOWNLOAD_END packet'', t)
                     | (True, t) \<Rightarrow> (None, t)))))"

end
