(* ===== verification/Auth.thy ===== *)
theory Auth
  imports Hashing
begin

text \<open>
  \<open>auth/user_store.cpp\<close> and \<open>auth/auth_manager.cpp\<close>: the user table, the two formats it is
  loaded from (the output of the \<open>sqlite3\<close> program and a text file), and the password check.
\<close>

type_synonym users = "string \<Rightarrow> string option"

section \<open>UserStore\<close>

text \<open>\<open>fgets\<close> with a buffer of 512 bytes: a line, or a piece of at most 511 characters.\<close>

fun split_line :: "nat \<Rightarrow> string \<Rightarrow> string \<times> string" where
  "split_line 0 s = ([], s)"
| "split_line (Suc n) [] = ([], [])"
| "split_line (Suc n) (c # s) =
     (if c = CHR 0x0A then ([c], s)
      else (let (x, r) = split_line n s in (c # x, r)))"

lemma split_line_append: "split_line n s = (x, r) \<Longrightarrow> x @ r = s"
  by (induction n s arbitrary: x r rule: split_line.induct) (auto split: if_splits prod.splits)

lemma split_line_progress: "split_line (Suc n) (c # s) = (x, r) \<Longrightarrow> length r < length (c # s)"
  using split_line_append [of "Suc n" "c # s" x r]
  by (auto split: if_splits prod.splits dest!: arg_cong [where f = length])

function fgets_lines :: "string \<Rightarrow> string list" where
  "fgets_lines [] = []"
| "fgets_lines (c # s) = (let (x, r) = split_line 511 (c # s) in x # fgets_lines r)"
  by pat_completeness auto
termination
proof (relation "measure length", goal_cases)
  case 1
  show ?case by simp
next
  case (2 c s p x r)
  then have "split_line (Suc 510) (c # s) = (x, r)"
    by simp
  then have "length r < length (c # s)"
    by (rule split_line_progress)
  then show ?case
    by simp
qed

definition strip_newlines :: "string \<Rightarrow> string" where
  "strip_newlines s = rev (dropWhile (\<lambda>c. c = CHR 0x0A \<or> c = CHR 0x0D) (rev s))"

text \<open>The text before the first occurrence of a separator and the text after it.\<close>

fun split_first :: "char \<Rightarrow> string \<Rightarrow> (string \<times> string) option" where
  "split_first x [] = None"
| "split_first x (c # s) =
     (if c = x then Some ([], s)
      else (case split_first x s of None \<Rightarrow> None | Some (a, b) \<Rightarrow> Some (c # a, b)))"

definition load_sqlite_line :: "users \<Rightarrow> string \<Rightarrow> users" where
  "load_sqlite_line users buffer =
     (case split_first (CHR ''|'') (strip_newlines (c_string buffer)) of
        None \<Rightarrow> users
      | Some (u, h) \<Rightarrow> users(u \<mapsto> h))"

text \<open>\<open>std::getline\<close> splits at newlines; a last empty piece is not a line.\<close>

lemma split_first_progress: "split_first x s = Some (l, r) \<Longrightarrow> length r < length s"
  by (induction x s arbitrary: l r rule: split_first.induct) (auto split: if_splits option.splits)

function getlines :: "string \<Rightarrow> string list" where
  "getlines s =
     (if s = [] then []
      else case split_first (CHR 0x0A) s of
        None \<Rightarrow> [s]
      | Some (l, r) \<Rightarrow> l # getlines r)"
  by pat_completeness auto
termination
  by (relation "measure length") (auto dest: split_first_progress)

declare getlines.simps [simp del]

definition load_text_line :: "users \<Rightarrow> string \<Rightarrow> users" where
  "load_text_line users line =
     (if line = [] \<or> hd line = CHR ''#'' then users
      else case split_first (CHR '':'') line of
        None \<Rightarrow> users
      | Some (username, hash) \<Rightarrow>
          if hash = [] then users
          else users(username \<mapsto> (if last hash = CHR 0x0D then butlast hash else hash)))"

definition sqlite_magic :: string where
  "sqlite_magic = ''SQLite format 3''"

text \<open>\<open>load\<close>: the resolved file's content (\<open>None\<close> when it cannot be opened) and the output of
  the \<open>sqlite3\<close> command (\<open>None\<close> when it cannot be run).\<close>

definition load :: "users \<Rightarrow> string option \<Rightarrow> string option \<Rightarrow> bool \<times> users" where
  "load users file sqlite_output =
     (case file of
        None \<Rightarrow> (False, users)
      | Some text \<Rightarrow>
          if take 15 text = sqlite_magic then
            (case sqlite_output of
               None \<Rightarrow> (False, users)
             | Some output \<Rightarrow> (True, foldl load_sqlite_line users (fgets_lines output)))
          else (True, foldl load_text_line users (getlines text)))"

definition userExists :: "users \<Rightarrow> string \<Rightarrow> bool" where
  "userExists users username \<longleftrightarrow> users username \<noteq> None"

definition getPasswordHash :: "users \<Rightarrow> string \<Rightarrow> string" where
  "getPasswordHash users username = (case users username of Some h \<Rightarrow> h | None \<Rightarrow> '''')"

definition addUser :: "users \<Rightarrow> string \<Rightarrow> string \<Rightarrow> users" where
  "addUser users username password_hash = users(username \<mapsto> password_hash)"

section \<open>AuthManager\<close>

definition authenticate :: "'c evp \<Rightarrow> users \<Rightarrow> string \<Rightarrow> string \<Rightarrow> bool" where
  "authenticate E users username raw_password =
     (if \<not> userExists users username then False
      else (let stored_hash = getPasswordHash users username;
                incoming_hash = sha256 E raw_password
            in stored_hash \<noteq> [] \<and> stored_hash = incoming_hash))"

end
