(* ===== verification/Delete_Service.thy ===== *)
theory Delete_Service
  imports Audit_Log Samples
begin

text \<open>\<open>filesystem/delete_service.cpp\<close>: deletion of a file or an empty directory.\<close>

definition delete_service :: "fs \<Rightarrow> apath \<Rightarrow> string \<Rightarrow> fs" where
  "delete_service f cwd audit_log_path = audit_parent f cwd audit_log_path"

definition delete_logAudit ::
  "service_env \<Rightarrow> string \<Rightarrow> string \<Rightarrow> string \<Rightarrow> string \<Rightarrow> store \<Rightarrow> store" where
  "delete_logAudit env username path st detail s =
     log_line env (audit_line env username ''DELETE'' path st detail) s"

definition delete_failed ::
  "service_env \<Rightarrow> string \<Rightarrow> string \<Rightarrow> string \<Rightarrow> store \<Rightarrow> (bool \<times> string) \<times> store" where
  "delete_failed env username path out_message s =
     ((False, out_message), delete_logAudit env username path ''FAILED'' out_message s)"

definition deletePath ::
  "service_env \<Rightarrow> store \<Rightarrow> string \<Rightarrow> string \<Rightarrow> (bool \<times> string) \<times> store" where
  "deletePath env s remote_path username =
     (let failed = delete_failed env username remote_path; f = disk s in
      if remote_path = [] \<or> remote_path = ''/'' \<or> remote_path = ''.''
      then failed ''Cannot delete the storage root directory'' s
      else case resolvePath (root env) f remote_path of
        Inl e \<Rightarrow> failed (''Invalid path: '' @ e) s
      | Inr resolved \<Rightarrow>
          if resolved = root env then failed ''Cannot delete the storage root directory'' s
          else if \<not> fs_exists f resolved then failed ''File or directory not found'' s
          else if is_directory f resolved \<and>
                  (case list_dir f resolved of Inl _ \<Rightarrow> False | Inr names \<Rightarrow> names \<noteq> [])
          then failed ''Directory not empty'' s
          else case fs_remove f resolved of
            (True, ec, f') \<Rightarrow>
              ((True, ''Deleted successfully''),
               delete_logAudit env username remote_path ''SUCCESS'' [] (s\<lparr>disk := f'\<rparr>))
          | (False, ec, f') \<Rightarrow>
              failed (case ec of Some e \<Rightarrow> strerror e
                      | None \<Rightarrow> ''Permission denied or unable to delete'') (s\<lparr>disk := f'\<rparr>))"

end
