(* ===== verification/Directory_Service.thy ===== *)
theory Directory_Service
  imports Audit_Log Samples
begin

text \<open>\<open>filesystem/directory_service.cpp\<close>: creation and removal of directories.\<close>

definition directory_service :: "fs \<Rightarrow> apath \<Rightarrow> string \<Rightarrow> fs" where
  "directory_service f cwd audit_log_path = audit_parent f cwd audit_log_path"

definition directory_logAudit ::
  "service_env \<Rightarrow> string \<Rightarrow> string \<Rightarrow> string \<Rightarrow> string \<Rightarrow> string \<Rightarrow> store \<Rightarrow> store" where
  "directory_logAudit env username action path st detail s =
     log_line env (audit_line env username action path st detail) s"

definition directory_failed ::
  "service_env \<Rightarrow> string \<Rightarrow> string \<Rightarrow> string \<Rightarrow> string \<Rightarrow> store \<Rightarrow> (bool \<times> string) \<times> store" where
  "directory_failed env username action path out_message s =
     ((False, out_message), directory_logAudit env username action path ''FAILED'' out_message s)"

definition createDirectory ::
  "service_env \<Rightarrow> store \<Rightarrow> string \<Rightarrow> string \<Rightarrow> (bool \<times> string) \<times> store" where
  "createDirectory env s path username =
     (let failed = directory_failed env username ''MKDIR'' path; f = disk s in
      if path = [] \<or> path = ''/'' \<or> path = ''.'' then failed ''Invalid directory path'' s
      else case resolvePath (root env) f path of
        Inl e \<Rightarrow> failed (''Invalid path: '' @ e) s
      | Inr resolved \<Rightarrow>
          if resolved = root env then failed ''Cannot recreate root directory'' s
          else if fs_exists f resolved then failed ''Directory already exists'' s
          else case create_directories f resolved of
            (created, ec, f') \<Rightarrow>
              (case (created, ec) of
                 (False, Some e) \<Rightarrow> failed (strerror e) (s\<lparr>disk := f'\<rparr>)
               | _ \<Rightarrow> ((True, ''Directory created''),
                       directory_logAudit env username ''MKDIR'' path ''SUCCESS'' [] (s\<lparr>disk := f'\<rparr>))))"

definition removeDirectory ::
  "service_env \<Rightarrow> store \<Rightarrow> string \<Rightarrow> string \<Rightarrow> (bool \<times> string) \<times> store" where
  "removeDirectory env s path username =
     (let failed = directory_failed env username ''RMDIR'' path; f = disk s in
      if path = [] \<or> path = ''/'' \<or> path = ''.''
      then failed ''Cannot delete the storage root directory'' s
      else case resolvePath (root env) f path of
        Inl e \<Rightarrow> failed (''Invalid path: '' @ e) s
      | Inr resolved \<Rightarrow>
          if resolved = root env then failed ''Cannot delete the storage root directory'' s
          else if \<not> fs_exists f resolved then failed ''Directory not found'' s
          else if \<not> is_directory f resolved then failed ''Target is not a directory'' s
          else if (case list_dir f resolved of Inl _ \<Rightarrow> False | Inr names \<Rightarrow> names \<noteq> [])
          then failed ''Directory not empty'' s
          else case fs_remove f resolved of
            (True, ec, f') \<Rightarrow>
              ((True, ''Directory removed''),
               directory_logAudit env username ''RMDIR'' path ''SUCCESS'' [] (s\<lparr>disk := f'\<rparr>))
          | (False, ec, f') \<Rightarrow>
              failed (case ec of Some e \<Rightarrow> strerror e | None \<Rightarrow> ''Unable to remove directory'')
                (s\<lparr>disk := f'\<rparr>))"

end
