(* ===== verification/Rename_Service.thy ===== *)
theory Rename_Service
  imports Audit_Log Samples
begin

text \<open>\<open>filesystem/rename_service.cpp\<close>: renaming and moving inside the storage.\<close>

definition rename_service :: "fs \<Rightarrow> apath \<Rightarrow> string \<Rightarrow> fs" where
  "rename_service f cwd audit_log_path = audit_parent f cwd audit_log_path"

definition rename_logAudit ::
  "service_env \<Rightarrow> string \<Rightarrow> string \<Rightarrow> string \<Rightarrow> string \<Rightarrow> string \<Rightarrow> store \<Rightarrow> store" where
  "rename_logAudit env username source destination st detail s =
     log_line env (audit_line env username ''RENAME'' (source @ '' -> '' @ destination) st detail) s"

definition rename_failed ::
  "service_env \<Rightarrow> string \<Rightarrow> string \<Rightarrow> string \<Rightarrow> string \<Rightarrow> store \<Rightarrow> (bool \<times> string) \<times> store" where
  "rename_failed env username source destination out_message s =
     ((False, out_message),
      rename_logAudit env username source destination ''FAILED'' out_message s)"

definition renamePath ::
  "service_env \<Rightarrow> store \<Rightarrow> string \<Rightarrow> string \<Rightarrow> string \<Rightarrow> (bool \<times> string) \<times> store" where
  "renamePath env s source destination username =
     (let failed = rename_failed env username source destination; f = disk s in
      if source = [] \<or> destination = []
      then failed ''Source and destination paths cannot be empty'' s
      else if source = ''/'' \<or> source = ''.'' \<or> destination = ''/'' \<or> destination = ''.''
      then failed ''Cannot rename or overwrite the storage root directory'' s
      else case resolvePath (root env) f source of
        Inl e \<Rightarrow> failed (''Invalid path: '' @ e) s
      | Inr src_path \<Rightarrow>
        (case resolvePath (root env) f destination of
          Inl e \<Rightarrow> failed (''Invalid path: '' @ e) s
        | Inr dst_path \<Rightarrow>
          if src_path = root env \<or> dst_path = root env
          then failed ''Cannot rename or overwrite the storage root directory'' s
          else if \<not> fs_exists f src_path then failed ''Source file or directory not found'' s
          else if fs_exists f dst_path then failed ''Destination already exists'' s
          else if \<not> fs_exists f (parent_path dst_path)
          then failed ''Destination parent directory does not exist'' s
          else
            (let src_canonical = path_string (lexically_normal src_path);
                 dst_canonical = path_string (lexically_normal dst_path)
             in if is_directory f src_path \<and> prefix (src_canonical @ ''/'') dst_canonical
                then failed ''Cannot move a directory into itself or its subdirectory'' s
                else case fs_rename f src_path dst_path of
                  Inl e \<Rightarrow> failed (strerror e) s
                | Inr f' \<Rightarrow>
                    ((True, ''Renamed successfully''),
                     rename_logAudit env username source destination ''SUCCESS'' []
                       (s\<lparr>disk := f'\<rparr>)))))"

end
