(* ===== verification/Server.thy ===== *)
theory Server
  imports Session Upload_Service Download_Service Auth Delete_Service Directory_Service Rename_Service
begin

text \<open>
  \<open>server/tcp_server.cpp\<close>: one
  definition per case of the switch in \<open>TcpServer::handleClient\<close>, the receive loop with fuel,
  the TLS prelude of a connection, and the accept loop, which serves one client at a time.  The
  upload sessions belong to the server and not to the connection, as in the code.
\<close>

text \<open>The members of \<open>TcpServer\<close> that change, and those that do not: the digest calls, the
  service environment, the values that the random generators deliver, and the allocator's limit.\<close>

record 'c server =
  srv_store :: store
  srv_uploads :: "'c sessions"
  srv_users :: users
  srv_draws :: nat

record 'c config =
  cfg_evp :: "'c evp"
  cfg_env :: service_env
  cfg_rng :: "nat \<Rightarrow> u64"
  cfg_alloc :: nat

text \<open>The local variables of \<open>handleClient\<close>.\<close>

record 't conn =
  chan :: 't
  sess :: session
  cstate :: connection_state

text \<open>A handler goes on, or it has run into undefined behaviour.\<close>

datatype 'a outcome = Running 'a | Undefined

definition reply :: "'t transport \<Rightarrow> packet \<Rightarrow> 't conn \<Rightarrow> 't conn" where
  "reply T p c = c\<lparr>chan := snd (sendPacket T (chan c) p)\<rparr>"

definition generateSessionId :: "'c config \<Rightarrow> 'c server \<Rightarrow> u64 \<times> 'c server" where
  "generateSessionId cfg s = (cfg_rng cfg (srv_draws s), s\<lparr>srv_draws := Suc (srv_draws s)\<rparr>)"

section \<open>The cases of the switch\<close>

type_synonym ('t, 'c) handler =
  "'c config \<Rightarrow> 't transport \<Rightarrow> packet \<Rightarrow> 't conn \<Rightarrow> 'c server \<Rightarrow> ('t conn \<times> 'c server) outcome"

definition handle_ping :: "('t, 'c) handler" where
  "handle_ping cfg T packet c s = Running (reply T pong c, s)"

definition handle_auth :: "('t, 'c) handler" where
  "handle_auth cfg T packet c s =
     (case parseAuthRequest packet of
        Parsed (username, password) \<Rightarrow>
          if authenticate (cfg_evp cfg) (srv_users s) username password then
            (let (sid, s) = generateSessionId cfg s;
                 c = c\<lparr>sess := \<lparr>session_id = sid, session_username = username,
                               session_authenticated = True\<rparr>,
                       cstate := AUTHENTICATED\<rparr>
             in Running (reply T (authResponse True sid ''Authentication successful'') c, s))
          else Running (reply T (authResponse False 0 ''Invalid credentials'') c, s)
      | Rejected \<Rightarrow> Running (reply T (error ''Malformed AUTH_REQUEST packet'') c, s)
      | _ \<Rightarrow> Undefined)"

definition handle_list :: "('t, 'c) handler" where
  "handle_list cfg T packet c s =
     (if \<not> session_authenticated (sess c)
      then Running (reply T (error ''Authentication required'') c, s)
      else case parseListRequest packet of
        Parsed req_path \<Rightarrow>
          (case listDirectory (root (cfg_env cfg)) (disk (srv_store s)) req_path of
             Inr entries \<Rightarrow> Running (reply T (listResponse entries) c, s)
           | Inl what \<Rightarrow> Running (reply T (error what) c, s))
      | Rejected \<Rightarrow> Running (reply T (error ''Malformed LIST packet'') c, s)
      | _ \<Rightarrow> Undefined)"

text \<open>What the upload handlers do with the result of the upload service.\<close>

definition put_uploads :: "'c sessions \<times> fs \<Rightarrow> 'c server \<Rightarrow> 'c server" where
  "put_uploads r s =
     s\<lparr>srv_uploads := fst r, srv_store := (srv_store s)\<lparr>disk := snd r\<rparr>\<rparr>"

definition handle_upload_begin :: "('t, 'c) handler" where
  "handle_upload_begin cfg T packet c s =
     (if \<not> session_authenticated (sess c)
      then Running (reply T (error ''Authentication required'') c, s)
      else case parseUploadBegin packet of
        Parsed (up_id, f_size, r_path, filename, sha256_hash) \<Rightarrow>
          (case beginUpload (cfg_evp cfg) (root (cfg_env cfg)) (srv_uploads s)
                  (disk (srv_store s)) up_id r_path filename f_size sha256_hash of
             (UploadOk, r) \<Rightarrow> Running (reply T (success ''Upload session ready'') c, put_uploads r s)
           | (UploadError err, r) \<Rightarrow> Running (reply T (error err) c, put_uploads r s)
           | (UploadUB, r) \<Rightarrow> Undefined)
      | Rejected \<Rightarrow> Running (reply T (error ''Malformed UPLOAD_BEGIN packet'') c, s)
      | _ \<Rightarrow> Undefined)"

definition handle_upload_chunk :: "('t, 'c) handler" where
  "handle_upload_chunk cfg T packet c s =
     (if \<not> session_authenticated (sess c)
      then Running (reply T (error ''Authentication required'') c, s)
      else case parseUploadChunk packet of
        Parsed (up_id, offset, chunk) \<Rightarrow>
          (case writeChunk (cfg_evp cfg) (srv_uploads s) (disk (srv_store s)) up_id offset chunk of
             (UploadOk, r) \<Rightarrow> Running (c, put_uploads r s)
           | (UploadError err, r) \<Rightarrow> Running (reply T (error err) c, put_uploads r s)
           | (UploadUB, r) \<Rightarrow> Undefined)
      | Rejected \<Rightarrow> Running (reply T (error ''Malformed UPLOAD_CHUNK packet'') c, s)
      | _ \<Rightarrow> Undefined)"

definition handle_upload_end :: "('t, 'c) handler" where
  "handle_upload_end cfg T packet c s =
     (if \<not> session_authenticated (sess c)
      then Running (reply T (error ''Authentication required'') c, s)
      else case parseUploadEnd packet of
        Parsed up_id \<Rightarrow>
          (case finishUpload (cfg_evp cfg) (srv_uploads s) (disk (srv_store s)) up_id of
             (UploadOk, r) \<Rightarrow>
               Running (reply T (success ''Upload verified and completed'') c, put_uploads r s)
           | (UploadError err, r) \<Rightarrow> Running (reply T (error err) c, put_uploads r s)
           | (UploadUB, r) \<Rightarrow> Undefined)
      | Rejected \<Rightarrow> Running (reply T (error ''Malformed UPLOAD_END packet'') c, s)
      | _ \<Rightarrow> Undefined)"

definition handle_download :: "('t, 'c) handler" where
  "handle_download cfg T packet c s =
     (if \<not> session_authenticated (sess c)
      then Running (reply T (error ''Authentication required'') c, s)
      else case parseDownloadRequest packet of
        Parsed req_path \<Rightarrow>
          (let f = disk (srv_store s) in
           case prepareDownload (cfg_evp cfg) (root (cfg_env cfg)) f (cfg_rng cfg (srv_draws s))
                  req_path of
             Inl err \<Rightarrow> Running (reply T (error err) c, s)
           | Inr meta \<Rightarrow>
               Running (c\<lparr>chan := snd (streamFile T f meta (chan c))\<rparr>,
                        s\<lparr>srv_draws := Suc (srv_draws s)\<rparr>))
      | Rejected \<Rightarrow> Running (reply T (error ''Malformed DOWNLOAD_REQUEST packet'') c, s)
      | _ \<Rightarrow> Undefined)"

definition handle_delete :: "('t, 'c) handler" where
  "handle_delete cfg T packet c s =
     (if \<not> session_authenticated (sess c)
      then Running (reply T (deleteResponse False ''Authentication required'') c, s)
      else case parseDeleteRequest packet of
        Parsed target_path \<Rightarrow>
          (let ((ok, msg), st) = deletePath (cfg_env cfg) (srv_store s) target_path
                 (session_username (sess c))
           in Running (reply T (deleteResponse ok msg) c, s\<lparr>srv_store := st\<rparr>))
      | Rejected \<Rightarrow> Running (reply T (deleteResponse False ''Malformed DELETE_REQUEST packet'') c, s)
      | _ \<Rightarrow> Undefined)"

definition handle_rename :: "('t, 'c) handler" where
  "handle_rename cfg T packet c s =
     (if \<not> session_authenticated (sess c)
      then Running (reply T (renameResponse False ''Authentication required'') c, s)
      else case parseRenameRequest packet of
        Parsed (src, dst) \<Rightarrow>
          (let ((ok, msg), st) = renamePath (cfg_env cfg) (srv_store s) src dst
                 (session_username (sess c))
           in Running (reply T (renameResponse ok msg) c, s\<lparr>srv_store := st\<rparr>))
      | Rejected \<Rightarrow> Running (reply T (renameResponse False ''Malformed RENAME_REQUEST packet'') c, s)
      | _ \<Rightarrow> Undefined)"

definition handle_mkdir :: "('t, 'c) handler" where
  "handle_mkdir cfg T packet c s =
     (if \<not> session_authenticated (sess c)
      then Running (reply T (mkdirResponse False ''Authentication required'') c, s)
      else case parseMkdirRequest packet of
        Parsed path \<Rightarrow>
          (let ((ok, msg), st) = createDirectory (cfg_env cfg) (srv_store s) path
                 (session_username (sess c))
           in Running (reply T (mkdirResponse ok msg) c, s\<lparr>srv_store := st\<rparr>))
      | Rejected \<Rightarrow> Running (reply T (mkdirResponse False ''Malformed MKDIR_REQUEST packet'') c, s)
      | _ \<Rightarrow> Undefined)"

definition handle_rmdir :: "('t, 'c) handler" where
  "handle_rmdir cfg T packet c s =
     (if \<not> session_authenticated (sess c)
      then Running (reply T (rmdirResponse False ''Authentication required'') c, s)
      else case parseRmdirRequest packet of
        Parsed path \<Rightarrow>
          (let ((ok, msg), st) = removeDirectory (cfg_env cfg) (srv_store s) path
                 (session_username (sess c))
           in Running (reply T (rmdirResponse ok msg) c, s\<lparr>srv_store := st\<rparr>))
      | Rejected \<Rightarrow> Running (reply T (rmdirResponse False ''Malformed RMDIR_REQUEST packet'') c, s)
      | _ \<Rightarrow> Undefined)"

definition handle_legacy :: "('t, 'c) handler" where
  "handle_legacy cfg T packet c s =
     (if \<not> session_authenticated (sess c)
      then Running (reply T (error ''Authentication required'') c, s)
      else Running (c, s))"

definition handle_packet :: "('t, 'c) handler" where
  "handle_packet cfg T packet c s =
     (case packet_kind packet of
        Some PING \<Rightarrow> handle_ping cfg T packet c s
      | Some AUTH_REQUEST \<Rightarrow> handle_auth cfg T packet c s
      | Some LIST \<Rightarrow> handle_list cfg T packet c s
      | Some UPLOAD_BEGIN \<Rightarrow> handle_upload_begin cfg T packet c s
      | Some UPLOAD_CHUNK \<Rightarrow> handle_upload_chunk cfg T packet c s
      | Some UPLOAD_END \<Rightarrow> handle_upload_end cfg T packet c s
      | Some DOWNLOAD_REQUEST \<Rightarrow> handle_download cfg T packet c s
      | Some DELETE_REQUEST \<Rightarrow> handle_delete cfg T packet c s
      | Some RENAME_REQUEST \<Rightarrow> handle_rename cfg T packet c s
      | Some MKDIR_REQUEST \<Rightarrow> handle_mkdir cfg T packet c s
      | Some RMDIR_REQUEST \<Rightarrow> handle_rmdir cfg T packet c s
      | Some DELETE_FILE \<Rightarrow> handle_legacy cfg T packet c s
      | Some RENAME_FILE \<Rightarrow> handle_legacy cfg T packet c s
      | Some MKDIR \<Rightarrow> handle_legacy cfg T packet c s
      | _ \<Rightarrow> Running (c, s))"

section \<open>The loops\<close>

text \<open>How a connection ends: the receive failed, an exception left \<open>handleClient\<close> (nothing
  catches it), undefined behaviour, or the fuel ran out.\<close>

datatype ('t, 'c) ended =
    Disconnected "'t conn" "'c server"
  | Uncaught "'t conn" "'c server"
  | Misbehaved
  | OutOfFuel

fun serve_loop ::
  "nat \<Rightarrow> 'c config \<Rightarrow> 't transport \<Rightarrow> 't conn \<Rightarrow> 'c server \<Rightarrow> ('t, 'c) ended" where
  "serve_loop 0 cfg T c s = OutOfFuel"
| "serve_loop (Suc fuel) cfg T c s =
     (case receivePacket T (cfg_alloc cfg) (chan c) of
        (RecvFailed, t) \<Rightarrow> Disconnected (c\<lparr>chan := t\<rparr>) s
      | (RecvThrows, t) \<Rightarrow> Uncaught (c\<lparr>chan := t\<rparr>) s
      | (Received packet, t) \<Rightarrow>
          (case handle_packet cfg T packet (c\<lparr>chan := t\<rparr>) s of
             Running (c', s') \<Rightarrow> serve_loop fuel cfg T c' s'
           | Undefined \<Rightarrow> Misbehaved))"

text \<open>What \<open>SSL_new\<close>, \<open>SSL_accept\<close> and \<open>SSL_get_peer_certificate\<close> came to for a connection.\<close>

datatype handshake = NoSsl | HandshakeFailed | NoCertificate | Verified

datatype ('t, 'c) client_end = Closed "'c server" | Served "('t, 'c) ended"

definition handleClient ::
  "nat \<Rightarrow> 'c config \<Rightarrow> 't transport \<Rightarrow> handshake \<Rightarrow> 't \<Rightarrow> 'c server \<Rightarrow> ('t, 'c) client_end" where
  "handleClient fuel cfg T hs t s =
     (case hs of
        NoSsl \<Rightarrow> Closed s
      | HandshakeFailed \<Rightarrow> Closed s
      | NoCertificate \<Rightarrow> Closed s
      | Verified \<Rightarrow>
          Served (serve_loop fuel cfg T
            \<lparr>chan = t, sess = new_session, cstate = CONNECTED_UNAUTHENTICATED\<rparr> s))"

text \<open>\<open>run\<close> over the results of \<open>accept\<close> (\<open>None\<close>: it failed); it goes on as long as the process
  lives.\<close>

fun run ::
  "nat \<Rightarrow> 'c config \<Rightarrow> 't transport \<Rightarrow> (handshake \<times> 't) option list \<Rightarrow> 'c server \<Rightarrow>
   'c server option" where
  "run fuel cfg T [] s = Some s"
| "run fuel cfg T (None # clients) s = run fuel cfg T clients s"
| "run fuel cfg T (Some (hs, t) # clients) s =
     (case handleClient fuel cfg T hs t s of
        Closed s' \<Rightarrow> run fuel cfg T clients s'
      | Served (Disconnected c s') \<Rightarrow> run fuel cfg T clients s'
      | Served _ \<Rightarrow> None)"

section \<open>The handlers\<close>

text \<open>No request parser of the server leaves its payload or throws.\<close>

lemma request_parsers_no_throw [safe_simps]:
  "parseAuthRequest p \<noteq> Throws" "parseListRequest p \<noteq> Throws" "parseUploadBegin p \<noteq> Throws"
  "parseUploadChunk p \<noteq> Throws" "parseUploadEnd p \<noteq> Throws" "parseDownloadRequest p \<noteq> Throws"
  "parseDeleteRequest p \<noteq> Throws" "parseRenameRequest p \<noteq> Throws" "parseMkdirRequest p \<noteq> Throws"
  "parseRmdirRequest p \<noteq> Throws"
  by (simp_all add: parse_aliases parseAuthRequest_def parseListRequest_def
      parseUploadBegin_def parseUploadChunk_def parseUploadEnd_def parseDownloadRequest_def
      parseRenameRequest_def read_defs Let_def)

lemma reply_simps [simp]:
  "sess (reply T p c) = sess c" "cstate (reply T p c) = cstate c"
  by (simp_all add: reply_def)

lemma put_uploads_simps [simp]:
  "srv_users (put_uploads r s) = srv_users s" "srv_draws (put_uploads r s) = srv_draws s"
  "srv_uploads (put_uploads r s) = fst r" "disk (srv_store (put_uploads r s)) = snd r"
  by (simp_all add: put_uploads_def)

text \<open>The contract of the cases that need a login: without one they send a fixed reply and touch
  nothing else; with one they keep the login, the user table and the pending input.\<close>

locale protected_handler =
  fixes H :: "('t, 'c) handler" and denial :: packet
  assumes denied: "\<not> session_authenticated (sess c) \<Longrightarrow> H cfg T p c s = Running (reply T denial c, s)"
    and keeps: "H cfg T p c s = Running (c', s') \<Longrightarrow>
      sess c' = sess c \<and> cstate c' = cstate c \<and> srv_users s' = srv_users s"
begin

lemma unauthenticated_frame:
  "H cfg T p c s = Running (c', s') \<Longrightarrow> \<not> session_authenticated (sess c) \<Longrightarrow>
    s' = s \<and> c' = reply T denial c"
  by (simp add: denied)

lemma acted: "H cfg T p c s = Running (c', s') \<Longrightarrow> s' \<noteq> s \<Longrightarrow> session_authenticated (sess c')"
  using keeps unauthenticated_frame by metis

end

interpretation list_handler: protected_handler handle_list "error ''Authentication required''"
  by unfold_locales
    (auto simp: handle_list_def split: if_splits parse.splits sum.splits)

interpretation upload_begin_handler: protected_handler handle_upload_begin "error ''Authentication required''"
  by unfold_locales
    (auto simp: handle_upload_begin_def split: if_splits parse.splits upload_result.splits prod.splits)

interpretation upload_chunk_handler: protected_handler handle_upload_chunk "error ''Authentication required''"
  by unfold_locales
    (auto simp: handle_upload_chunk_def split: if_splits parse.splits upload_result.splits prod.splits)

interpretation upload_end_handler: protected_handler handle_upload_end "error ''Authentication required''"
  by unfold_locales
    (auto simp: handle_upload_end_def split: if_splits parse.splits upload_result.splits prod.splits)

interpretation download_handler: protected_handler handle_download "error ''Authentication required''"
  by unfold_locales
    (auto simp: handle_download_def Let_def split: if_splits parse.splits sum.splits)

interpretation delete_handler: protected_handler handle_delete "deleteResponse False ''Authentication required''"
  by unfold_locales
    (auto simp: handle_delete_def split: if_splits parse.splits prod.splits)

interpretation rename_handler: protected_handler handle_rename "renameResponse False ''Authentication required''"
  by unfold_locales
    (auto simp: handle_rename_def split: if_splits parse.splits prod.splits)

interpretation mkdir_handler: protected_handler handle_mkdir "mkdirResponse False ''Authentication required''"
  by unfold_locales
    (auto simp: handle_mkdir_def split: if_splits parse.splits prod.splits)

interpretation rmdir_handler: protected_handler handle_rmdir "rmdirResponse False ''Authentication required''"
  by unfold_locales
    (auto simp: handle_rmdir_def split: if_splits parse.splits prod.splits)

interpretation legacy_handler: protected_handler handle_legacy "error ''Authentication required''"
  by unfold_locales (auto simp: handle_legacy_def split: if_splits)

text \<open>What the server answers to a client that has not logged in.\<close>

fun unauthenticated_reply :: "packet_type option \<Rightarrow> packet option" where
  "unauthenticated_reply (Some PING) = Some pong"
| "unauthenticated_reply (Some DELETE_REQUEST) = Some (deleteResponse False ''Authentication required'')"
| "unauthenticated_reply (Some RENAME_REQUEST) = Some (renameResponse False ''Authentication required'')"
| "unauthenticated_reply (Some MKDIR_REQUEST) = Some (mkdirResponse False ''Authentication required'')"
| "unauthenticated_reply (Some RMDIR_REQUEST) = Some (rmdirResponse False ''Authentication required'')"
| "unauthenticated_reply (Some k) =
     (if k \<in> {LIST, UPLOAD_BEGIN, UPLOAD_CHUNK, UPLOAD_END, DOWNLOAD_REQUEST, DELETE_FILE, RENAME_FILE,
              MKDIR}
      then Some (error ''Authentication required'') else None)"
| "unauthenticated_reply None = None"

lemma guarded_packet:
  assumes "\<not> session_authenticated (sess c)" and "packet_kind p \<noteq> Some AUTH_REQUEST"
  shows "handle_packet cfg T p c s =
    Running ((case unauthenticated_reply (packet_kind p) of Some r \<Rightarrow> reply T r c | None \<Rightarrow> c), s)"
proof (cases "packet_kind p")
  case (Some k)
  with assms show ?thesis
    by (cases k) (simp_all add: handle_packet_def handle_ping_def list_handler.denied
      upload_begin_handler.denied upload_chunk_handler.denied upload_end_handler.denied
      download_handler.denied delete_handler.denied rename_handler.denied mkdir_handler.denied
      rmdir_handler.denied legacy_handler.denied)
qed (simp add: handle_packet_def)

text \<open>C28. Authentication guard. Before a login, every packet except AUTH_REQUEST leaves the session and
  the server untouched and is answered with the fixed reply of its case, or with nothing.\<close>

theorem unauthenticated_packet:
  assumes "\<not> session_authenticated (sess c)" and "packet_kind p \<noteq> Some AUTH_REQUEST"
  shows "handle_packet cfg T p c s =
    Running ((case unauthenticated_reply (packet_kind p) of Some r \<Rightarrow> reply T r c | None \<Rightarrow> c), s)"
  by (rule guarded_packet [OF assms])

lemma handle_auth_cases:
  assumes "handle_auth cfg T p c s = Running (c', s')"
  obtains (login) u pw where "parseAuthRequest p = Parsed (u, pw)"
      "authenticate (cfg_evp cfg) (srv_users s) u pw"
      "sess c' = \<lparr>session_id = cfg_rng cfg (srv_draws s), session_username = u,
        session_authenticated = True\<rparr>"
      "cstate c' = AUTHENTICATED" "s' = s\<lparr>srv_draws := Suc (srv_draws s)\<rparr>"
  | (refused) "sess c' = sess c" "cstate c' = cstate c" "s' = s"
  using assms
  by (auto simp: handle_auth_def generateSessionId_def Let_def split: parse.splits if_splits)

lemma handle_packet_cases:
  assumes "handle_packet cfg T p c s = Running (c', s')"
  obtains (auth) "packet_kind p = Some AUTH_REQUEST" "handle_auth cfg T p c s = Running (c', s')"
  | (other) "packet_kind p \<noteq> Some AUTH_REQUEST" "sess c' = sess c" "cstate c' = cstate c"
      "srv_users s' = srv_users s" "session_authenticated (sess c) \<or> s' = s"
proof (cases "packet_kind p = Some AUTH_REQUEST")
  case True
  with assms show ?thesis by (intro auth) (simp_all add: handle_packet_def)
next
  case False
  note k = list_handler.keeps upload_begin_handler.keeps upload_chunk_handler.keeps
    upload_end_handler.keeps download_handler.keeps delete_handler.keeps rename_handler.keeps
    mkdir_handler.keeps rmdir_handler.keeps legacy_handler.keeps
  have "sess c' = sess c \<and> cstate c' = cstate c \<and> srv_users s' = srv_users s"
    using assms False
    by (auto simp: handle_packet_def handle_ping_def dest: k split: option.splits packet_type.splits)
  moreover have "session_authenticated (sess c) \<or> s' = s"
    using guarded_packet [OF _ False, of c cfg T s] assms by auto
  ultimately show ?thesis
    using False by (intro other) auto
qed

end
