(* ===== verification/Path_Safety.thy ===== *)
theory Path_Safety
  imports Delete_Service Directory_Service Rename_Service Samples "HOL-Library.Multiset"
begin

text \<open>
  What \<open>FileService::resolvePath\<close> guarantees and what it does not: the shape of every path it
  accepts, the conditions under which such a path is inside the storage root, and the ways in which
  its textual prefix check and the services' guards for the root fall short of that.
\<close>

section \<open>Client paths\<close>

lemma split_slash_name: "no_slash a \<Longrightarrow> split_slash a = [a]"
  by (induction a) (auto simp: no_slash_def)

lemma split_slash_append: "no_slash a \<Longrightarrow> split_slash (a @ CHR ''/'' # s) = a # split_slash s"
  by (induction a) (auto simp: no_slash_def)

lemma no_slash_ends: "no_slash a \<Longrightarrow> a \<noteq> [] \<Longrightarrow> hd a \<noteq> CHR ''/'' \<and> last a \<noteq> CHR ''/''"
  unfolding no_slash_def using hd_in_set last_in_set by metis

lemma path_of_name: "no_slash a \<Longrightarrow> a \<noteq> [] \<Longrightarrow> path_of a = Path False [a]"
  using no_slash_ends [of a] by (simp add: path_of_def split_slash_name)

lemma path_of_two:
  "no_slash a \<Longrightarrow> a \<noteq> [] \<Longrightarrow> no_slash b \<Longrightarrow> b \<noteq> [] \<Longrightarrow> path_of (a @ CHR ''/'' # b) = Path False [a, b]"
  using no_slash_ends [of a] no_slash_ends [of b]
  by (simp add: path_of_def split_slash_name split_slash_append)

lemma strip_leading_relative: "\<not> is_absolute (path_of (strip_leading s))"
  using hd_dropWhile [of "\<lambda>c. c = CHR ''/'' \<or> c = CHR 0x5C" s]
  by (auto simp: path_of_def strip_leading_def Let_def)

lemma strip_leading_id: "s \<noteq> [] \<Longrightarrow> hd s \<noteq> CHR ''/'' \<Longrightarrow> hd s \<noteq> CHR 0x5C \<Longrightarrow> strip_leading s = s"
  by (cases s) (auto simp: strip_leading_def)

text \<open>The storage root that the server starts with: a canonical directory.\<close>

definition good_root :: "fs \<Rightarrow> apath \<Rightarrow> bool" where
  "good_root f r \<longleftrightarrow> r \<noteq> [] \<and> canonical_at f r \<and> node_at f r = Some Dir"

lemma good_rootD:
  assumes "wf_fs f" and "good_root f r"
  shows "r \<noteq> []" "canonical_at f r" "node_at f r = Some Dir" "list_all valid_name r" "last r \<noteq> []"
    "lexically_normal r = r"
proof -
  show "r \<noteq> []" "canonical_at f r" "node_at f r = Some Dir"
    using assms(2) by (auto simp: good_root_def)
  then show v: "list_all valid_name r"
    using wf_fs_valid [OF assms(1)] by blast
  then show "last r \<noteq> []"
    using \<open>r \<noteq> []\<close> by (auto simp: list_all_iff valid_name_def dest: last_in_set)
  show "lexically_normal r = r"
    using v by (simp add: lexically_normal_id normal_path_def)
qed

text \<open>The path that a client's string is first turned into.\<close>

lemma target_path:
  assumes "wf_fs f" and "good_root f r"
  shows "path_append r (path_of (strip_leading s)) =
    r @ (let es = elements (path_of (strip_leading s)) in if es = [] then [[]] else es)"
  using good_rootD [OF assms] strip_leading_relative [of s]
  by (simp add: path_append_def Let_def)

lemma target_no_slash:
  assumes "wf_fs f" and "good_root f r"
  shows "list_all no_slash (path_append r (path_of (strip_leading s)))"
  using good_rootD(4) [OF assms] path_of_no_slash [of "strip_leading s"]
  by (auto simp: target_path [OF assms] Let_def list_all_iff valid_name_no_slash) (simp add: no_slash_def)

lemma resolvePath_Inr:
  assumes "wf_fs f" and "good_root f rt" and "resolvePath rt f s = Inr r"
  shows "weakly_canonical f (path_append rt (path_of (strip_leading s))) = Inr r"
    and "prefix (path_string rt) (path_string r)" and "normal_path r"
proof -
  show w: "weakly_canonical f (path_append rt (path_of (strip_leading s))) = Inr r"
    using assms(3) by (auto simp: resolvePath_def Let_def split: sum.splits if_splits)
  show n: "normal_path r"
    using weakly_canonical_normal [OF assms(1) w target_no_slash [OF assms(1,2)]] .
  show "prefix (path_string rt) (path_string r)"
    using assms(3) w good_rootD(6) [OF assms(1,2)] lexically_normal_id [OF n]
    by (auto simp: resolvePath_def Let_def split: if_splits)
qed

lemma normal_path_no_slash: "normal_path r \<Longrightarrow> list_all no_slash r"
  by (auto simp: normal_path_def list_all_iff valid_name_no_slash) (simp add: no_slash_def)

lemma prefix_path_string:
  assumes "list_all no_slash a" and "list_all no_slash r" and "a \<noteq> []" and "last a \<noteq> []"
  shows "prefix (path_string a) (path_string r) \<longleftrightarrow>
    (\<exists>ext rest. r = butlast a @ (last a @ ext) # rest)"
proof
  assume p: "prefix (path_string a) (path_string r)"
  have "r \<noteq> []"
  proof
    assume "r = []"
    then have "length (path_string a) \<le> 1"
      using p prefix_length_le by (fastforce simp: path_string_def)
    moreover have "length (path_string a) \<ge> 2"
      using assms(3,4) by (cases a rule: join_slash.cases) (auto simp: path_string_def Suc_le_eq)
    ultimately show False by simp
  qed
  then show "\<exists>ext rest. r = butlast a @ (last a @ ext) # rest"
    using p assms prefix_slashed [of "butlast a" "last a" r] by (simp add: path_string_concat)
next
  assume "\<exists>ext rest. r = butlast a @ (last a @ ext) # rest"
  then obtain ext rest where r: "r = butlast a @ (last a @ ext) # rest" by blast
  then have "path_string r = slashed (butlast a @ (last a @ ext) # rest)"
    by (simp only: path_string_concat [of r]) (simp add: path_string_concat)
  moreover have "path_string a = slashed (butlast a @ [last a])"
    using assms(3) path_string_concat [of a] append_butlast_last_id [of a] by presburger
  ultimately show "prefix (path_string a) (path_string r)"
    by (simp only: prefix_slashed_conv)
qed


lemma sample_good_root: "good_root sample_fs sample_root"
  using sample_fs_canonical [of sample_root Dir]
  by (simp add: good_root_def) (simp add: sample_root_def sample_fs_def node_at_def)

lemma sample_a: "resolvePath sample_root sample_fs ''a'' = Inr [''srv'', ''data'', ''a'']"
  by (simp add: sample_eval)

text \<open>Every path that resolvePath accepts is normalised and has the storage root as a textual prefix:
  the parent of the root, then an element that starts with the root's last name, then anything.\<close>

theorem resolvePath_shape:
  assumes "wf_fs f" and "good_root f rt" and "resolvePath rt f s = Inr r"
  shows "normal_path r \<and> (\<exists>ext rest. r = butlast rt @ (last rt @ ext) # rest)"
  using resolvePath_Inr [OF assms] good_rootD [OF assms(1,2)]
    prefix_path_string [of rt r] normal_path_no_slash [of r]
  by (auto simp: list_all_iff valid_name_no_slash)

lemma resolvePath_shape_witness:
  "\<exists>ext rest. [''srv'', ''data'', ''a''] = butlast sample_root @ (last sample_root @ ext) # rest"
  using resolvePath_shape [OF sample_fs_wf sample_good_root sample_a] by blast

section \<open>Paths that stay below the root\<close>

lemma walk_append:
  assumes "wf_fs f" and "canonical_at f (p @ r)" and "node_at f (p @ r) = Some Dir"
  shows "walk k f p (r @ cs) = walk k f (p @ r) cs"
  using assms(2,3)
proof (induction r arbitrary: p)
  case Nil
  then show ?case by simp
next
  case (Cons c r)
  have search: "denied f SearchDir p = None"
    using Cons.prems by (auto simp: canonical_at_def strict_prefix_def)
  have c: "valid_name c"
    using wf_fs_valid [OF assms(1) Cons.prems(2)] by simp
  have "node_at f (p @ [c]) = Some Dir"
    using wf_fs_prefix_dir [OF assms(1), of "p @ [c]" r Dir] Cons.prems by (cases "r = []") auto
  with Cons.IH [of "p @ [c]"] Cons.prems search c show ?case
    by (simp add: valid_name_def)
qed

lemma leading_elements_canonical:
  assumes "wf_fs f" and "canonical_at f (p @ r)" and "node_at f (p @ r) = Some Dir"
  shows "leading_elements f p (r @ cs) = leading_elements f (p @ r) cs"
  using assms(2,3)
proof (induction r arbitrary: p)
  case (Cons c r)
  have "canonical_at f (p @ [c])" "node_at f (p @ [c]) = Some Dir"
  proof -
    show n: "node_at f (p @ [c]) = Some Dir"
      using wf_fs_prefix_dir [OF assms(1), of "p @ [c]" r Dir] Cons.prems by (cases "r = []") auto
    have "strict_prefix x (p @ c # r)" if "strict_prefix x (p @ [c])" for x
      using that prefix_order.less_le_trans [of x "p @ [c]" "p @ c # r"] by (simp add: prefix_def)
    then show "canonical_at f (p @ [c])"
      using n Cons.prems(1) by (auto simp: canonical_at_def)
  qed
  then show ?case
    using Cons.IH [of "p @ [c]"] Cons.prems status_canonical_at [OF assms(1), of "p @ [c]" Dir] by simp
qed simp

definition no_links_below :: "fs \<Rightarrow> apath \<Rightarrow> bool" where
  "no_links_below f r \<longleftrightarrow> (\<forall>(p, n) \<in> set (tree f). prefix r p \<longrightarrow> (\<forall>t. n \<noteq> Symlink t))"

lemma no_links_belowD: "no_links_below f r \<Longrightarrow> prefix r p \<Longrightarrow> node_at f p \<noteq> Some (Symlink t)"
  by (cases "p = []") (auto simp: no_links_below_def dest!: node_at_in_tree)

lemma walk_down:
  assumes "no_links_below f r" and "prefix r cur" and "walk k f cur cs = Inr q" and "''..'' \<notin> set cs"
  shows "prefix r q"
  using assms(2-)
proof (induction cs arbitrary: cur)
  case (Cons c cs)
  have s: "denied f SearchDir cur = None" "c \<noteq> ''..''"
    using Cons.prems by (auto split: option.splits)
  show ?case
  proof (cases "c = [] \<or> c = ''.''")
    case True
    with Cons s show ?thesis by auto
  next
    case False
    then obtain n where n: "node_at f (cur @ [c]) = Some n"
      using Cons.prems s by (auto split: option.splits)
    moreover have "prefix r (cur @ [c])"
      using Cons.prems(1) by simp
    moreover from this have "n \<noteq> Symlink t" for t
      using no_links_belowD [OF assms(1)] n by blast
    ultimately show ?thesis
      using Cons.IH [of "cur @ [c]"] Cons.prems s False by (cases n) (auto split: if_splits)
  qed
qed simp

lemma normal_loop_down:
  "''..'' \<notin> set cs \<Longrightarrow> st \<noteq> [] \<Longrightarrow> prefix (rev st) (normal_loop st cs)"
proof (induction st cs rule: normal_loop.induct)
  case (3 st c d cs)
  have "prefix (rev st) (normal_loop (c # st) (d # cs))" if "prefix (rev (c # st)) (normal_loop (c # st) (d # cs))"
    using that prefix_order.trans [of "rev st" "rev (c # st)"] by simp
  with 3 show ?case by auto
qed (auto simp: as_directory_def)

lemma normal_loop_append:
  "list_all valid_name p \<Longrightarrow> xs \<noteq> [] \<Longrightarrow> normal_loop st (p @ xs) = normal_loop (rev p @ st) xs"
proof (induction p arbitrary: st)
  case (Cons c p)
  obtain d ds where d: "p @ xs = d # ds"
    using Cons.prems by (cases "p @ xs") auto
  have "c \<noteq> []" "c \<noteq> ''.''" "c \<noteq> ''..''"
    using Cons.prems by (simp_all add: valid_name_def)
  then have "normal_loop st (c # p @ xs) = normal_loop (c # st) (p @ xs)"
    unfolding d by (subst normal_loop.simps) (simp only: simp_thms if_False)
  with Cons show ?case by simp
qed simp

lemma leading_elements_prefix: "leading_elements f pre cs = Inr (q, rest) \<Longrightarrow> prefix pre q"
  by (induction f pre cs arbitrary: q rest rule: leading_elements.induct)
    (auto dest: append_prefixD split: file_status.splits)

lemma weakly_canonical_below:
  assumes "wf_fs f" and "good_root f rt" and "no_links_below f rt" and "''..'' \<notin> set cs"
    and "weakly_canonical f (rt @ cs) = Inr r"
  shows "prefix rt r"
proof -
  note g = good_rootD [OF assms(1,2)]
  have walk_rt: "walk k f [] (rt @ ds) = walk k f rt ds" for k ds
    using walk_append [OF assms(1), of "[]" rt] g by simp
  have down: "prefix rt q" if "walk k f [] (rt @ ds) = Inr q" "''..'' \<notin> set ds" for k ds q
    using walk_down [OF assms(3), of rt k ds q] that walk_rt by simp
  show ?thesis
    using assms(1,5)
  proof (cases rule: weakly_canonical_cases)
    case (existing n)
    then have "walk max_links f [] (rt @ cs) = Inr r"
      by (auto simp: status_def split: sum.splits option.splits if_splits)
    then show ?thesis
      using down assms(4) by blast
  next
    case (missing q rest)
    then obtain pre rest' q' where *: "leading_elements f [] (rt @ cs) = Inr (pre, rest')"
      "walk max_links f [] pre = Inr q'" "r = lexically_normal (q' @ rest')"
      using assms(5) by (fastforce simp: weakly_canonical_def split: sum.splits prod.splits)
    have l: "leading_elements f rt cs = Inr (pre, rest')"
      using *(1) leading_elements_canonical [OF assms(1), of "[]" rt cs] g by simp
    then obtain ds where ds: "pre = rt @ ds" "cs = ds @ rest'"
      using leading_elements_prefix [OF l] leading_elements_split [OF l] by (auto simp: prefix_def)
    then have q': "prefix rt q'"
      using down [of max_links ds q'] *(2) assms(4) by simp
    have "canonical_at f q'"
      using walk_canonical [OF assms(1) *(2)] by simp
    then have "list_all valid_name q'"
      using wf_fs_valid [OF assms(1)] by (auto simp: canonical_at_def)
    then have "prefix q' r"
      using *(3) normal_loop_down [of rest' "rev q'"] ds(2) assms(4) g(1) q' normal_loop_valid [of q' "[]"]
        normal_loop_append [of q' rest' "[]"]
      by (cases "q' = []"; cases "rest' = []") (auto simp: lexically_normal_def)
    with q' show ?thesis
      using prefix_order.trans by blast
  qed
qed

text \<open>If no symbolic link lies below the storage root and the client's string has no \<open>..\<close> element, an
  accepted path is the root or lies below it.\<close>

theorem resolvePath_confined:
  assumes "wf_fs f" and "good_root f rt" and "no_links_below f rt"
    and "''..'' \<notin> set (split_slash (strip_leading s))" and "resolvePath rt f s = Inr r"
  shows "prefix rt r"
proof -
  have "''..'' \<notin> set (elements (path_of (strip_leading s)))"
    using assms(4) by (auto simp: path_of_def Let_def)
  then have "''..'' \<notin> set (let es = elements (path_of (strip_leading s)) in if es = [] then [[]] else es)"
    by (simp add: Let_def)
  from weakly_canonical_below [OF assms(1-3) this] show ?thesis
    using resolvePath_Inr(1) [OF assms(1,2,5)] unfolding target_path [OF assms(1,2)] by blast
qed

lemma sample_no_links_below: "no_links_below sample_fs r"
  by (simp add: no_links_below_def sample_fs_def)

lemma resolvePath_confined_witness: "prefix sample_root [''srv'', ''data'', ''a'']"
  by (rule resolvePath_confined [OF sample_fs_wf sample_good_root sample_no_links_below _ sample_a])
    (simp add: strip_leading_def)

lemma sibling_accepted:
  assumes "wf_fs f" and "good_root f rt" and "denied f SearchDir rt = None"
    and "valid_name (last rt @ ext)" and "node_at f (butlast rt @ [last rt @ ext]) = None"
  shows "resolvePath rt f (''../'' @ last rt @ ext) = Inr (butlast rt @ [last rt @ ext])"
proof -
  note g = good_rootD [OF assms(1,2)]
  let ?n = "last rt @ ext" and ?up = "butlast rt"
  have n: "no_slash ?n" "?n \<noteq> []"
    using assms(4) by (auto simp: valid_name_no_slash) (simp add: valid_name_def)
  have "path_of (''..'' @ CHR ''/'' # ?n) = Path False [''..'', ?n]"
    using n by (intro path_of_two) (simp_all add: no_slash_def)
  then have target: "path_append rt (path_of (strip_leading (''../'' @ ?n))) = rt @ [''..'', ?n]"
    using g by (simp add: path_append_def strip_leading_id)
  have up: "canonical_at f ?up" "node_at f ?up = Some Dir"
    using canonical_at_butlast [OF assms(1) g(2)] by simp_all
  have up_search: "denied f SearchDir ?up = None"
  proof -
    have "strict_prefix ?up rt"
      using g(1) by (metis append_butlast_last_id strict_prefixI')
    then show ?thesis
      using g(2) by (simp add: canonical_at_def)
  qed
  have walk_up: "walk k f [] (rt @ ''..'' # cs) = walk k f ?up cs" for k cs
    using walk_append [OF assms(1), of "[]" rt] g assms(3) by simp
  have miss: "status f (rt @ [''..'', ?n]) = NotFound"
    using assms(5) n(2) assms(4) up_search g(5) by (auto simp: status_def walk_up valid_name_def)
  have here: "status f (rt @ [''..'']) = Found ?up Dir"
    using up by (simp add: status_def walk_up)
  have "leading_elements f [] (rt @ [''..'', ?n]) = Inr (rt @ [''..''], [?n])"
    using leading_elements_canonical [OF assms(1), of "[]" rt] g here miss by simp
  then have "weakly_canonical f (rt @ [''..'', ?n]) = Inr (lexically_normal (?up @ [?n]))"
    by (simp add: weakly_canonical_def miss walk_up)
  moreover have v: "list_all valid_name (?up @ [?n])"
    using assms(4) g(4) by (auto simp: list_all_iff dest: in_set_butlastD)
  then have norm: "lexically_normal (?up @ [?n]) = ?up @ [?n]"
    by (simp add: lexically_normal_id normal_path_def)
  moreover have "prefix (path_string rt) (path_string (?up @ [?n]))"
    using prefix_path_string [of rt "?up @ [?n]"] g v by (auto simp: list_all_iff valid_name_no_slash)
  ultimately show ?thesis
    by (simp only: resolvePath_def Let_def target sum.case norm g(6) not_True_eq_False if_False)
qed

text \<open>The prefix check has no separator: a missing sibling of the root whose name extends the root's
  name is accepted.\<close>

theorem resolvePath_sibling_escape:
  assumes "wf_fs f" and "good_root f rt" and "denied f SearchDir rt = None"
    and "valid_name (last rt @ ext)" and "node_at f (butlast rt @ [last rt @ ext]) = None"
  shows "resolvePath rt f (''../'' @ last rt @ ext) = Inr (butlast rt @ [last rt @ ext])"
  by (rule sibling_accepted [OF assms])

lemma resolvePath_sibling_escape_witness:
  "resolvePath sample_root sample_fs ''../data2/'' = Inr [''srv'', ''data2''] \<or>
   resolvePath sample_root sample_fs ''../data2'' = Inr [''srv'', ''data2'']"
  using resolvePath_sibling_escape [OF sample_fs_wf sample_good_root, of "''2''"]
  by (simp add: sample_root_def sample_fs_def valid_name_def node_at_def)

lemma resolvePath_dotdot:
  assumes "wf_fs f" and "good_root f rt" and "denied f SearchDir rt = None"
    and "valid_name x" and "hd x \<noteq> CHR 0x5C" and "node_at f (rt @ [x]) = None"
  shows "resolvePath rt f (x @ ''/..'') = Inr (rt @ [[]])"
proof -
  note g = good_rootD [OF assms(1,2)]
  have x: "no_slash x" "x \<noteq> []" "hd x \<noteq> CHR ''/''"
    using assms(4) no_slash_ends [of x] by (auto simp: valid_name_no_slash valid_name_def)
  have "path_of (x @ CHR ''/'' # ''..'') = Path False [x, ''..'']"
    using x by (intro path_of_two) (simp_all add: no_slash_def)
  then have target: "path_append rt (path_of (strip_leading (x @ ''/..''))) = rt @ [x, ''..'']"
    using g x assms(5) by (simp add: path_append_def strip_leading_id)
  have walk_rt: "walk k f [] (rt @ cs) = walk k f rt cs" for k cs
    using walk_append [OF assms(1), of "[]" rt] g by simp
  have miss: "status f (rt @ x # cs) = NotFound" for cs
    using assms(3,4,6) by (simp add: status_def walk_rt valid_name_def)
  have "leading_elements f [] (rt @ [x, ''..'']) = Inr (rt, [x, ''..''])"
    using leading_elements_canonical [OF assms(1), of "[]" rt] g miss [of "[]"] by simp
  then have "weakly_canonical f (rt @ [x, ''..'']) = Inr (lexically_normal (rt @ [x, ''..'']))"
    using walk_rt [of max_links "[]"] by (simp add: weakly_canonical_def miss)
  moreover have "lexically_normal (rt @ [x, ''..'']) = rt @ [[]]"
    using normal_loop_append [OF g(4), of "[x, ''..'']" "[]"] assms(4) g(1)
    by (simp add: lexically_normal_def valid_name_def as_directory_def)
  moreover have "lexically_normal (rt @ [[]]) = rt @ [[]]"
    using g by (intro lexically_normal_id) (auto simp: normal_path_def)
  moreover have "prefix (path_string rt) (path_string (rt @ [[]]))"
    using g(1) by (simp add: path_string_concat prefix_def)
  ultimately show ?thesis
    by (simp add: resolvePath_def Let_def target g(6))
qed

lemma status_trailing:
  assumes "wf_fs f" and "canonical_at f q" and "node_at f q = Some Dir" and "denied f SearchDir q = None"
  shows "status f (q @ [[]]) = Found q Dir"
  using walk_append [OF assms(1), of "[]" q max_links "[[]]"] assms by (simp add: status_def)

text \<open>The guard for the root compares paths element by element, so a name of a missing entry followed by
  \<open>/..\<close> resolves to the root with a trailing separator, passes the guard, and deletes
  an empty storage root.\<close>

theorem deletePath_removes_root:
  assumes "wf_fs (disk s)" and "good_root (disk s) (root env)"
    and "denied (disk s) SearchDir (root env) = None" and "denied (disk s) ReadDir (root env) = None"
    and "denied (disk s) Unlink (root env) = None" and "children (disk s) (root env) = []"
    and "valid_name x" and "hd x \<noteq> CHR 0x5C"
  shows "fst (deletePath env s (x @ ''/..'') user) = (True, ''Deleted successfully'') \<and>
    node_at (disk (snd (deletePath env s (x @ ''/..'') user))) (root env) = None"
proof -
  let ?f = "disk s" and ?rt = "root env"
  note g = good_rootD [OF assms(1,2)]
  have "node_at ?f (?rt @ [x]) = None"
    using children_Nil_below [OF assms(1,6), of "[x]"] by (cases "node_at ?f (?rt @ [x])") auto
  note r = resolvePath_dotdot [OF assms(1-3,7,8) this]
  have st: "status ?f (?rt @ [[]]) = Found ?rt Dir"
    using status_trailing [OF assms(1) g(2,3) assms(3)] .
  have "fs_remove ?f (?rt @ [[]]) = (True, None, del_entry ?rt ?f)"
    using locate_trailing [OF assms(1) g(2,1)] g(3) assms(5,6) by (simp add: fs_remove_def)
  moreover have "x @ ''/..'' \<noteq> []" "x @ ''/..'' \<noteq> ''/''" "x @ ''/..'' \<noteq> ''.''"
    using assms(7) by (auto simp: valid_name_def append_eq_Cons_conv)
  ultimately show ?thesis
    using r st assms(4,6) g(1)
    by (simp add: deletePath_def Let_def fs_exists_def is_directory_def list_dir_def delete_logAudit_def
        node_at_del_entry)
qed

lemma deletePath_removes_root_witness:
  "fst (deletePath (sample_env\<lparr>root := [''srv'', ''data'', ''b'']\<rparr>)
      (sample_store\<lparr>disk := del_entry [''srv'', ''data'', ''b'', ''c''] sample_fs\<rparr>) ''x/..'' ''u'') =
    (True, ''Deleted successfully'')"
  using deletePath_removes_root [of "sample_store\<lparr>disk := del_entry [''srv'', ''data'', ''b'', ''c''] sample_fs\<rparr>"
      "sample_env\<lparr>root := [''srv'', ''data'', ''b'']\<rparr>" "''x''" "''u''"]
  by (simp add: sample_fs_def del_entry_def wf_fs_def node_at_def valid_name_def good_root_def
      canonical_at_def children_def)

text \<open>The root under a name that its siblings could have: what the rename of the root looks up.\<close>

lemma strict_prefix_butlast: "r \<noteq> [] \<Longrightarrow> strict_prefix (butlast r) r"
  by (metis append_butlast_last_id strict_prefixI')

lemma sibling_facts:
  assumes "wf_fs f" and "good_root f rt" and "valid_name (last rt @ ext)" and "ext \<noteq> []"
    and "node_at f (butlast rt @ [last rt @ ext]) = None"
  defines "dst \<equiv> butlast rt @ [last rt @ ext]"
  shows "dst \<noteq> rt" and "\<not> prefix rt dst" and "\<not> prefix dst (rt @ p)"
    and "status f dst = NotFound" and "locate f dst = Inr (dst, False)"
    and "\<not> prefix (path_string (lexically_normal (rt @ [[]])) @ ''/'') (path_string (lexically_normal dst))"
proof -
  note g = good_rootD [OF assms(1,2)]
  have "\<not> prefix (butlast rt @ [last rt]) dst" "\<not> prefix dst ((butlast rt @ [last rt]) @ p)"
    using assms(4) by (simp_all add: dst_def)
  then show np: "\<not> prefix rt dst" "\<not> prefix dst (rt @ p)"
    using g(1) by simp_all
  then show "dst \<noteq> rt" by auto
  have up: "canonical_at f (butlast rt)" "node_at f (butlast rt) = Some Dir" "denied f SearchDir (butlast rt) = None"
    using canonical_at_butlast [OF assms(1) g(2)] g(2) strict_prefix_butlast [OF g(1)] by (auto simp: canonical_at_def)
  have walk_up: "walk max_links f [] (butlast rt @ cs) = walk max_links f (butlast rt) cs" for cs
    using walk_append [OF assms(1), of "[]" "butlast rt"] up by simp
  have v: "last rt @ ext \<noteq> []" "last rt @ ext \<noteq> ''.''" "last rt @ ext \<noteq> ''..''"
    using assms(3) unfolding valid_name_def by blast+
  show "status f dst = NotFound"
    using up(3) assms(4,5) v by (simp add: status_def walk_up dst_def)
  show "locate f dst = Inr (dst, False)"
    using walk_up [of "[]"] up(2,3) v assms(4) by (simp add: locate_def locate_entry_def dst_def)
  have "list_all valid_name dst"
    using g(4) assms(3) by (auto simp: dst_def list_all_iff dest: in_set_butlastD)
  then have n: "lexically_normal dst = dst" "lexically_normal (rt @ [[]]) = rt @ [[]]"
    using g(1,4) by (auto intro!: lexically_normal_id simp: normal_path_def)
  have "path_string (butlast rt @ [last rt]) @ ext = path_string dst"
    by (simp add: path_string_concat dst_def)
  then have "path_string dst = path_string rt @ ext"
    using g(1) by simp
  moreover have "path_string (rt @ [[]]) @ ''/'' = path_string rt @ ''//''"
    using g(1) by (simp add: path_string_concat)
  moreover have "\<not> prefix ''//'' ext"
    using assms(3) by (auto simp: valid_name_def prefix_def)
  ultimately show "\<not> prefix (path_string (lexically_normal (rt @ [[]])) @ ''/'') (path_string (lexically_normal dst))"
    unfolding n by simp
qed

text \<open>C35. The guard for the root compares paths element by element, so a missing name followed by
  \<open>/..\<close> resolves to the root with a trailing separator and passes it: together with
  the prefix check that accepts siblings, a client can rename the whole storage root, with
  everything in it, to a sibling of its choice; afterwards nothing is left at the root.\<close>

theorem renamePath_moves_root:
  assumes "wf_fs (disk s)" and "good_root (disk s) (root env)"
    and "denied (disk s) SearchDir (root env) = None" and "denied (disk s) Move (root env) = None"
    and "valid_name x" and "hd x \<noteq> CHR 0x5C" and "node_at (disk s) (root env @ [x]) = None"
    and "valid_name (last (root env) @ ext)" and "ext \<noteq> []"
    and "node_at (disk s) (butlast (root env) @ [last (root env) @ ext]) = None"
    and "renamePath env s (x @ ''/..'') (''../'' @ last (root env) @ ext) user = (r, s')"
  shows "r = (True, ''Renamed successfully'') \<and>
    (\<forall>p. node_at (disk s') (root env @ p) = None \<and>
      node_at (disk s') ((butlast (root env) @ [last (root env) @ ext]) @ p) = node_at (disk s) (root env @ p))"
proof -
  let ?f = "disk s" and ?rt = "root env"
  define dst where "dst = butlast ?rt @ [last ?rt @ ext]"
  note g = good_rootD [OF assms(1,2)]
  note d = sibling_facts [OF assms(1,2,8-10), folded dst_def]
  have paths: "resolvePath ?rt ?f (x @ ''/..'') = Inr (?rt @ [[]])"
    "resolvePath ?rt ?f (''../'' @ last ?rt @ ext) = Inr dst"
    unfolding dst_def by (rule resolvePath_dotdot [OF assms(1-3,5-7)], rule sibling_accepted [OF assms(1-3,8,10)])
  have parent: "status ?f (parent_path dst) = Found (butlast ?rt) Dir"
    using canonical_at_butlast [OF assms(1) g(2)] status_canonical_at [OF assms(1)] by (simp add: dst_def parent_path_def)
  have none: "node_at ?f dst = None"
    using assms(10) by (simp add: dst_def)
  have ren: "fs_rename ?f (?rt @ [[]]) dst = Inr (move_entries ?rt dst (del_entry dst ?f))"
    using locate_trailing [OF assms(1) g(2,1)] g(3) d(1,2,5) assms(4) none by (simp add: fs_rename_def replace_error_def)
  have "renamePath env s (x @ ''/..'') (''../'' @ last ?rt @ ext) user =
      ((True, ''Renamed successfully''),
       rename_logAudit env user (x @ ''/..'') (''../'' @ last ?rt @ ext) ''SUCCESS'' []
         (s\<lparr>disk := move_entries ?rt dst (del_entry dst ?f)\<rparr>))"
    using paths d(1,4,6) status_trailing [OF assms(1) g(2,3) assms(3)] parent ren assms(5)
    by (simp add: renamePath_def Let_def fs_exists_def append_eq_Cons_conv valid_name_def)
  moreover have "rename_target ?f ?rt dst"
    using rename_target_leaf [OF assms(1), of Dir dst ?rt] g(1) d(2) none by (simp add: replace_error_def dst_def)
  ultimately show ?thesis
    using assms(11) d(3) unfolding dst_def [symmetric]
    by (auto simp: rename_logAudit_def node_at_moved [OF assms(1)])
qed

lemma renamePath_moves_root_witness:
  "node_at (disk (snd (renamePath sample_env sample_store ''x/..'' ''../data2'' ''u''))) [''srv'', ''data''] = None \<and>
   node_at (disk (snd (renamePath sample_env sample_store ''x/..'' ''../data2'' ''u''))) [''srv'', ''data2'', ''a''] = Some (File 0)"
proof -
  obtain r s' where r: "renamePath sample_env sample_store ''x/..'' ''../data2'' ''u'' = (r, s')" by (metis surj_pair)
  have "\<forall>p. node_at (disk s') (sample_root @ p) = None \<and> node_at (disk s') ([''srv'', ''data2''] @ p) = node_at sample_fs (sample_root @ p)"
    using renamePath_moves_root [of sample_store sample_env "''x''" "''2''" "''u''" r s'] r sample_fs_wf sample_good_root
    by (simp add: sample_root_def sample_fs_def valid_name_def node_at_def)
  from spec [OF this, of "[]"] spec [OF this, of "[''a'']"] r show ?thesis
    by (simp add: sample_root_def sample_fs_def node_at_def)
qed



end
