(* ===== verification/Storage_Operations.thy ===== *)
theory Storage_Operations
  imports Path_Safety
begin

text \<open>
  What the delete, directory and rename services do to the storage, stated on the abstract view of
  a disk: the map \<open>node_at\<close> from locations to nodes, and the contents of the inodes.
\<close>

section \<open>The audit log\<close>

definition logged :: "service_env \<Rightarrow> string \<Rightarrow> store \<Rightarrow> store \<Rightarrow> bool" where
  "logged env line s s' \<longleftrightarrow> audit s' = audit s @ (if log_opens env then [line] else [])"

lemma audit_disk_update [simp]: "audit (s\<lparr>disk := f\<rparr>) = audit s"
  by simp

text \<open>The locations of the entries that a resolved path names.\<close>

lemma resolved_no_slash:
  "wf_fs f \<Longrightarrow> good_root f rt \<Longrightarrow> resolvePath rt f s = Inr r \<Longrightarrow> list_all no_slash r"
  using resolvePath_Inr(3) normal_path_no_slash by blast


text \<open>removeDirectory, both outcomes: on success exactly the entry of an empty directory disappears and
  is logged; on failure the disk is unchanged and the failure is logged.\<close>

theorem removeDirectory_spec:
  assumes "wf_fs (disk s)" and "good_root (disk s) (root env)"
    and "removeDirectory env s path user = ((ok, msg), s')"
  shows "if ok
    then msg = ''Directory removed'' \<and>
      logged env (audit_line env user ''RMDIR'' path ''SUCCESS'' []) s s' \<and>
      (\<exists>r q b n. resolvePath (root env) (disk s) path = Inr r \<and> r \<noteq> root env \<and>
        is_directory (disk s) r \<and> locate (disk s) r = Inr (q, b) \<and> node_at (disk s) q = Some n \<and>
        (n = Dir \<longrightarrow> children (disk s) q = []) \<and>
        node_at (disk s') = (node_at (disk s))(q := None) \<and> content (disk s') = content (disk s) \<and>
        wf_fs (disk s'))
    else disk s' = disk s \<and> logged env (audit_line env user ''RMDIR'' path ''FAILED'' msg) s s'"
proof (cases ok)
  case False
  then show ?thesis
    using assms(3)
    by (auto simp: removeDirectory_def Let_def directory_failed_def directory_logAudit_def logged_def
        dest!: fs_remove_result split: if_splits sum.splits prod.splits bool.splits)
next
  case True
  then obtain r f' ec where r: "resolvePath (root env) (disk s) path = Inr r" "r \<noteq> root env"
    "is_directory (disk s) r" "fs_remove (disk s) r = (True, ec, f')"
    "msg = ''Directory removed''"
    "s' = directory_logAudit env user ''RMDIR'' path ''SUCCESS'' [] (s\<lparr>disk := f'\<rparr>)"
    using assms(3)
    by (auto simp: removeDirectory_def Let_def directory_failed_def
        split: if_splits sum.splits prod.splits bool.splits)
  obtain q b n where q: "locate (disk s) r = Inr (q, b)" "node_at (disk s) q = Some n"
    "n = Dir \<longrightarrow> children (disk s) q = []" "f' = del_entry q (disk s)"
    using fs_remove_result [OF r(4)] by auto
  have "q \<noteq> []"
    using locate_valid(1) [OF assms(1) q(1)] resolved_no_slash [OF assms(1,2) r(1)] by blast
  with r q True assms(1) show ?thesis
    by (auto simp: logged_def directory_logAudit_def node_at_removed intro!: exI [of _ r] wf_del_entry)
qed

text \<open>C38. createDirectory only ever adds directories, even when it fails half way, and keeps the tree well
  formed; on success the resolved path, which did not exist, is a directory.\<close>

theorem createDirectory_spec:
  assumes "wf_fs (disk s)" and "good_root (disk s) (root env)"
    and "createDirectory env s path user = ((ok, msg), s')"
  shows "dirs_added (disk s) (disk s') \<and> wf_fs (disk s') \<and>
    (if ok
     then msg = ''Directory created'' \<and>
       logged env (audit_line env user ''MKDIR'' path ''SUCCESS'' []) s s' \<and>
       (\<exists>r. resolvePath (root env) (disk s) path = Inr r \<and> \<not> fs_exists (disk s) r \<and>
         is_directory (disk s') (no_trailing r))
     else logged env (audit_line env user ''MKDIR'' path ''FAILED'' msg) s s')"
proof (cases "disk s' = disk s \<and> \<not> ok")
  case True
  with assms show ?thesis
    by (auto simp: createDirectory_def Let_def directory_failed_def directory_logAudit_def logged_def
        split: if_splits sum.splits prod.splits bool.splits option.splits)
next
  case False
  then obtain r created ec f' where r: "resolvePath (root env) (disk s) path = Inr r"
    "\<not> fs_exists (disk s) r" "create_directories (disk s) r = (created, ec, f')"
    using assms(3)
    by (auto simp: createDirectory_def Let_def directory_failed_def directory_logAudit_def
        split: if_splits sum.splits prod.splits)
  note c = create_directories_spec [OF assms(1) resolvePath_Inr(3) [OF assms(1,2) r(1)] r(3)]
  show ?thesis
    using assms(3) False r c
    by (auto simp: createDirectory_def Let_def directory_failed_def directory_logAudit_def logged_def
        split: if_splits bool.splits option.splits)
qed


text \<open>A directory entry that a path names and that is a file is found through the path.\<close>

lemma walk_snoc_file:
  assumes "wf_fs f" and "locate f p = Inr (q, False)" and "node_at f q = Some (File i)"
  shows "status f p = Found q (File i)"
proof -
  have p: "locate_entry f p = Inr q"
    using assms(2) by (auto simp: locate_def split: if_splits sum.splits)
  then obtain d where d: "q = d @ [last p]" "p \<noteq> []" "node_at f d = Some Dir" "denied f SearchDir d = None"
    "last p \<noteq> []" "last p \<noteq> ''.''" "last p \<noteq> ''..''" "walk max_links f [] (butlast p) = Inr d"
    using locate_entry_Inr [OF assms(1) p] by auto
  then have "walk max_links f [] (butlast p @ [last p]) = Inr q"
    using walk_snoc [OF d(8,3,4), of "last p" "File i"] assms(3) by simp
  then show ?thesis
    using d(2) assms(3) by (simp add: status_def)
qed

text \<open>A rename to a path that does not exist overwrites no file.\<close>

lemma fs_rename_no_file:
  assumes "wf_fs f" and "fs_rename f p q = Inr f'" and "locate f p = Inr (src, b)" and "locate f q = Inr (dst, b')"
    and "node_at f src = Some n" and "src \<noteq> dst" and "replace_error f n dst = None" and "\<not> fs_exists f q"
  shows "node_at f dst \<noteq> Some (File i)"
proof
  assume isfile: "node_at f dst = Some (File i)"
  show False
  proof (cases b')
    case True
    have "n \<noteq> Dir"
      using assms(7) isfile by (auto simp: replace_error_def split: if_splits)
    with True assms(2-6) show False
      by (simp add: fs_rename_def)
  next
    case False
    then have "status f q = Found dst (File i)"
      using walk_snoc_file [OF assms(1) _ isfile, of q] assms(4) by simp
    with assms(8) show False
      by (simp add: fs_exists_def)
  qed
qed

text \<open>C39. renamePath, both outcomes: on success the subtree at the source location is found at the
  destination and nowhere else, every other entry and all contents are unchanged, and no file is
  overwritten; on failure the disk is unchanged and the failure is logged.\<close>

theorem renamePath_spec:
  assumes "wf_fs (disk s)" and "good_root (disk s) (root env)"
    and "renamePath env s source destination user = ((ok, msg), s')"
  shows "if ok
    then msg = ''Renamed successfully'' \<and>
      logged env (audit_line env user ''RENAME'' (source @ '' -> '' @ destination) ''SUCCESS'' []) s s' \<and>
      (\<exists>r1 r2 src dst b1 b2. resolvePath (root env) (disk s) source = Inr r1 \<and>
        resolvePath (root env) (disk s) destination = Inr r2 \<and>
        fs_exists (disk s) r1 \<and> \<not> fs_exists (disk s) r2 \<and>
        locate (disk s) r1 = Inr (src, b1) \<and> locate (disk s) r2 = Inr (dst, b2) \<and>
        (\<forall>i. node_at (disk s) dst = Some (File i) \<longrightarrow> src = dst) \<and>
        (\<forall>p. node_at (disk s') p =
           (if src = dst then node_at (disk s) p
            else if prefix dst p then node_at (disk s) (src @ drop (length dst) p)
            else if prefix src p then None else node_at (disk s) p)) \<and>
        content (disk s') = content (disk s) \<and> wf_fs (disk s'))
    else disk s' = disk s \<and>
      logged env (audit_line env user ''RENAME'' (source @ '' -> '' @ destination) ''FAILED'' msg) s s'"
proof (cases ok)
  case False
  then show ?thesis
    using assms(3)
    by (auto simp: renamePath_def Let_def rename_failed_def rename_logAudit_def logged_def
        split: if_splits sum.splits)
next
  case True
  then obtain r1 r2 f' where r: "resolvePath (root env) (disk s) source = Inr r1"
    "resolvePath (root env) (disk s) destination = Inr r2" "fs_exists (disk s) r1"
    "\<not> fs_exists (disk s) r2" "fs_rename (disk s) r1 r2 = Inr f'" "msg = ''Renamed successfully''"
    "s' = rename_logAudit env user source destination ''SUCCESS'' [] (s\<lparr>disk := f'\<rparr>)"
    using assms(3)
    by (auto simp: renamePath_def Let_def rename_failed_def split: if_splits sum.splits)
  have n: "list_all no_slash r1" "list_all no_slash r2"
    using resolved_no_slash [OF assms(1,2)] r(1,2) by blast+
  have wf: "wf_fs f'"
    by (rule wf_fs_rename [OF assms(1) n r(5)])
  from assms(1) n(2) r(5) n(1) show ?thesis
  proof (cases rule: fs_rename_cases)
    case (same src b b')
    with r wf True show ?thesis
      by (auto simp: logged_def rename_logAudit_def intro!: exI [of _ r1] exI [of _ r2] exI [of _ src])
  next
    case (moved src dst n b b')
    have "node_at (disk s) dst \<noteq> Some (File i)" for i
      using fs_rename_no_file [OF assms(1) r(5) moved(1-4) moved(7) r(4)] .
    moreover have "node_at f' p = (if prefix dst p then node_at (disk s) (src @ drop (length dst) p)
        else if prefix src p then None else node_at (disk s) p)" for p
      unfolding moved(6) by (rule node_at_moved [OF assms(1) moved(5)])
    moreover have "content f' = content (disk s)"
      by (simp add: moved(6) move_entries_def)
    ultimately show ?thesis
      using r moved wf True
      by (auto simp: logged_def rename_logAudit_def intro!: exI [of _ r1] exI [of _ r2] exI [of _ src] exI [of _ dst])
  qed
qed



lemma removeDirectory_spec_witness:
  "disk (snd (removeDirectory sample_env sample_store ''b'' ''u'')) = sample_fs"
proof -
  have "fst (removeDirectory sample_env sample_store ''b'' ''u'') = (False, ''Directory not empty'')"
    by (simp add: removeDirectory_def directory_failed_def sample_eval fs_remove_def)
  then show ?thesis
    using removeDirectory_spec [of sample_store sample_env "''b''" "''u''" False "''Directory not empty''"
      "snd (removeDirectory sample_env sample_store ''b'' ''u'')"] sample_fs_wf sample_good_root
    by (auto simp: prod_eq_iff)
qed

lemma createDirectory_spec_witness:
  "dirs_added sample_fs (disk (snd (createDirectory sample_env sample_store ''b/d/e'' ''u'')))"
proof -
  have "fst (createDirectory sample_env sample_store ''b/d/e'' ''u'') = (True, ''Directory created'')"
    by (simp add: createDirectory_def sample_eval create_directories_def fs_mkdir_def add_entry_def)
  then show ?thesis
    using createDirectory_spec [of sample_store sample_env "''b/d/e''" "''u''" True "''Directory created''"
      "snd (createDirectory sample_env sample_store ''b/d/e'' ''u'')"] sample_fs_wf sample_good_root
    by (auto simp: prod_eq_iff)
qed

lemma renamePath_spec_witness:
  "content (disk (snd (renamePath sample_env sample_store ''b'' ''z'' ''u''))) = content sample_fs"
proof -
  have "fst (renamePath sample_env sample_store ''b'' ''z'' ''u'') = (True, ''Renamed successfully'')"
    by (simp add: renamePath_def sample_eval fs_rename_def parent_path_def replace_error_def)
  then show ?thesis
    using renamePath_spec [of sample_store sample_env "''b''" "''z''" "''u''" True "''Renamed successfully''"
      "snd (renamePath sample_env sample_store ''b'' ''z'' ''u'')"] sample_fs_wf sample_good_root
    by (auto simp: prod_eq_iff)
qed

end
