(* ===== verification/Upload_Safety.thy ===== *)
theory Upload_Safety
  imports Upload_Service Storage_Operations
begin

text \<open>
  Uploads as the abstract object they implement: a session holds the bytes accepted so far, and a
  whole upload puts exactly the bytes of its chunks into the named file.
\<close>

section \<open>One operation at a time\<close>



lemma beginUpload_Ok:
  assumes "beginUpload E rt ss f uid remote_dir nm sz h = (UploadOk, ss', f')"
  obtains dir f1 i ctx where "ss uid = None" "valid_filename nm" "resolvePath rt f remote_dir = Inr dir"
    "f1 = (if fs_exists f dir then f else snd (snd (create_directories f dir)))"
    "open_trunc max_links f1 (path_append dir (path_of nm)) = Inr (i, f')" "evp_new E = Some ctx"
    "ss' = ss(uid \<mapsto> \<lparr>us_upload_id = uid, us_filename = nm,
       us_target_path = path_append dir (path_of nm), us_expected_size = sz, us_received_bytes = 0,
       us_expected_sha256 = h, us_file_stream = os_opened i, us_md_ctx = ctx, us_active = True\<rparr>)"
  using assms
  by (auto simp: beginUpload_def Let_def split: if_splits sum.splits option.splits prod.splits)

lemma writeChunk_Ok:
  assumes "writeChunk E ss f uid off d = (UploadOk, ss', f')"
  obtains se st ctx where "ss uid = Some se" "us_active se" "off = us_received_bytes se"
    "us_received_bytes se + size64 (length d) \<le> us_expected_size se"
    "os_write (us_file_stream se) d f = (st, f')" "os_good st" "evp_update E (us_md_ctx se) d = Some ctx"
    "ss' = ss(uid \<mapsto> se\<lparr>us_file_stream := st, us_md_ctx := ctx,
       us_received_bytes := us_received_bytes se + size64 (length d)\<rparr>)"
proof -
  obtain se where se: "ss uid = Some se"
    using assms by (auto simp: writeChunk_def split: option.splits)
  obtain st f1 where w: "os_write (us_file_stream se) d f = (st, f1)" by force
  have ok: "us_active se" "off = us_received_bytes se"
    "us_received_bytes se + size64 (length d) \<le> us_expected_size se"
    using assms se by (auto simp: writeChunk_def not_less split: if_splits)
  obtain ctx where ctx: "os_good st" "evp_update E (us_md_ctx se) d = Some ctx"
    using assms se w ok by (auto simp: writeChunk_def Let_def split: if_splits option.splits)
  show thesis
    using assms se w ok ctx
    by (intro that [of se st ctx]) (auto simp: writeChunk_def Let_def not_less split: if_splits)
qed

lemma hash_differs_False:
  "hash_differs a b = Parsed False \<longleftrightarrow> length a \<le> Suc (length b) \<and> take (length a) (b @ [CHR 0x00]) = a"
  by (auto simp: hash_differs_def)

lemma finishUpload_Ok:
  assumes "finishUpload E ss f uid = (UploadOk, ss', f')"
  obtains se st hash where "ss uid = Some se" "us_active se" "us_received_bytes se = us_expected_size se"
    "os_close (us_file_stream se) f = (st, f')" "evp_final E (us_md_ctx se) = Some hash"
    "us_expected_sha256 se = [] \<or> hash_differs (to_hex hash) (us_expected_sha256 se) = Parsed False"
    "ss' = ss(uid := None)"
proof -
  obtain se where se: "ss uid = Some se"
    using assms by (auto simp: finishUpload_def split: option.splits)
  obtain st f1 where w: "os_close (us_file_stream se) f = (st, f1)" by force
  have ok: "us_active se" "us_received_bytes se = us_expected_size se"
    using assms se w by (auto simp: finishUpload_def Let_def split: if_splits)
  obtain hash where h: "evp_final E (us_md_ctx se) = Some hash"
    using assms se w ok by (auto simp: finishUpload_def Let_def split: option.splits)
  have "us_expected_sha256 se = [] \<or> hash_differs (to_hex hash) (us_expected_sha256 se) = Parsed False"
    "f1 = f'" "ss' = ss(uid := None)"
    using assms se w ok h
    by (auto simp: finishUpload_def Let_def split: if_splits parse.splits bool.splits)
  with se w ok h show thesis
    by (intro that) auto
qed

section \<open>What a session holds\<close>

text \<open>The bytes that a session has accepted: written to its file or pending in the stream, counted,
  and fed to its digest.\<close>

definition session_data :: "'c evp \<Rightarrow> fs \<Rightarrow> 'c upload_session \<Rightarrow> bytes \<Rightarrow> bool" where
  "session_data E f se data \<longleftrightarrow>
     us_active se \<and> os_ok f (us_file_stream se) \<and> os_view f (us_file_stream se) = data \<and>
     us_received_bytes se = size64 (length data) \<and> us_received_bytes se \<le> us_expected_size se \<and>
     (\<exists>c0 ds. evp_new E = Some c0 \<and> concat ds = data \<and> evp_feed E c0 ds = Some (us_md_ctx se))"

abbreviation us_inode :: "'c upload_session \<Rightarrow> nat" where
  "us_inode se \<equiv> os_inode (us_file_stream se)"

lemma session_data_frame:
  assumes "session_data E f se data" and "content f' (us_inode se) = content f (us_inode se)"
  shows "session_data E f' se data"
  using assms by (auto simp: session_data_def os_ok_def os_view_def)

lemma size64_append: "size64 (m + n) = size64 m + size64 n"
  by (simp add: size64_def)

definition link_free :: "fs \<Rightarrow> bool" where
  "link_free f \<longleftrightarrow> (\<forall>p t. node_at f p \<noteq> Some (Symlink t))"

lemma link_free_dirs_added: "dirs_added f f' \<Longrightarrow> link_free f \<Longrightarrow> link_free f'"
  unfolding link_free_def dirs_added_def by (metis node.distinct(6) option.inject)

lemma beginUpload_session:
  assumes "wf_fs f" and "good_root f rt" and "beginUpload E rt ss f uid rd nm sz h = (UploadOk, ss', f')"
  obtains se dir i q where "ss uid = None" "ss' = ss(uid \<mapsto> se)" "session_data E f' se []"
    "us_expected_size se = sz" "us_expected_sha256 se = h" "us_inode se = i" "wf_fs f'"
    "resolvePath rt f rd = Inr dir" "us_target_path se = no_trailing dir @ [nm]"
    "node_at f' q = Some (File i)" "list_all no_slash (no_trailing dir @ [nm])"
    "link_free f \<longrightarrow> locate f' (no_trailing dir @ [nm]) = Inr (q, False)"
    "\<forall>j. j \<noteq> i \<longrightarrow> content f' j = content f j"
    "\<forall>r n. node_at f r = Some n \<longrightarrow> node_at f' r = Some n"
    "free f' = free f" "os_pending (us_file_stream se) = []"
  using assms(3)
proof (cases rule: beginUpload_Ok)
  case (1 dir f1 i ctx)
  have dir: "normal_path dir" "list_all no_slash dir"
    using resolvePath_Inr(3) [OF assms(1,2) 1(3)] normal_path_no_slash by blast+
  obtain c e where "create_directories f dir = (c, e, snd (snd (create_directories f dir)))"
    by (metis prod.collapse)
  from create_directories_spec [OF assms(1) dir(1) this] have f1: "wf_fs f1" "dirs_added f f1"
    using 1(4) assms(1) by simp_all
  have nm: "path_of nm = Path False [nm]" "no_slash nm" "nm \<noteq> []"
    using 1(2) path_of_name [of nm] by (auto simp: valid_filename_def no_slash_def)
  have target: "path_append dir (path_of nm) = no_trailing dir @ [nm]"
    using nm by (auto simp: path_append_def no_trailing_def)
  have slash: "list_all no_slash (no_trailing dir @ [nm])"
    using dir(2) nm(2) by (auto simp: no_trailing_def list_all_iff dest: in_set_butlastD)
  note opn = 1(5) [unfolded target]
  obtain q where q: "node_at f' q = Some (File i)" "content f' i = []" "\<forall>j. j \<noteq> i \<longrightarrow> content f' j = content f1 j"
    "\<forall>r. node_at f' r = (if r = q then Some (File i) else node_at f1 r)"
    "node_at f1 q = None \<and> i = next_inode f1 \<or> node_at f1 q = Some (File i)" "denied f' = denied f1"
    "free f' = free f1"
    "(\<forall>r t. node_at f1 r \<noteq> Some (Symlink t)) \<longrightarrow> locate f1 (no_trailing dir @ [nm]) = Inr (q, False)"
    using open_trunc_result [OF f1(1) slash opn] by blast
  have ext: "extends f1 f'"
    using q(4-6) by (auto simp: extends_def)
  have "link_free f \<longrightarrow> locate f' (no_trailing dir @ [nm]) = Inr (q, False)"
    using q(8) locate_extends [OF ext] link_free_dirs_added [OF f1(2)] by (auto simp: link_free_def)
  moreover have "\<exists>c0 ds. evp_new E = Some c0 \<and> concat ds = [] \<and> evp_feed E c0 ds = Some ctx"
    using 1(6) by (intro exI [of _ ctx] exI [of _ "[]"]) simp
  moreover have "\<forall>r n. node_at f r = Some n \<longrightarrow> node_at f' r = Some n"
    using extends_trans [OF dirs_added_extends [OF f1(2)] ext] by (simp add: extends_def)
  moreover have "content f1 = content f" "free f1 = free f"
    using f1(2) by (simp_all add: dirs_added_def)
  ultimately show thesis
    using 1 os_opened_ok [OF q(2)] q(1,3,7) slash target wf_open_trunc [OF f1(1) slash opn]
    by (intro that) (auto simp: session_data_def size64_def os_opened_def)
qed

lemma writeChunk_session:
  assumes "writeChunk E ss f uid off d = (UploadOk, ss', f')" and "ss uid = Some se"
    and "session_data E f se data"
  shows "\<exists>se'. ss' = ss(uid \<mapsto> se') \<and> session_data E f' se' (data @ d) \<and> off = size64 (length data) \<and>
    us_expected_size se' = us_expected_size se \<and> us_expected_sha256 se' = us_expected_sha256 se \<and>
    us_target_path se' = us_target_path se \<and> us_inode se' = us_inode se \<and>
    writes_inode (us_inode se) f f' \<and>
    (\<forall>m. length (os_pending (us_file_stream se)) + length d + m \<le> free f \<longrightarrow>
       length (os_pending (us_file_stream se')) + m \<le> free f')"
  using assms(1)
proof (cases rule: writeChunk_Ok)
  case (1 se0 st ctx)
  then have [simp]: "se0 = se"
    using assms(2) by simp
  obtain c0 ds where feed: "evp_new E = Some c0" "concat ds = data" "evp_feed E c0 ds = Some (us_md_ctx se)"
    using assms(3) by (auto simp: session_data_def)
  have "evp_feed E c0 (ds @ [d]) = Some ctx" "concat (ds @ [d]) = data @ d"
    using feed 1(7) by (simp_all add: evp_feed_append)
  with feed(1) have "\<exists>c0 ds. evp_new E = Some c0 \<and> concat ds = data @ d \<and> evp_feed E c0 ds = Some ctx"
    by blast
  moreover note os_write_ok [OF 1(5)] os_write_writes [OF 1(5)]
  moreover have "\<forall>m. length (os_pending (us_file_stream se)) + length d + m \<le> free f \<longrightarrow>
      length (os_pending st) + m \<le> free f'"
    using os_write_space [OF 1(5)] assms(3) by (simp add: session_data_def)
  ultimately show ?thesis
    using 1 assms(3)
    by (intro exI [of _ "se\<lparr>us_file_stream := st, us_md_ctx := ctx,
        us_received_bytes := us_received_bytes se + size64 (length d)\<rparr>"] conjI)
      (simp_all add: session_data_def size64_append)
qed


section \<open>A whole upload\<close>

text \<open>The chunks of a client, each at the offset where the last one ended.\<close>

fun write_chunks ::
  "'c evp \<Rightarrow> 'c sessions \<Rightarrow> fs \<Rightarrow> u64 \<Rightarrow> u64 \<Rightarrow> bytes list \<Rightarrow> upload_result \<times> 'c sessions \<times> fs" where
  "write_chunks E ss f uid off [] = (UploadOk, ss, f)"
| "write_chunks E ss f uid off (d # ds) =
     (case writeChunk E ss f uid off d of
        (UploadOk, ss, f) \<Rightarrow> write_chunks E ss f uid (off + size64 (length d)) ds
      | r \<Rightarrow> r)"

lemma write_chunks_session:
  assumes "write_chunks E ss f uid off ds = (UploadOk, ss', f')" and "ss uid = Some se"
    and "session_data E f se data"
  shows "\<exists>se'. ss' uid = Some se' \<and> session_data E f' se' (data @ concat ds) \<and>
    us_expected_size se' = us_expected_size se \<and> us_expected_sha256 se' = us_expected_sha256 se \<and>
    us_inode se' = us_inode se \<and> writes_inode (us_inode se) f f' \<and>
    (length (os_pending (us_file_stream se)) + length (concat ds) \<le> free f \<longrightarrow>
       length (os_pending (us_file_stream se')) \<le> free f')"
  using assms
proof (induction ds arbitrary: ss f off se data)
  case Nil
  then show ?case by simp
next
  case (Cons d ds)
  obtain ss1 f1 where w: "writeChunk E ss f uid off d = (UploadOk, ss1, f1)"
    using Cons.prems(1) by (auto split: prod.splits upload_result.splits)
  obtain se1 where se1: "ss1 = ss(uid \<mapsto> se1)" "session_data E f1 se1 (data @ d)"
    "us_expected_size se1 = us_expected_size se" "us_expected_sha256 se1 = us_expected_sha256 se"
    "us_inode se1 = us_inode se" "writes_inode (us_inode se) f f1"
    "\<forall>m. length (os_pending (us_file_stream se)) + length d + m \<le> free f \<longrightarrow>
       length (os_pending (us_file_stream se1)) + m \<le> free f1"
    using writeChunk_session [OF w Cons.prems(2,3)] by blast
  have "write_chunks E ss1 f1 uid (off + size64 (length d)) ds = (UploadOk, ss', f')"
    using Cons.prems(1) w by simp
  from Cons.IH [OF this _ se1(2)] se1 show ?case
    by (auto intro: writes_inode_trans)
qed

lemma upload_stores:
  assumes "wf_fs f" and "good_root f rt" and "link_free f" and "evp_computes E H"
    and "beginUpload E rt ss f uid rd nm sz h = (UploadOk, ss1, f1)"
    and "write_chunks E ss1 f1 uid 0 ds = (UploadOk, ss2, f2)"
    and "finishUpload E ss2 f2 uid = (UploadOk, ss3, f3)"
    and "length (concat ds) \<le> free f" and "length (concat ds) < 2 ^ 64"
  shows "\<exists>dir q i. resolvePath rt f rd = Inr dir \<and> status f3 (no_trailing dir @ [nm]) = Found q (File i) \<and>
    content f3 i = concat ds \<and> length (concat ds) = unat sz \<and>
    (h \<noteq> [] \<longrightarrow> take 64 (h @ [CHR 0x00]) = to_hex (H (concat ds))) \<and> ss3 uid = None"
proof -
  obtain se dir i q where b: "ss1 = ss(uid \<mapsto> se)" "session_data E f1 se []"
    "us_expected_size se = sz" "us_expected_sha256 se = h" "us_inode se = i" "wf_fs f1"
    "resolvePath rt f rd = Inr dir" "node_at f1 q = Some (File i)"
    "locate f1 (no_trailing dir @ [nm]) = Inr (q, False)" "free f1 = free f" "os_pending (us_file_stream se) = []"
    by (rule beginUpload_session [OF assms(1,2,5)]) (rule that, use assms(3) in simp_all)
  obtain se2 where s2: "ss2 uid = Some se2" "session_data E f2 se2 (concat ds)"
    "us_expected_size se2 = sz" "us_expected_sha256 se2 = h" "us_inode se2 = i" "writes_inode i f1 f2"
    "length (os_pending (us_file_stream se2)) \<le> free f2"
    using write_chunks_session [OF assms(6), of se "[]"] b assms(8) by auto
  from assms(7) show ?thesis
  proof (cases rule: finishUpload_Ok)
    case (1 se0 st hash)
    then have [simp]: "se0 = se2"
      using s2(1) by simp
    have w: "writes_inode i f1 f3"
      using os_close_writes [OF 1(4)] s2(5,6) writes_inode_trans by auto
    have ok: "os_ok f2 (us_file_stream se2)" "os_view f2 (us_file_stream se2) = concat ds"
      using s2(2) by (simp_all add: session_data_def)
    have "content f3 i = take (length (content f2 i) + free f2) (concat ds)"
      using os_close_ok [of "us_file_stream se2" f2 st f3] 1(4) ok s2(5) by simp
    moreover have "length (concat ds) \<le> length (content f2 i) + free f2"
      using s2(5,7) by (simp add: os_view_def flip: ok(2))
    ultimately have c: "content f3 i = concat ds"
      by simp
    have "size64 (length (concat ds)) = sz"
      using 1(3) s2(2,3) by (simp add: session_data_def)
    then have len: "length (concat ds) = unat sz"
      using assms(9) by auto
    obtain c0 xs where "evp_new E = Some c0" "concat xs = concat ds" "evp_feed E c0 xs = Some (us_md_ctx se2)"
      using s2(2) by (auto simp: session_data_def)
    then have hash: "hash = H (concat ds)"
      using evp_computesD [OF assms(4)] 1(5) by fastforce
    then have "length (to_hex hash) = 64"
      using assms(4) by (simp add: evp_computes_def)
    then have "h \<noteq> [] \<longrightarrow> take 64 (h @ [CHR 0x00]) = to_hex (H (concat ds))"
      using 1(6) s2(4) hash by (auto simp: hash_differs_False)
    moreover have "status f3 (no_trailing dir @ [nm]) = Found q (File i)"
    proof (rule walk_snoc_file)
      show "wf_fs f3"
        using writes_inodeD(8) [OF w] b(6) by simp
      show "locate f3 (no_trailing dir @ [nm]) = Inr (q, False)"
        using locate_extends [OF writes_inode_extends [OF w] b(9)] .
      show "node_at f3 q = Some (File i)"
        using writes_inodeD(3) [OF w] b(8) by simp
    qed
    ultimately show ?thesis
      using b(7) c len 1(7) by auto
  qed
qed


lemma sample_link_free: "link_free sample_fs"
  by (simp add: link_free_def sample_fs_def node_at_def)

definition sample_begin :: "upload_result \<times> bytes sessions \<times> fs" where
  "sample_begin = beginUpload sample_evp sample_root Map.empty sample_fs 1 ''b'' ''n'' 3 ''''"

definition sample_chunks :: "upload_result \<times> bytes sessions \<times> fs" where
  "sample_chunks =
     write_chunks sample_evp (fst (snd sample_begin)) (snd (snd sample_begin)) 1 0 [[1, 2], [3]]"

definition sample_finish :: "upload_result \<times> bytes sessions \<times> fs" where
  "sample_finish = finishUpload sample_evp (fst (snd sample_chunks)) (snd (snd sample_chunks)) 1"

lemmas sample_upload_eval =
  sample_begin_def sample_chunks_def sample_finish_def beginUpload_def writeChunk_def
  finishUpload_def valid_filename_def create_file_def sample_evp_def sample_eval os_opened_def os_write_def
  os_buffer_size_def size64_def os_close_def os_flush_def fs_write_def

lemma sample_upload_ok:
  "fst sample_begin = UploadOk" "fst sample_chunks = UploadOk" "fst sample_finish = UploadOk"
  "free sample_fs = 100000"
  by (simp_all add: sample_upload_eval)


section \<open>Separate sessions, and the verdict\<close>

text \<open>A chunk for one upload session leaves every other session that writes to another inode untouched:
  its record, and the bytes it has accepted.\<close>

theorem upload_isolation:
  assumes "writeChunk E ss f uid off d = (r, ss', f')" and "ss uid' = Some se'" and "uid \<noteq> uid'"
    and "session_data E f se' data"
    and "\<And>se. ss uid = Some se \<Longrightarrow> os_inode (us_file_stream se) \<noteq> os_inode (us_file_stream se')"
  shows "ss' uid' = Some se' \<and> session_data E f' se' data"
proof (cases "ss uid")
  case None
  then show ?thesis
    using assms by (simp add: writeChunk_def)
next
  case (Some se)
  obtain st f1 where w: "os_write (us_file_stream se) d f = (st, f1)" by force
  have "content f1 (us_inode se') = content f (us_inode se')"
    using os_write_writes [OF w] writes_inodeD(7) assms(5) [OF Some] by metis
  then have "session_data E f1 se' data"
    using session_data_frame assms(4) by blast
  moreover have "(f' = f \<or> f' = f1) \<and> ss' uid' = ss uid'"
    using assms(1,3) Some w by (auto simp: writeChunk_def Let_def split: if_splits option.splits)
  ultimately show ?thesis
    using assms(2,4) by auto
qed

lemma to_hex_no_NUL: "CHR 0x00 \<notin> set (to_hex bs)"
proof (induction bs)
  case (Cons b bs)
  have "hex_digit n \<noteq> CHR 0x00" if "n < 16" for n
    using that by (auto simp: hex_digit_def less_Suc_eq numeral_eq_Suc)
  moreover have "unat b div 16 < 16" "unat b mod 16 < 16"
    using unat_byte_less [of b] by (simp_all add: less_mult_imp_div_less)
  ultimately have "hex_digit (unat b div 16) \<noteq> CHR 0x00" "hex_digit (unat b mod 16) \<noteq> CHR 0x00"
    by blast+
  then show ?case
    using Cons by (simp add: hex_byte_def eq_commute [of "CHR 0x00"])
qed simp

lemma finishUpload_decides:
  assumes "evp_computes E H" and "evp_total E" and "ss uid = Some se" and "session_data E f se data"
    and "length data < 2 ^ 64"
  shows "fst (finishUpload E ss f uid) =
    (if length data \<noteq> unat (us_expected_size se)
     then UploadError (''Size mismatch: expected '' @ to_string (unat (us_expected_size se)) @
       '' but received '' @ to_string (length data))
     else if us_expected_sha256 se = [] then UploadOk
     else if length (us_expected_sha256 se) < 63 then UploadUB
     else if take 64 (us_expected_sha256 se) = to_hex (H data) then UploadOk
     else UploadError ''SHA256 checksum mismatch (corrupted upload)'')"
proof -
  obtain st f' where w: "os_close (us_file_stream se) f = (st, f')" by force
  obtain c0 ds where feed: "evp_new E = Some c0" "concat ds = data" "evp_feed E c0 ds = Some (us_md_ctx se)"
    using assms(4) by (auto simp: session_data_def)
  obtain hash where h: "evp_final E (us_md_ctx se) = Some hash"
    using assms(2) unfolding evp_total_def by blast
  have hash: "hash = H data" "length (to_hex hash) = 64"
    using evp_computesD [OF assms(1) feed(1,3) h] feed(2) assms(1) by (simp_all add: evp_computes_def)
  have sz: "us_active se" "us_received_bytes se = size64 (length data)" "unat (us_received_bytes se) = length data"
    using assms(4,5) by (simp_all add: session_data_def)
  have size_eq: "us_received_bytes se = us_expected_size se \<longleftrightarrow> length data = unat (us_expected_size se)"
    using sz(3) by (metis unsigned_word_eqI)
  let ?e = "us_expected_sha256 se"
  have diff: "hash_differs (to_hex hash) ?e =
    (if length ?e < 63 then OOB else Parsed (take 64 ?e \<noteq> to_hex hash))"
  proof (cases "length ?e = 63")
    case True
    then have "last (take 64 (?e @ [CHR 0x00])) = CHR 0x00"
      by simp
    moreover have "last (to_hex hash) \<noteq> CHR 0x00"
      using to_hex_no_NUL [of hash] hash(2) last_in_set [of "to_hex hash"] by (metis list.size(3) zero_neq_numeral)
    ultimately have "take 64 (?e @ [CHR 0x00]) \<noteq> to_hex hash"
      by metis
    moreover have "take 64 ?e \<noteq> to_hex hash"
    proof
      assume "take 64 ?e = to_hex hash"
      then have "length (take 64 ?e) = 64"
        using hash(2) by simp
      with True show False by simp
    qed
    ultimately show ?thesis
      using True hash(2) by (simp add: hash_differs_def)
  next
    case False
    have "length hash = 32"
      using hash(2) by simp
    with False show ?thesis
      by (auto simp: hash_differs_def)
  qed
  show ?thesis
    using assms(3) w h sz size_eq hash(1) diff
    by (auto simp: finishUpload_def Let_def)
qed



text \<open>finishUpload reports success even when the buffered end of the file cannot be written: the stored
  file is then shorter than the upload that was verified.\<close>

theorem finishUpload_ignores_flush:
  assumes "evp_computes E H" and "evp_total E" and "ss uid = Some se" and "session_data E f se data"
    and "length data = unat (us_expected_size se)" and "us_expected_sha256 se = to_hex (H data)"
    and "free f = 0" and "os_pending (us_file_stream se) \<noteq> []"
  shows "\<exists>f'. finishUpload E ss f uid = (UploadOk, ss(uid := None), f') \<and>
    length (content f' (os_inode (us_file_stream se))) < length data"
proof -
  have "length data < 2 ^ 64"
    using assms(5) unat_less_pow(3) [of "us_expected_size se"] by simp
  then have "fst (finishUpload E ss f uid) = UploadOk"
    using finishUpload_decides [of E H ss uid se f data] assms(1-6) by (simp add: evp_computes_def)
  then obtain ss' f' where r: "finishUpload E ss f uid = (UploadOk, ss', f')"
    by (metis prod.collapse)
  from r show ?thesis
  proof (cases rule: finishUpload_Ok)
    case (1 se0 st hash)
    then have se: "se0 = se"
      using assms(3) by simp
    have ok: "os_ok f (us_file_stream se)" "os_view f (us_file_stream se) = data"
      using assms(4) by (simp_all add: session_data_def)
    have "content f' (us_inode se) = take (length (content f (us_inode se))) data"
      using os_close_ok [OF 1(4)] ok assms(7) by (simp add: se)
    moreover have "length (content f (us_inode se)) < length data"
      using ok(2) assms(8) by (auto simp: os_view_def)
    ultimately show ?thesis
      using r 1(7) by auto
  qed
qed


text \<open>A session that has accepted three bytes, all pending in its stream.\<close>

definition sample_session :: "string \<Rightarrow> bytes upload_session" where
  "sample_session h =
     \<lparr>us_upload_id = 1, us_filename = ''n'', us_target_path = [''srv'', ''data'', ''n''],
      us_expected_size = 3, us_received_bytes = 3, us_expected_sha256 = h,
      us_file_stream = (os_opened 1)\<lparr>os_pending := [1, 2, 3]\<rparr>, us_md_ctx = [1, 2, 3], us_active = True\<rparr>"

lemma sample_session_data: "session_data sample_evp (sample_fs\<lparr>free := m\<rparr>) (sample_session h) [1, 2, 3]"
proof -
  have "\<exists>c0 ds. evp_new sample_evp = Some c0 \<and> concat ds = [1, 2, 3] \<and>
      evp_feed sample_evp c0 ds = Some (us_md_ctx (sample_session h))"
    by (intro exI [of _ "[]"] exI [of _ "[[1, 2, 3]]"]) (simp add: sample_evp_def sample_session_def)
  then show ?thesis
    by (simp add: session_data_def sample_session_def os_ok_def os_view_def os_opened_def sample_fs_def
        os_buffer_size_def size64_def)
qed

lemma upload_isolation_witness:
  "\<exists>ss' f'. writeChunk sample_evp
      [1 \<mapsto> sample_session '''', 2 \<mapsto> (sample_session '''')\<lparr>us_file_stream := os_opened 0, us_received_bytes := 0\<rparr>]
      (sample_fs\<lparr>free := 9\<rparr>) 2 0 [7, 7] = (UploadOk, ss', f') \<and>
    ss' 1 = Some (sample_session '''') \<and> session_data sample_evp f' (sample_session '''') [1, 2, 3]"
proof -
  let ?ss = "[1 \<mapsto> sample_session '''',
    2 \<mapsto> (sample_session '''')\<lparr>us_file_stream := os_opened 0, us_received_bytes := 0\<rparr>]"
  obtain ss' f' where r: "writeChunk sample_evp ?ss (sample_fs\<lparr>free := 9\<rparr>) 2 0 [7, 7] = (UploadOk, ss', f')"
    by (simp add: writeChunk_def sample_session_def os_opened_def os_write_def os_buffer_size_def
        sample_evp_def size64_def)
  have "ss' 1 = Some (sample_session '''') \<and> session_data sample_evp f' (sample_session '''') [1, 2, 3]"
    by (rule upload_isolation [OF r _ _ sample_session_data]) (auto simp: sample_session_def os_opened_def)
  with r show ?thesis by blast
qed


lemma finishUpload_ignores_flush_witness:
  "\<exists>f'. finishUpload sample_evp [1 \<mapsto> sample_session (to_hex (sample_digest [1, 2, 3]))]
      (sample_fs\<lparr>free := 0\<rparr>) 1 = (UploadOk, [1 \<mapsto> sample_session (to_hex (sample_digest [1, 2, 3]))](1 := None), f')"
  using finishUpload_ignores_flush [OF sample_evp_computes sample_evp_total,
      of "[1 \<mapsto> sample_session (to_hex (sample_digest [1, 2, 3]))]" 1
      "sample_session (to_hex (sample_digest [1, 2, 3]))" "sample_fs\<lparr>free := 0\<rparr>" "[1, 2, 3]"]
    sample_session_data [of 0 "to_hex (sample_digest [1, 2, 3])"]
  by (auto simp: sample_session_def os_opened_def)

end
