(* ===== verification/Connection.thy ===== *)
theory Connection
  imports Server Upload_Safety
begin

text \<open>
  A connection of \<open>TcpServer::handleClient\<close> over its whole life: the receive loop as a transition
  system, what a login requires, what a client without a login can reach, and where the code
  runs into undefined behaviour.
\<close>

section \<open>Logging in\<close>

text \<open>C29. Login soundness. The session of a connection can only change to a logged-in one through an
  AUTH_REQUEST packet that parses to a user name and password accepted by AuthManager, and it then
  belongs to that user and has a freshly drawn identifier.\<close>

theorem login_sound:
  assumes "handle_packet cfg T p c s = Running (c', s')"
    and "session_authenticated (sess c')" and "sess c' \<noteq> sess c"
  shows "\<exists>u pw. packet_kind p = Some AUTH_REQUEST \<and> parseAuthRequest p = Parsed (u, pw) \<and>
    authenticate (cfg_evp cfg) (srv_users s) u pw \<and> session_username (sess c') = u \<and>
    session_id (sess c') = cfg_rng cfg (srv_draws s) \<and> cstate c' = AUTHENTICATED"
  using assms(1)
proof (cases rule: handle_packet_cases)
  case auth
  from auth(2) show ?thesis
    using auth(1) assms(3) by (cases rule: handle_auth_cases) auto
qed (use assms(3) in simp)

section \<open>Connections as a transition system\<close>

text \<open>One turn of the receive loop that goes on, and the connections that turns lead to.\<close>

inductive conn_step ::
  "'c config \<Rightarrow> 't transport \<Rightarrow> 't conn \<times> 'c server \<Rightarrow> 't conn \<times> 'c server \<Rightarrow> bool"
  for cfg T where
  turn: "receivePacket T (cfg_alloc cfg) (chan c) = (Received p, t) \<Longrightarrow>
    handle_packet cfg T p (c\<lparr>chan := t\<rparr>) s = Running (c', s') \<Longrightarrow>
    conn_step cfg T (c, s) (c', s')"

inductive_cases conn_stepE: "conn_step cfg T (c, s) (c', s')"

inductive conn_reach ::
  "'c config \<Rightarrow> 't transport \<Rightarrow> 't conn \<times> 'c server \<Rightarrow> 't conn \<times> 'c server \<Rightarrow> bool"
  for cfg T a where
  start: "conn_reach cfg T a a"
| step: "conn_reach cfg T a b \<Longrightarrow> conn_step cfg T b d \<Longrightarrow> conn_reach cfg T a d"

lemma conn_reach_first:
  assumes "conn_reach cfg T b d" and "conn_step cfg T a b"
  shows "conn_reach cfg T a d"
  using assms
proof (induction rule: conn_reach.induct)
  case start
  then show ?case using conn_reach.step [OF conn_reach.start] by blast
next
  case (step b d)
  then show ?case by (blast intro: conn_reach.step)
qed

definition new_conn :: "'t \<Rightarrow> 't conn" where
  "new_conn t = \<lparr>chan = t, sess = new_session, cstate = CONNECTED_UNAUTHENTICATED\<rparr>"

text \<open>The state machine and the session of a connection agree, and a session that is logged in
  belongs to a user of the table.\<close>

definition conn_inv :: "'t conn \<times> 'c server \<Rightarrow> bool" where
  "conn_inv x \<longleftrightarrow> (let (c, s) = x in
     cstate c \<in> {CONNECTED_UNAUTHENTICATED, AUTHENTICATED} \<and>
     (session_authenticated (sess c) \<longleftrightarrow> cstate c = AUTHENTICATED) \<and>
     (session_authenticated (sess c) \<longrightarrow>
        (\<exists>h. srv_users s (session_username (sess c)) = Some h \<and> h \<noteq> [])))"

lemma authenticate_user:
  "authenticate E users u pw \<Longrightarrow> \<exists>h. users u = Some h \<and> h \<noteq> [] \<and> h = sha256 E pw"
  by (auto simp: authenticate_def userExists_def getPasswordHash_def Let_def split: if_splits option.splits)

lemma conn_step_inv:
  assumes "conn_step cfg T a b" and "conn_inv a"
  shows "conn_inv b \<and> srv_users (snd b) = srv_users (snd a)"
  using assms
proof (induction rule: conn_step.induct)
  case (turn c p t s c' s')
  from turn(2) show ?case
  proof (cases rule: handle_packet_cases)
    case auth
    from auth(2) show ?thesis
      using turn(3) by (cases rule: handle_auth_cases) (auto simp: conn_inv_def dest!: authenticate_user)
  next
    case other
    with turn(3) show ?thesis
      by (auto simp: conn_inv_def)
  qed
qed

text \<open>C30. Invariant of a connection in every reachable state: the state machine is unauthenticated or
  authenticated, it agrees with the session flag, a logged-in session belongs to a user of the
  table with a non-empty hash, and the user table is the one the server started with.\<close>

theorem connection_invariant:
  assumes "conn_reach cfg T (new_conn t, s) (c', s')"
  shows "cstate c' \<in> {CONNECTED_UNAUTHENTICATED, AUTHENTICATED} \<and>
    (session_authenticated (sess c') \<longleftrightarrow> cstate c' = AUTHENTICATED) \<and>
    (session_authenticated (sess c') \<longrightarrow>
       (\<exists>h. srv_users s' (session_username (sess c')) = Some h \<and> h \<noteq> [])) \<and>
    srv_users s' = srv_users s"
proof -
  have "conn_inv b \<and> srv_users (snd b) = srv_users s" if "conn_reach cfg T (new_conn t, s) b" for b
    using that
  proof (induction rule: conn_reach.induct)
    case start
    show ?case by (simp add: conn_inv_def new_conn_def new_session_def)
  next
    case (step b d)
    then show ?case using conn_step_inv [of cfg T b d] by simp
  qed
  from this [OF assms] show ?thesis
    by (auto simp: conn_inv_def)
qed

lemma conn_step_authenticated:
  "conn_step cfg T (c, s) (c', s') \<Longrightarrow>
    session_authenticated (sess c) \<longrightarrow> session_authenticated (sess c')"
  by (elim conn_stepE handle_packet_cases) (auto elim!: handle_auth_cases)

lemma conn_step_unauthenticated:
  assumes "conn_step cfg T (c, s) (c', s')" and "\<not> session_authenticated (sess c')"
  shows "s' = s"
  using assms
  by (elim conn_stepE handle_packet_cases) (auto elim!: handle_auth_cases)

lemma conn_reach_unauthenticated:
  assumes "conn_reach cfg T a b"
  shows "\<not> session_authenticated (sess (fst b)) \<Longrightarrow>
    \<not> session_authenticated (sess (fst a)) \<and> snd b = snd a"
  using assms
proof (induction rule: conn_reach.induct)
  case start
  then show ?case by simp
next
  case (step b d)
  obtain c1 s1 c2 s2 where *: "b = (c1, s1)" "d = (c2, s2)" by force
  with step conn_step_authenticated [of cfg T c1 s1 c2 s2] conn_step_unauthenticated [of cfg T c1 s1 c2 s2]
  show ?case by auto
qed

text \<open>The loop follows the transition system.\<close>

definition last_conn :: "('t, 'c) ended \<Rightarrow> ('t conn \<times> 'c server) option" where
  "last_conn r = (case r of Disconnected c s \<Rightarrow> Some (c, s) | Uncaught c s \<Rightarrow> Some (c, s) | _ \<Rightarrow> None)"

lemma serve_loop_reach:
  assumes "last_conn (serve_loop fuel cfg T c s) = Some (c', s')"
  shows "\<exists>d. conn_reach cfg T (c, s) (d, s') \<and> sess d = sess c' \<and> cstate d = cstate c'"
  using assms
proof (induction fuel arbitrary: c s)
  case 0
  then show ?case by (simp add: last_conn_def)
next
  case (Suc fuel)
  obtain r t where r: "receivePacket T (cfg_alloc cfg) (chan c) = (r, t)" by force
  show ?case
  proof (cases r)
    case (Received p)
    show ?thesis
    proof (cases "handle_packet cfg T p (c\<lparr>chan := t\<rparr>) s")
      case (Running x)
      obtain c1 s1 where x: "x = (c1, s1)" by force
      have "conn_step cfg T (c, s) (c1, s1)"
        using r Received Running x by (auto intro: conn_step.turn)
      moreover have "last_conn (serve_loop fuel cfg T c1 s1) = Some (c', s')"
        using Suc.prems r Received Running x by simp
      ultimately show ?thesis
        using Suc.IH conn_reach_first by blast
    qed (use Suc.prems r Received in \<open>simp add: last_conn_def\<close>)
  qed (use Suc.prems r in \<open>auto simp: last_conn_def intro!: exI [of _ c] conn_reach.start\<close>)
qed

lemma last_conn_Some:
  "last_conn r = Some (c, s) \<longleftrightarrow> r = Disconnected c s \<or> r = Uncaught c s"
  by (cases r) (auto simp: last_conn_def)

text \<open>A connection that ends without having logged in has left the whole server state unchanged,
  whatever it sent.\<close>

theorem unauthenticated_connection_changes_nothing:
  assumes "handleClient fuel cfg T hs t s = Served (Disconnected c' s') \<or>
      handleClient fuel cfg T hs t s = Served (Uncaught c' s')"
    and "\<not> session_authenticated (sess c')"
  shows "s' = s"
proof -
  have "last_conn (serve_loop fuel cfg T (new_conn t) s) = Some (c', s')"
    using assms(1) by (cases hs) (auto simp: handleClient_def last_conn_Some new_conn_def)
  from serve_loop_reach [OF this] show ?thesis
    using conn_reach_unauthenticated assms(2) by fastforce
qed

section \<open>Undefined behaviour\<close>

text \<open>C32. The only packet that can run a handler into undefined behaviour is an authenticated UPLOAD_END
  for a complete session whose expected hash is non-empty and shorter than the computed one, where
  CRYPTO_memcmp reads past its end.\<close>

theorem undefined_behaviour_iff:
  "handle_packet cfg T p c s = Undefined \<longleftrightarrow>
    packet_kind p = Some UPLOAD_END \<and> session_authenticated (sess c) \<and>
    (\<exists>i se hash. parseUploadEnd p = Parsed i \<and> srv_uploads s i = Some se \<and> us_active se \<and>
      us_received_bytes se = us_expected_size se \<and>
      evp_final (cfg_evp cfg) (us_md_ctx se) = Some hash \<and> us_expected_sha256 se \<noteq> [] \<and>
      Suc (length (us_expected_sha256 se)) < 2 * length hash)" (is "?l \<longleftrightarrow> ?r")
proof -
  have end_UB: "handle_upload_end cfg T p c s = Undefined \<longleftrightarrow>
      session_authenticated (sess c) \<and> (\<exists>i. parseUploadEnd p = Parsed i \<and>
        fst (finishUpload (cfg_evp cfg) (srv_uploads s) (disk (srv_store s)) i) = UploadUB)"
    by (auto simp: handle_upload_end_def safe_simps split: parse.splits prod.splits upload_result.splits)
  have fine: "handle_ping cfg T p c s \<noteq> Undefined" "handle_auth cfg T p c s \<noteq> Undefined"
    "handle_list cfg T p c s \<noteq> Undefined" "handle_download cfg T p c s \<noteq> Undefined"
    "handle_delete cfg T p c s \<noteq> Undefined" "handle_rename cfg T p c s \<noteq> Undefined"
    "handle_mkdir cfg T p c s \<noteq> Undefined" "handle_rmdir cfg T p c s \<noteq> Undefined"
    "handle_legacy cfg T p c s \<noteq> Undefined"
    by (auto simp: handle_ping_def handle_auth_def handle_list_def handle_download_def
        handle_delete_def handle_rename_def handle_mkdir_def handle_rmdir_def handle_legacy_def
        Let_def safe_simps split: parse.splits sum.splits prod.splits)
  have begin_fine: "handle_upload_begin cfg T p c s \<noteq> Undefined"
    by (auto simp: handle_upload_begin_def safe_simps beginUpload_no_UB
        split: parse.splits prod.splits upload_result.splits)
  have chunk_fine: "handle_upload_chunk cfg T p c s \<noteq> Undefined"
    by (auto simp: handle_upload_chunk_def safe_simps writeChunk_no_UB
        split: parse.splits prod.splits upload_result.splits)
  have "?l \<longleftrightarrow> packet_kind p = Some UPLOAD_END \<and> handle_upload_end cfg T p c s = Undefined"
    using fine begin_fine chunk_fine
    by (auto simp: handle_packet_def split: option.splits packet_type.splits)
  then show ?thesis
    unfolding end_UB finishUpload_UB_iff by auto
qed

section \<open>The loop ends with the input\<close>

context itransport
begin

lemma stream_loop_inq: "stream_loop T i n ds off t = (r, t') \<Longrightarrow> inq t' = inq t"
  by (induction ds arbitrary: off t)
    (auto dest: sendPacket_inq split: if_splits prod.splits bool.splits)

lemma streamFile_inq: "streamFile T f m t = (r, t') \<Longrightarrow> inq t' = inq t"
  by (auto simp: streamFile_def dest!: sendPacket_inq stream_loop_inq
      split: prod.splits bool.splits sum.splits option.splits)

lemma reply_inq [simp]: "inq (chan (reply T p c)) = inq (chan c)"
  by (cases "sendPacket T (chan c) p") (simp add: reply_def sendPacket_inq)

lemma handle_download_inq:
  "handle_download cfg T p c s = Running (c', s') \<Longrightarrow> inq (chan c') = inq (chan c)"
  by (auto simp: handle_download_def Let_def streamFile_inq [OF surjective_pairing]
      split: if_splits parse.splits sum.splits)

lemma handle_auth_inq:
  "handle_auth cfg T p c s = Running (c', s') \<Longrightarrow> inq (chan c') = inq (chan c)"
  by (auto simp: handle_auth_def Let_def split: parse.splits if_splits prod.splits)

lemma handle_delete_inq:
  "handle_delete cfg T p c s = Running (c', s') \<Longrightarrow> inq (chan c') = inq (chan c)"
  by (auto simp: handle_delete_def Let_def split: parse.splits if_splits prod.splits)

lemma handle_rename_inq:
  "handle_rename cfg T p c s = Running (c', s') \<Longrightarrow> inq (chan c') = inq (chan c)"
  by (auto simp: handle_rename_def Let_def split: parse.splits if_splits prod.splits)

lemma handle_mkdir_inq:
  "handle_mkdir cfg T p c s = Running (c', s') \<Longrightarrow> inq (chan c') = inq (chan c)"
  by (auto simp: handle_mkdir_def Let_def split: parse.splits if_splits prod.splits)

lemma handle_rmdir_inq:
  "handle_rmdir cfg T p c s = Running (c', s') \<Longrightarrow> inq (chan c') = inq (chan c)"
  by (auto simp: handle_rmdir_def Let_def split: parse.splits if_splits prod.splits)

lemma handle_list_inq:
  "handle_list cfg T p c s = Running (c', s') \<Longrightarrow> inq (chan c') = inq (chan c)"
  by (auto simp: handle_list_def Let_def split: parse.splits if_splits sum.splits)

lemma handle_upload_begin_inq:
  "handle_upload_begin cfg T p c s = Running (c', s') \<Longrightarrow> inq (chan c') = inq (chan c)"
  by (auto simp: handle_upload_begin_def Let_def split: 
      parse.splits if_splits prod.splits upload_result.splits)

lemma handle_upload_chunk_inq:
  "handle_upload_chunk cfg T p c s = Running (c', s') \<Longrightarrow> inq (chan c') = inq (chan c)"
  by (auto simp: handle_upload_chunk_def Let_def split: 
      parse.splits if_splits prod.splits upload_result.splits)

lemma handle_upload_end_inq:
  "handle_upload_end cfg T p c s = Running (c', s') \<Longrightarrow> inq (chan c') = inq (chan c)"
  by (auto simp: handle_upload_end_def Let_def split: 
      parse.splits if_splits prod.splits upload_result.splits)

lemma handle_packet_inq:
  assumes "handle_packet cfg T p c s = Running (c', s')"
  shows "inq (chan c') = inq (chan c)"
proof (cases "packet_kind p")
  case (Some k)
  have ping: "handle_ping cfg T p c s = Running (c', s') \<Longrightarrow> inq (chan c') = inq (chan c)"
    by (auto simp: handle_ping_def)
  have legacy: "handle_legacy cfg T p c s = Running (c', s') \<Longrightarrow> inq (chan c') = inq (chan c)"
    by (auto simp: handle_legacy_def split: if_splits)
  note inqs = ping legacy handle_auth_inq handle_delete_inq handle_rename_inq handle_mkdir_inq
    handle_rmdir_inq handle_list_inq handle_upload_begin_inq handle_upload_chunk_inq
    handle_upload_end_inq handle_download_inq
  from assms show ?thesis
    unfolding handle_packet_def Some option.case
    by (cases k) (simp_all, (erule inqs)+)
qed (use assms in \<open>simp add: handle_packet_def\<close>)

lemma receivePacket_progress:
  "receivePacket T m t = (Received p, t') \<Longrightarrow> length (inq t') + 12 \<le> length (inq t)"
  using receivePacket_exact [of m t p t'] by simp

lemma serve_loop_ends:
  "length (inq (chan c)) div 12 < fuel \<Longrightarrow> serve_loop fuel cfg T c s \<noteq> OutOfFuel"
proof (induction fuel arbitrary: c s)
  case (Suc fuel)
  obtain r t where r: "receivePacket T (cfg_alloc cfg) (chan c) = (r, t)" by force
  show ?case
  proof (cases r)
    case (Received p)
    have "length (inq t) + 12 \<le> length (inq (chan c))"
      using receivePacket_progress r Received by blast
    then have less: "length (inq t) div 12 < fuel"
      using Suc.prems by simp
    show ?thesis
    proof (cases "handle_packet cfg T p (c\<lparr>chan := t\<rparr>) s")
      case (Running x)
      obtain c1 s1 where x: "x = (c1, s1)" by force
      have "inq (chan c1) = inq t"
        using handle_packet_inq Running x by fastforce
      with Suc.IH less r Received Running x show ?thesis by simp
    qed (use r Received in simp)
  qed (use r in simp_all)
qed simp

end

text \<open>C31. The receive loop of handleClient ends: over any transport that keeps the ITransport contract,
  one more unit of fuel than the number of 12-byte headers in the pending input is enough, so a
  finite input never keeps the loop running.\<close>

theorem serve_loop_terminates:
  assumes "itransport T inq outq" and "length (inq (chan c)) div 12 < fuel"
  shows "serve_loop fuel cfg T c s \<noteq> OutOfFuel"
  using assms by (rule itransport.serve_loop_ends)

text \<open>C33. A twelve-byte header announcing a payload larger than the process can allocate makes resize
  throw before any login; the exception leaves handleClient uncaught and ends the accept loop for
  every other client.\<close>

theorem oversized_header_kills_server:
  assumes "recvAll T t header_len = (Some w, t')" and "cfg_alloc cfg < unat (dec64 (drop 4 w))"
  shows "handleClient (Suc fuel) cfg T Verified t s = Served (Uncaught (new_conn t') s) \<and>
    run (Suc fuel) cfg T (Some (Verified, t) # clients) s = None"
proof -
  have "receivePacket T (cfg_alloc cfg) t = (RecvThrows, t')"
    using assms by (simp add: receivePacket_def)
  then show ?thesis
    by (simp add: handleClient_def new_conn_def)
qed

section \<open>Instances\<close>

definition sample_server :: "bytes server" where
  "sample_server =
     \<lparr>srv_store = sample_store, srv_uploads = Map.empty,
      srv_users = [''u'' \<mapsto> sha256 sample_evp ''p''], srv_draws = 0\<rparr>"

definition sample_cfg :: "bytes config" where
  "sample_cfg =
     \<lparr>cfg_evp = sample_evp, cfg_env = sample_env, cfg_rng = (\<lambda>n. 7), cfg_alloc = 4096\<rparr>"

lemma sample_login:
  "handle_packet sample_cfg sample_link (authRequest ''u'' ''p'') (new_conn t) sample_server =
    Running (reply sample_link (authResponse True 7 ''Authentication successful'')
      ((new_conn t)\<lparr>sess := \<lparr>session_id = 7, session_username = ''u'', session_authenticated = True\<rparr>,
        cstate := AUTHENTICATED\<rparr>), sample_server\<lparr>srv_draws := 1\<rparr>)"
proof -
  have "packet_kind (authRequest ''u'' ''p'') = Some AUTH_REQUEST"
    "parseAuthRequest (authRequest ''u'' ''p'') = Parsed (''u'', ''p'')"
    using auth_request.build_kind [of "(''u'', ''p'')"] auth_request.parse_build [of "(''u'', ''p'')"] by simp_all
  moreover have "authenticate sample_evp (srv_users sample_server) ''u'' ''p''"
    by (simp add: authenticate_def userExists_def getPasswordHash_def sample_server_def sha256_def
        sample_evp_def sample_digest_def)
  ultimately show ?thesis
    by (simp add: handle_packet_def handle_auth_def generateSessionId_def sample_cfg_def sample_server_def)
qed

lemma unauthenticated_packet_witness:
  "handle_packet sample_cfg sample_link (listRequest ''x'') (new_conn ([], [])) sample_server =
    Running (reply sample_link (error ''Authentication required'') (new_conn ([], [])), sample_server)"
  using unauthenticated_packet [of "new_conn ([], [])" "listRequest ''x''" sample_cfg sample_link sample_server]
  by (simp add: new_conn_def new_session_def list_request.build_kind)

lemma login_sound_witness:
  "\<exists>u pw. parseAuthRequest (authRequest ''u'' ''p'') = Parsed (u, pw) \<and>
    authenticate (cfg_evp sample_cfg) (srv_users sample_server) u pw \<and> u = ''u''"
  using login_sound [OF sample_login [of "([], [])"]] by (auto simp: new_conn_def new_session_def)

lemma connection_invariant_witness:
  "\<exists>t c' s'. conn_reach sample_cfg sample_link (new_conn t, sample_server) (c', s') \<and>
    session_authenticated (sess c') \<and> srv_users s' (session_username (sess c')) \<noteq> None"
proof -
  let ?p = "authRequest ''u'' ''p''"
  obtain t' where t': "receivePacket sample_link (cfg_alloc sample_cfg) (serialize ?p, []) = (Received ?p, t')"
    using sample_link.receivePacket_live [of "(serialize ?p, [])" ?p "[]" 4096 4096]
      auth_request.build_consistent [of "(''u'', ''p'')"]
    by (auto simp: sample_cfg_def header_len_def codec_simps)
  have step: "conn_step sample_cfg sample_link (new_conn (serialize ?p, []), sample_server)
      (reply sample_link (authResponse True 7 ''Authentication successful'')
      ((new_conn t')\<lparr>sess := \<lparr>session_id = 7, session_username = ''u'', session_authenticated = True\<rparr>,
        cstate := AUTHENTICATED\<rparr>), sample_server\<lparr>srv_draws := 1\<rparr>)"
    using t' sample_login [of t'] by (intro conn_step.turn) (simp_all add: new_conn_def)
  show ?thesis
    using connection_invariant [OF conn_reach.step [OF conn_reach.start step]]
      conn_reach.step [OF conn_reach.start step] by fastforce
qed

lemma unauthenticated_connection_changes_nothing_witness:
  "\<exists>c'. handleClient 1 sample_cfg sample_link Verified ([], []) sample_server =
    Served (Disconnected c' sample_server)"
proof -
  have "handleClient 1 sample_cfg sample_link Verified ([], []) sample_server =
      Served (Disconnected (new_conn ([], [])) sample_server)"
    by (simp add: handleClient_def receivePacket_def sample_link_def header_len_def new_conn_def)
  then show ?thesis
    using unauthenticated_connection_changes_nothing [of 1 sample_cfg sample_link Verified "([], [])"
      sample_server "new_conn ([], [])" sample_server] by (auto simp: new_conn_def new_session_def)
qed

lemma serve_loop_terminates_witness:
  "serve_loop 9 sample_cfg sample_link (new_conn (replicate 100 1, [])) sample_server \<noteq> OutOfFuel"
  using serve_loop_terminates [of sample_link fst snd "new_conn (replicate 100 1, [])" 9 sample_cfg sample_server]
    sample_link.itransport_axioms by (simp add: new_conn_def)

lemma oversized_header_kills_server_witness:
  "run 1 sample_cfg sample_link [Some (Verified, (enc32 1 @ enc64 0x10000000000, []))] sample_server = None"
proof -
  have "recvAll sample_link (enc32 1 @ enc64 0x10000000000, []) header_len =
      (Some (enc32 1 @ enc64 0x10000000000), ([], []))"
    by (simp add: sample_link_def header_len_def)
  from oversized_header_kills_server [OF this, of sample_cfg 0 sample_server "[]"] show ?thesis
    by (simp add: sample_cfg_def)
qed

end
