(* ===== verification/Server_Invariant.thy ===== *)
theory Server_Invariant
  imports Connection
begin

text \<open>
  What every operation of every client keeps: the tree of the storage stays well formed, and every
  upload session is open, counts no more than it announced and writes to an inode of its own disk.
  The locale \<open>storage_invariant\<close> states what a property of the disk and the pending uploads needs from
  the service operations; inside it the property is carried over handlers, connections and runs.
\<close>

section \<open>Storage and sessions\<close>

text \<open>What the operations rely on about the configured root and keep about the disk.\<close>

lemma target_no_slash':
  "list_all no_slash r \<Longrightarrow> list_all no_slash (path_append r (path_of s))"
  using path_of_no_slash [of s]
  by (auto simp: path_append_def Let_def list_all_iff no_slash_def dest: in_set_butlastD)

lemma resolvePath_normal:
  assumes "wf_fs f" and "list_all no_slash rt" and "resolvePath rt f s = Inr r"
  shows "normal_path r \<and> list_all no_slash r"
proof -
  have "weakly_canonical f (path_append rt (path_of (strip_leading s))) = Inr r"
    using assms(3) by (auto simp: resolvePath_def Let_def split: sum.splits if_splits)
  from weakly_canonical_normal [OF assms(1) this target_no_slash' [OF assms(2)]] show ?thesis
    using normal_path_no_slash by blast
qed

lemma deletePath_wf:
  assumes "wf_fs (disk s)" and "list_all no_slash (root env)"
  shows "wf_fs (disk (snd (deletePath env s p u)))"
  using assms wf_fs_remove [OF assms(1)] resolvePath_normal [OF assms]
  by (auto simp: deletePath_def Let_def delete_failed_def delete_logAudit_def
      split: sum.splits prod.splits bool.splits) (metis snd_conv)+


lemma removeDirectory_wf:
  assumes "wf_fs (disk s)" and "list_all no_slash (root env)"
  shows "wf_fs (disk (snd (removeDirectory env s p u)))"
  using assms wf_fs_remove [OF assms(1)] resolvePath_normal [OF assms]
  by (auto simp: removeDirectory_def Let_def directory_failed_def directory_logAudit_def
      split: sum.splits prod.splits bool.splits) (metis snd_conv)+

lemma createDirectory_wf:
  assumes "wf_fs (disk s)" and "list_all no_slash (root env)"
  shows "wf_fs (disk (snd (createDirectory env s p u)))"
  using assms wf_create_directories [OF assms(1)] resolvePath_normal [OF assms]
  by (auto simp: createDirectory_def Let_def directory_failed_def directory_logAudit_def
      split: sum.splits prod.splits bool.splits option.splits) (metis snd_conv)+

lemma renamePath_wf:
  assumes "wf_fs (disk s)" and "list_all no_slash (root env)"
  shows "wf_fs (disk (snd (renamePath env s p q u)))"
proof -
  have "wf_fs f'" if "resolvePath (root env) (disk s) x = Inr a" "resolvePath (root env) (disk s) y = Inr b"
    "fs_rename (disk s) a b = Inr f'" for x y a b f'
    using wf_fs_rename [OF assms(1) _ _ that(3)] resolvePath_normal [OF assms] that(1,2) by blast
  then show ?thesis
    using assms(1)
    by (auto simp: renamePath_def Let_def rename_failed_def rename_logAudit_def split: sum.splits)
qed

text \<open>Inode numbers are only ever added.\<close>

lemma fs_remove_next_inode: "next_inode (snd (snd (fs_remove f p))) = next_inode f"
proof -
  obtain ok ec f' where r: "fs_remove f p = (ok, ec, f')"
    by (metis prod.collapse)
  show ?thesis
    using fs_remove_result [OF r] r by (cases ok) auto
qed

lemma list_all_butlast: "list_all P xs \<Longrightarrow> list_all P (butlast xs)"
  by (auto simp: list_all_iff dest: in_set_butlastD)

lemma create_directories_next_inode:
  "wf_fs f \<Longrightarrow> list_all no_slash p \<Longrightarrow> next_inode (snd (snd (create_directories f p))) = next_inode f"
  using mkdirs_dirs_added [of f "[]" "if p \<noteq> [] \<and> last p = [] then butlast p else p" False]
  by (auto simp: create_directories_def dirs_added_def list_all_butlast)

lemma fs_rename_next_inode: "fs_rename f p q = Inr f' \<Longrightarrow> next_inode f' = next_inode f"
  by (auto simp: fs_rename_def move_entries_def del_entry_def split: sum.splits option.splits if_splits)

lemma open_trunc_next_inode:
  assumes "wf_fs f" and "list_all no_slash p" and "open_trunc k f p = Inr (i, f')"
  shows "next_inode f \<le> next_inode f' \<and> i < next_inode f'"
proof
  show "i < next_inode f'"
    using open_trunc_result [OF assms] wf_open_trunc [OF assms] wf_fs_entryD(3)
    by (metis node.distinct(1) node_at_Nil option.inject)
  show "next_inode f \<le> next_inode f'"
    using assms(3)
    by (induction k f p rule: open_trunc.induct)
      (auto simp: create_file_def add_entry_def split: sum.splits bool.splits option.splits node.splits nat.splits)
qed

section \<open>The upload sessions of a server\<close>

definition session_ok :: "fs \<Rightarrow> u64 \<Rightarrow> 'c upload_session \<Rightarrow> bool" where
  "session_ok f uid se \<longleftrightarrow>
     us_upload_id se = uid \<and> us_active se \<and> us_received_bytes se \<le> us_expected_size se \<and>
     list_all no_slash (us_target_path se) \<and> os_open (us_file_stream se) \<and> us_inode se < next_inode f"

definition sessions_ok :: "fs \<Rightarrow> 'c sessions \<Rightarrow> bool" where
  "sessions_ok f ss \<longleftrightarrow> (\<forall>uid se. ss uid = Some se \<longrightarrow> session_ok f uid se)"

lemma sessions_ok_mono:
  "sessions_ok f ss \<Longrightarrow> next_inode f \<le> next_inode f' \<Longrightarrow> sessions_ok f' ss"
  by (fastforce simp: sessions_ok_def session_ok_def)

lemma sessions_ok_remove: "sessions_ok f ss \<Longrightarrow> sessions_ok f (ss(uid := None))"
  by (auto simp: sessions_ok_def)

lemma sessions_ok_put: "sessions_ok f ss \<Longrightarrow> session_ok f uid se \<Longrightarrow> sessions_ok f (ss(uid \<mapsto> se))"
  by (auto simp: sessions_ok_def)

definition uploads_ok :: "'c sessions \<times> fs \<Rightarrow> bool" where
  "uploads_ok r \<longleftrightarrow> wf_fs (snd r) \<and> sessions_ok (snd r) (fst r)"

lemma beginUpload_ok:
  assumes "wf_fs f" and "sessions_ok f ss" and "list_all no_slash rt"
  shows "uploads_ok (snd (beginUpload E rt ss f uid rd nm sz h))"
proof (cases "ss uid = None \<and> valid_filename nm")
  case True
  show ?thesis
  proof (cases "resolvePath rt f rd")
    case (Inr dir)
    define f1 where "f1 = (if \<not> fs_exists f dir then snd (snd (create_directories f dir)) else f)"
    have dir: "normal_path dir" "list_all no_slash dir"
      using resolvePath_normal [OF assms(1,3) Inr] by simp_all
    then have f1: "wf_fs f1" "next_inode f1 = next_inode f"
      using wf_create_directories [OF assms(1)] create_directories_next_inode [OF assms(1)] assms(1)
      by (simp_all add: f1_def)
    define target where "target = path_append dir (path_of nm)"
    have t: "list_all no_slash target"
      unfolding target_def by (rule target_no_slash' [OF dir(2)])
    have eq: "beginUpload E rt ss f uid rd nm sz h =
      (case open_trunc max_links f1 target of
         Inl e \<Rightarrow> (UploadError ''Could not open target file for writing'', ss, f1)
       | Inr (i, f) \<Rightarrow>
           (case evp_new E of
              None \<Rightarrow> (UploadError ''Failed to initialize digest context'', ss, f)
            | Some ctx \<Rightarrow>
                (UploadOk,
                 ss(uid \<mapsto>
                   \<lparr>us_upload_id = uid, us_filename = nm,
                    us_target_path = target, us_expected_size = sz,
                    us_received_bytes = 0, us_expected_sha256 = h,
                    us_file_stream = os_opened i, us_md_ctx = ctx, us_active = True\<rparr>),
                 f)))"
      unfolding beginUpload_def f1_def target_def Let_def
      using True Inr by (simp del: open_trunc.simps)
    show ?thesis
    proof (cases "open_trunc max_links f1 target")
      case (Inl e)
      then show ?thesis
        using f1 sessions_ok_mono [OF assms(2), of f1] by (simp add: eq uploads_ok_def)
    next
      case (Inr a)
      obtain i f2 where a: "a = (i, f2)" by force
      have f2: "wf_fs f2" "next_inode f1 \<le> next_inode f2" "i < next_inode f2"
        using wf_open_trunc [OF f1(1) t] open_trunc_next_inode [OF f1(1) t] Inr a by simp_all
      have "sessions_ok f2 ss"
        using sessions_ok_mono [OF assms(2)] f1(2) f2(2) by simp
      then show ?thesis
        using f2 t Inr a
        by (cases "evp_new E") (auto simp: eq uploads_ok_def os_opened_def session_ok_def intro!: sessions_ok_put)
    qed
  qed (use True assms in \<open>simp add: beginUpload_def uploads_ok_def\<close>)
qed (use assms in \<open>auto simp: beginUpload_def uploads_ok_def\<close>)

lemma writeChunk_ok:
  assumes "wf_fs f" and "sessions_ok f ss"
  shows "uploads_ok (snd (writeChunk E ss f uid off d))"
proof (cases "ss uid")
  case (Some se)
  obtain st f' where w: "os_write (us_file_stream se) d f = (st, f')" by force
  note ws = os_write_writes [OF w]
  have f': "wf_fs f'" "next_inode f' = next_inode f"
    using ws writes_inodeD(8) writes_inodeD(2) assms(1) by blast+
  then have ss: "sessions_ok f' ss"
    using sessions_ok_mono [OF assms(2)] by simp
  have se: "session_ok f' uid se"
    using ss Some by (simp add: sessions_ok_def)
  show ?thesis
    using assms Some w f' ss se ws
    by (auto simp: writeChunk_def Let_def uploads_ok_def session_ok_def not_less
        split: option.splits intro!: sessions_ok_put)
qed (use assms in \<open>simp add: writeChunk_def uploads_ok_def\<close>)

lemma abortUpload_ok:
  assumes "wf_fs f" and "sessions_ok f (ss(uid := None))"
    and "\<And>se. ss uid = Some se \<Longrightarrow> list_all no_slash (us_target_path se)"
  shows "uploads_ok (abortUpload ss f uid)"
proof (cases "ss uid")
  case (Some se)
  define f1 where "f1 = (if os_open (us_file_stream se) then snd (os_close (us_file_stream se) f) else f)"
  have "writes_inode (us_inode se) f f1"
    using os_close_writes [of "us_file_stream se" f "fst (os_close (us_file_stream se) f)"
        "snd (os_close (us_file_stream se) f)"] by (simp add: f1_def)
  then have "wf_fs f1" "next_inode f1 = next_inode f"
    using writes_inodeD(8) writes_inodeD(2) assms(1) by blast+
  moreover note wf_fs_remove [of f1 "us_target_path se"] fs_remove_next_inode [of f1 "us_target_path se"]
  ultimately show ?thesis
    using Some assms(2,3) sessions_ok_mono [OF assms(2), of "snd (snd (fs_remove f1 (us_target_path se)))"]
    by (simp add: abortUpload_def uploads_ok_def Let_def f1_def [symmetric])
qed (use assms in \<open>auto simp: abortUpload_def uploads_ok_def fun_upd_idem\<close>)

lemma finishUpload_ok:
  assumes "wf_fs f" and "sessions_ok f ss" and "fst (finishUpload E ss f uid) \<noteq> UploadUB"
  shows "uploads_ok (snd (finishUpload E ss f uid))"
proof (cases "ss uid")
  case (Some se)
  obtain st f' where w: "os_close (us_file_stream se) f = (st, f')" by force
  have f': "wf_fs f'" "next_inode f' = next_inode f"
    using os_close_writes [OF w] writes_inodeD(8) writes_inodeD(2) assms(1) by blast+
  let ?ss = "ss(uid \<mapsto> se\<lparr>us_file_stream := st\<rparr>)"
  have rm: "sessions_ok f' (?ss(uid := None))"
    using sessions_ok_remove [OF assms(2), of uid] f' sessions_ok_mono by fastforce
  have "uploads_ok (abortUpload ?ss f' uid)"
    using Some assms(2) by (intro abortUpload_ok [OF f'(1) rm]) (auto simp: sessions_ok_def session_ok_def)
  then show ?thesis
    using assms Some w f' rm
    by (auto simp: finishUpload_def Let_def uploads_ok_def split: option.splits parse.splits bool.splits)
qed (use assms in \<open>simp add: finishUpload_def uploads_ok_def\<close>)

lemma deletePath_next_inode:
  "next_inode (disk (snd (deletePath env s p u))) = next_inode (disk s)"
  using fs_remove_next_inode [of "disk s"]
  by (auto simp: deletePath_def Let_def delete_failed_def delete_logAudit_def
      split: sum.splits prod.splits bool.splits) (metis snd_conv)+

lemma removeDirectory_next_inode:
  "next_inode (disk (snd (removeDirectory env s p u))) = next_inode (disk s)"
  using fs_remove_next_inode [of "disk s"]
  by (auto simp: removeDirectory_def Let_def directory_failed_def directory_logAudit_def
      split: sum.splits prod.splits bool.splits) (metis snd_conv)+

lemma renamePath_next_inode:
  "next_inode (disk (snd (renamePath env s p q u))) = next_inode (disk s)"
  by (auto simp: renamePath_def Let_def rename_failed_def rename_logAudit_def fs_rename_next_inode
      split: sum.splits)

lemma createDirectory_next_inode:
  assumes "wf_fs (disk s)" and "list_all no_slash (root env)"
  shows "next_inode (disk (snd (createDirectory env s p u))) = next_inode (disk s)"
  using create_directories_next_inode [OF assms(1)] resolvePath_normal [OF assms]
  by (auto simp: createDirectory_def Let_def directory_failed_def directory_logAudit_def
      split: sum.splits prod.splits bool.splits option.splits) (metis snd_conv)+

section \<open>What every operation keeps, every run keeps\<close>

lemma connection_users:
  assumes "conn_reach cfg T a b"
  shows "srv_users (snd b) = srv_users (snd a)"
  using assms
proof (induction rule: conn_reach.induct)
  case (step b d)
  from step(2) show ?case
    using step(3)
    by cases (auto elim!: handle_packet_cases handle_auth_cases)
qed simp

text \<open>A run changes the server only by the packets of its connections.\<close>

lemma run_by_connections:
  assumes "run fuel cfg T clients s = Some s'" and "P s"
    and conn: "\<And>t s c' s'. P s \<Longrightarrow> conn_reach cfg T (new_conn t, s) (c', s') \<Longrightarrow> P s'"
  shows "P s'"
  using assms(1,2)
proof (induction clients arbitrary: s)
  case (Cons cl clients)
  show ?case
  proof (cases cl)
    case None
    with Cons show ?thesis by simp
  next
    case (Some x)
    obtain hs t where x: "x = (hs, t)" by force
    consider (closed) "handleClient fuel cfg T hs t s = Closed s"
      | (served) c1 s1 where "handleClient fuel cfg T hs t s = Served (Disconnected c1 s1)"
      using Cons.prems(1) Some x
      by (cases hs) (auto simp: handleClient_def split: ended.splits client_end.splits)
    then show ?thesis
    proof cases
      case closed
      with Cons Some x show ?thesis by simp
    next
      case (served c1 s1)
      have "last_conn (serve_loop fuel cfg T (new_conn t) s) = Some (c1, s1)"
        using served by (cases hs) (auto simp: handleClient_def last_conn_Some new_conn_def)
      then have "P s1"
        using serve_loop_reach conn [OF Cons.prems(2)] by blast
      then show ?thesis
        using Cons.IH Cons.prems(1) Some x served by simp
    qed
  qed
qed simp

lemma run_users: "run fuel cfg T clients s = Some s' \<Longrightarrow> srv_users s' = srv_users s"
  by (rule run_by_connections [where P = "\<lambda>x. srv_users x = srv_users s"])
    (auto dest: connection_users)

text \<open>A property of the disk and the pending uploads that each service operation keeps.\<close>

locale storage_invariant =
  fixes cfg :: "'c config"
    and I :: "fs \<Rightarrow> 'c sessions \<Rightarrow> bool"
  assumes begin_keeps: "I f ss \<Longrightarrow>
      beginUpload (cfg_evp cfg) (root (cfg_env cfg)) ss f i rd nm sz h = (x, r) \<Longrightarrow> I (snd r) (fst r)"
    and chunk_keeps: "I f ss \<Longrightarrow> writeChunk (cfg_evp cfg) ss f i off d = (x, r) \<Longrightarrow> I (snd r) (fst r)"
    and end_keeps: "I f ss \<Longrightarrow> finishUpload (cfg_evp cfg) ss f i = (x, r) \<Longrightarrow> x \<noteq> UploadUB \<Longrightarrow> I (snd r) (fst r)"
    and delete_keeps: "I (disk st) ss \<Longrightarrow> deletePath (cfg_env cfg) st a u = (v, st') \<Longrightarrow> I (disk st') ss"
    and rename_keeps: "I (disk st) ss \<Longrightarrow> renamePath (cfg_env cfg) st a b u = (v, st') \<Longrightarrow> I (disk st') ss"
    and mkdir_keeps: "I (disk st) ss \<Longrightarrow> createDirectory (cfg_env cfg) st a u = (v, st') \<Longrightarrow> I (disk st') ss"
    and rmdir_keeps: "I (disk st) ss \<Longrightarrow> removeDirectory (cfg_env cfg) st a u = (v, st') \<Longrightarrow> I (disk st') ss"
begin

lemma handlers_keep:
  assumes "I (disk (srv_store s)) (srv_uploads s)"
  shows "handle_auth cfg T p c s = Running (c', s') \<Longrightarrow> I (disk (srv_store s')) (srv_uploads s')"
    and "handle_list cfg T p c s = Running (c', s') \<Longrightarrow> I (disk (srv_store s')) (srv_uploads s')"
    and "handle_download cfg T p c s = Running (c', s') \<Longrightarrow> I (disk (srv_store s')) (srv_uploads s')"
    and "handle_ping cfg T p c s = Running (c', s') \<Longrightarrow> I (disk (srv_store s')) (srv_uploads s')"
    and "handle_legacy cfg T p c s = Running (c', s') \<Longrightarrow> I (disk (srv_store s')) (srv_uploads s')"
    and "handle_upload_begin cfg T p c s = Running (c', s') \<Longrightarrow> I (disk (srv_store s')) (srv_uploads s')"
    and "handle_upload_chunk cfg T p c s = Running (c', s') \<Longrightarrow> I (disk (srv_store s')) (srv_uploads s')"
    and "handle_upload_end cfg T p c s = Running (c', s') \<Longrightarrow> I (disk (srv_store s')) (srv_uploads s')"
    and "handle_delete cfg T p c s = Running (c', s') \<Longrightarrow> I (disk (srv_store s')) (srv_uploads s')"
    and "handle_rename cfg T p c s = Running (c', s') \<Longrightarrow> I (disk (srv_store s')) (srv_uploads s')"
    and "handle_mkdir cfg T p c s = Running (c', s') \<Longrightarrow> I (disk (srv_store s')) (srv_uploads s')"
    and "handle_rmdir cfg T p c s = Running (c', s') \<Longrightarrow> I (disk (srv_store s')) (srv_uploads s')"
proof -
  show "handle_auth cfg T p c s = Running (c', s') \<Longrightarrow> I (disk (srv_store s')) (srv_uploads s')"
    using assms by (erule_tac handle_auth_cases) simp_all
  show "handle_list cfg T p c s = Running (c', s') \<Longrightarrow> I (disk (srv_store s')) (srv_uploads s')"
    using assms
    by (auto simp: handle_list_def
        split: if_splits parse.splits sum.splits upload_result.splits prod.splits)
  show "handle_ping cfg T p c s = Running (c', s') \<Longrightarrow> I (disk (srv_store s')) (srv_uploads s')"
    using assms
    by (auto simp: handle_ping_def
        split: if_splits parse.splits sum.splits upload_result.splits prod.splits)
  show "handle_legacy cfg T p c s = Running (c', s') \<Longrightarrow> I (disk (srv_store s')) (srv_uploads s')"
    using assms
    by (auto simp: handle_legacy_def
        split: if_splits parse.splits sum.splits upload_result.splits prod.splits)
  show "handle_download cfg T p c s = Running (c', s') \<Longrightarrow> I (disk (srv_store s')) (srv_uploads s')"
    using assms
    by (auto simp: handle_download_def Let_def
        split: if_splits parse.splits sum.splits upload_result.splits prod.splits)
  show "handle_upload_begin cfg T p c s = Running (c', s') \<Longrightarrow> I (disk (srv_store s')) (srv_uploads s')"
    using assms
    by (auto simp: handle_upload_begin_def dest: begin_keeps [OF assms]
        split: if_splits parse.splits sum.splits upload_result.splits prod.splits)
  show "handle_upload_chunk cfg T p c s = Running (c', s') \<Longrightarrow> I (disk (srv_store s')) (srv_uploads s')"
    using assms
    by (auto simp: handle_upload_chunk_def dest: chunk_keeps [OF assms]
        split: if_splits parse.splits sum.splits upload_result.splits prod.splits)
  show "handle_upload_end cfg T p c s = Running (c', s') \<Longrightarrow> I (disk (srv_store s')) (srv_uploads s')"
    using assms
    by (auto simp: handle_upload_end_def dest: end_keeps [OF assms]
        split: if_splits parse.splits sum.splits upload_result.splits prod.splits)
  show "handle_delete cfg T p c s = Running (c', s') \<Longrightarrow> I (disk (srv_store s')) (srv_uploads s')"
    using assms
    by (auto simp: handle_delete_def dest: delete_keeps [OF assms]
        split: if_splits parse.splits sum.splits upload_result.splits prod.splits)
  show "handle_rename cfg T p c s = Running (c', s') \<Longrightarrow> I (disk (srv_store s')) (srv_uploads s')"
    using assms
    by (auto simp: handle_rename_def dest: rename_keeps [OF assms]
        split: if_splits parse.splits sum.splits upload_result.splits prod.splits)
  show "handle_mkdir cfg T p c s = Running (c', s') \<Longrightarrow> I (disk (srv_store s')) (srv_uploads s')"
    using assms
    by (auto simp: handle_mkdir_def dest: mkdir_keeps [OF assms]
        split: if_splits parse.splits sum.splits upload_result.splits prod.splits)
  show "handle_rmdir cfg T p c s = Running (c', s') \<Longrightarrow> I (disk (srv_store s')) (srv_uploads s')"
    using assms
    by (auto simp: handle_rmdir_def dest: rmdir_keeps [OF assms]
        split: if_splits parse.splits sum.splits upload_result.splits prod.splits)
qed

lemma packet_keeps:
  assumes "I (disk (srv_store s)) (srv_uploads s)" and "handle_packet cfg T p c s = Running (c', s')"
  shows "I (disk (srv_store s')) (srv_uploads s')"
proof (cases "packet_kind p")
  case (Some k)
  from assms show ?thesis
    unfolding handle_packet_def Some option.case
    by (cases k) (simp_all, (erule handlers_keep [OF assms(1)])+)
qed (use assms in \<open>simp add: handle_packet_def\<close>)

lemma connection_keeps:
  assumes "conn_reach cfg T a b" and "I (disk (srv_store (snd a))) (srv_uploads (snd a))"
  shows "I (disk (srv_store (snd b))) (srv_uploads (snd b))"
  using assms
proof (induction rule: conn_reach.induct)
  case (step b d)
  from step(2) show ?case
  proof cases
    case (turn c p t s c' s')
    with step show ?thesis
      using packet_keeps [OF _ turn(4)] by simp
  qed
qed simp

lemma run_keeps:
  assumes "run fuel cfg T clients s = Some s'" and "I (disk (srv_store s)) (srv_uploads s)"
  shows "I (disk (srv_store s')) (srv_uploads s')"
  by (rule run_by_connections [OF assms(1), where P = "\<lambda>s. I (disk (srv_store s)) (srv_uploads s)"])
    (use assms(2) connection_keeps in fastforce)+

end

section \<open>The invariant of the server\<close>

interpretation wf_storage: storage_invariant cfg
    "\<lambda>f ss. list_all no_slash (root (cfg_env cfg)) \<and> wf_fs f \<and> sessions_ok f ss" for cfg :: "'c config"
proof (unfold_locales, goal_cases)
  case (1 f ss i rd nm sz h x r)
  then show ?case
    using beginUpload_ok [of f ss "root (cfg_env cfg)" "cfg_evp cfg" i rd nm sz h] by (simp add: uploads_ok_def)
next
  case (2 f ss i off d x r)
  then show ?case
    using writeChunk_ok [of f ss "cfg_evp cfg" i off d] by (simp add: uploads_ok_def)
next
  case (3 f ss i x r)
  then show ?case
    using finishUpload_ok [of f ss "cfg_evp cfg" i] by (simp add: uploads_ok_def)
next
  case (4 st ss a u v st')
  then show ?case
    using deletePath_wf [of st "cfg_env cfg" a u] deletePath_next_inode [of "cfg_env cfg" st a u]
      sessions_ok_mono [of "disk st" ss "disk st'"] by simp
next
  case (5 st ss a b u v st')
  then show ?case
    using renamePath_wf [of st "cfg_env cfg" a b u] renamePath_next_inode [of "cfg_env cfg" st a b u]
      sessions_ok_mono [of "disk st" ss "disk st'"] by simp
next
  case (6 st ss a u v st')
  then show ?case
    using createDirectory_wf [of st "cfg_env cfg" a u] createDirectory_next_inode [of st "cfg_env cfg" a u]
      sessions_ok_mono [of "disk st" ss "disk st'"] by simp
next
  case (7 st ss a u v st')
  then show ?case
    using removeDirectory_wf [of st "cfg_env cfg" a u] removeDirectory_next_inode [of "cfg_env cfg" st a u]
      sessions_ok_mono [of "disk st" ss "disk st'"] by simp
qed

text \<open>The invariant of the server across any sequence of clients, from any well-formed disk without
  pending uploads.\<close>

theorem server_invariant:
  assumes "run fuel cfg T clients s = Some s'" and "wf_fs (disk (srv_store s))"
    and "srv_uploads s = Map.empty" and "list_all no_slash (root (cfg_env cfg))"
  shows "wf_fs (disk (srv_store s')) \<and> srv_users s' = srv_users s \<and>
    (\<forall>uid se. srv_uploads s' uid = Some se \<longrightarrow>
       us_upload_id se = uid \<and> us_active se \<and> us_received_bytes se \<le> us_expected_size se \<and>
       os_open (us_file_stream se) \<and> os_inode (us_file_stream se) < next_inode (disk (srv_store s')))"
  using run_users [OF assms(1)] wf_storage.run_keeps [OF assms(1)] assms(2-)
  by (fastforce simp: sessions_ok_def session_ok_def)

lemma server_invariant_witness:
  "wf_fs (disk (srv_store sample_server))"
proof -
  have r: "run 1 sample_cfg sample_link [Some (Verified, ([], []))] sample_server = Some sample_server"
    by (simp add: handleClient_def receivePacket_def sample_link_def header_len_def)
  show ?thesis
    using server_invariant [OF r] sample_fs_wf
    by (simp add: sample_server_def sample_cfg_def sample_root_def no_slash_def)
qed

end
