(* ===== verification/Protocol_Properties.thy ===== *)
theory Protocol_Properties
  imports Packet_IO Packet_Builder Samples
begin

text \<open>
  Statements about the wire protocol: the truncation of string fields, the absence of out-of-bounds
  reads in every parser, and sequences of packets over the transports.
\<close>

section \<open>Single messages\<close>

theorem string_fields_truncated:
  "parseListRequest (listRequest s) = Parsed (take (length s mod 65536) s) \<and>
   parseDownloadRequest (downloadRequest s) = Parsed (take (length s mod 65536) s) \<and>
   parseDeleteRequest (deleteRequest s) = Parsed (take (length s mod 65536) s) \<and>
   parseMkdirRequest (mkdirRequest s) = Parsed (take (length s mod 65536) s) \<and>
   parseRmdirRequest (rmdirRequest s) = Parsed (take (length s mod 65536) s)"
  by (simp add: parse_string_requests)

text \<open>C26. No payload makes any of the parsers read outside it.\<close>

theorem parsers_in_bounds:
  "parseAuthRequest p \<noteq> OOB \<and> parseAuthResponse p \<noteq> OOB \<and> parseError p \<noteq> OOB \<and> parseSuccess p \<noteq> OOB \<and>
   parseListRequest p \<noteq> OOB \<and> parseListResponse alloc_max p \<noteq> OOB \<and> parseUploadBegin p \<noteq> OOB \<and>
   parseUploadChunk p \<noteq> OOB \<and> parseUploadEnd p \<noteq> OOB \<and> parseDownloadRequest p \<noteq> OOB \<and>
   parseDownloadBegin p \<noteq> OOB \<and> parseDownloadChunk p \<noteq> OOB \<and> parseDownloadEnd p \<noteq> OOB \<and>
   parseDeleteRequest p \<noteq> OOB \<and> parseDeleteResponse p \<noteq> OOB \<and> parseRenameRequest p \<noteq> OOB \<and>
   parseRenameResponse p \<noteq> OOB \<and> parseMkdirRequest p \<noteq> OOB \<and> parseMkdirResponse p \<noteq> OOB \<and>
   parseRmdirRequest p \<noteq> OOB \<and> parseRmdirResponse p \<noteq> OOB"
  by (simp add: safe_simps)

section \<open>Packets over a stream\<close>

text \<open>Receiving a number of packets in a row.\<close>

fun receive_packets :: "'t transport \<Rightarrow> nat \<Rightarrow> nat \<Rightarrow> 't \<Rightarrow> packet list option \<times> 't" where
  "receive_packets T alloc_max 0 t = (Some [], t)"
| "receive_packets T alloc_max (Suc n) t =
     (case receivePacket T alloc_max t of
        (Received p, t) \<Rightarrow>
          (case receive_packets T alloc_max n t of
             (None, t) \<Rightarrow> (None, t)
           | (Some ps, t) \<Rightarrow> (Some (p # ps), t))
      | (_, t) \<Rightarrow> (None, t))"

text \<open>Over any transport that keeps the ITransport contract, packets that are received successfully are
  the packets that were sent, in order, and exactly their bytes are consumed.\<close>

theorem receive_frames:
  assumes "itransport T inq outq" and "receive_packets T alloc_max (length ps) t = (Some qs, t')"
    and "inq t = concat (map serialize ps) @ xs" and "alloc_max < 2 ^ 64"
    and "\<forall>p \<in> set ps. consistent p \<and> length (payload p) < 2 ^ 64"
  shows "qs = ps \<and> inq t' = xs"
  using assms(2,3,5)
proof (induction ps arbitrary: t qs)
  case Nil
  then show ?case by simp
next
  case (Cons p ps)
  obtain q t1 qs1 where r: "receivePacket T alloc_max t = (Received q, t1)"
    "receive_packets T alloc_max (length ps) t1 = (Some qs1, t')" "qs = q # qs1"
    using Cons.prems(1) by (auto split: prod.splits receive.splits option.splits)
  have "q = p \<and> inq t1 = concat (map serialize ps) @ xs"
    using itransport.receivePacket_sent [OF assms(1) r(1), of p "concat (map serialize ps) @ xs"]
      Cons.prems(2,3) assms(4) by simp
  with Cons.IH [OF r(2)] Cons.prems(3) r(3) show ?case by simp
qed

context live_transport
begin

lemma receive_packets_live:
  assumes "ready t" and "inq t = concat (map serialize ps) @ xs"
    and "\<forall>p \<in> set ps. consistent p \<and> length (payload p) \<le> alloc_max \<and> length (payload p) \<le> max_len"
    and "header_len \<le> max_len" and "max_len < 2 ^ 64"
  shows "\<exists>t'. receive_packets T alloc_max (length ps) t = (Some ps, t') \<and> inq t' = xs \<and> ready t'"
  using assms(1-3)
proof (induction ps arbitrary: t)
  case Nil
  then show ?case by simp
next
  case (Cons p ps)
  obtain t1 where t1: "receivePacket T alloc_max t = (Received p, t1)"
    "inq t1 = concat (map serialize ps) @ xs" "ready t1"
    using receivePacket_live [of t p "concat (map serialize ps) @ xs" alloc_max] Cons.prems assms(4,5) by auto
  from Cons.IH [OF t1(3,2)] Cons.prems(3) show ?case
    using t1(1) by fastforce
qed

end

context live_ssl_stream
begin

lemma packets_live:
  assumes "ready s" and "inq s = concat (map serialize ps) @ xs"
    and "\<forall>p \<in> set ps. consistent p \<and> length (payload p) \<le> alloc_max \<and> length (payload p) \<le> max_int"
  shows "\<exists>s'. receive_packets (tls_transport ssl_write ssl_read) alloc_max (length ps) (Some s) = (Some ps, Some s') \<and>
    inq s' = xs"
proof -
  have "header_len \<le> max_int" "max_int < 2 ^ 64"
    by (simp_all add: header_len_def max_int_def)
  with tls_live.receive_packets_live [of "Some s" ps xs alloc_max] assms show ?thesis
    by (auto split: option.splits)
qed

end

text \<open>C27. Over TLS calls that make progress, a sequence of packets of at most 2^31 - 1 payload bytes is
  received completely and in order, however the calls split it.\<close>

theorem tls_stream_delivers:
  assumes "live_ssl_stream ssl_write ssl_read inq outq ready" and "ready s"
    and "inq s = concat (map serialize ps) @ xs"
    and "\<forall>p \<in> set ps. consistent p \<and> length (payload p) \<le> alloc_max \<and> length (payload p) \<le> max_int"
  shows "\<exists>s'. receive_packets (tls_transport ssl_write ssl_read) alloc_max (length ps) (Some s) = (Some ps, Some s') \<and>
    inq s' = xs"
  by (rule live_ssl_stream.packets_live [OF assms])

definition sample_sock :: "bytes \<Rightarrow> sock" where
  "sample_sock d = \<lparr>inbox = d, outbox = [], calls = 0, plan = (\<lambda>i. 1 + int i)\<rparr>"

lemma tls_stream_delivers_witness:
  "\<exists>s'. receive_packets (tls_transport sock_ssl_write sock_ssl_read) 100 (length [ping, success ''ok''])
     (Some (sample_sock (concat (map serialize [ping, success ''ok'']) @ [7])))
     = (Some [ping, success ''ok''], Some s') \<and> inbox s' = [7]"
proof (rule tls_stream_delivers [OF sock_tls_live.live_ssl_stream_axioms])
  show "\<forall>p \<in> set [ping, success ''ok'']. consistent p \<and> length (payload p) \<le> 100 \<and> length (payload p) \<le> max_int"
    by (simp add: consistent_def ping_def success_def max_int_def layout_concat)
qed (simp_all add: sample_sock_def sock_ready_def)

lemma receive_frames_witness:
  "\<exists>t. receive_packets sample_link 100 (length [ping, pong]) (concat (map serialize [ping, pong]) @ [], []) =
     (Some [ping, pong], t) \<and> fst t = []"
proof -
  have c: "\<forall>p \<in> set [ping, pong]. consistent p \<and> length (payload p) \<le> 100 \<and> length (payload p) < 2 ^ 64"
    by (simp add: ping_def pong_def consistent_def)
  obtain t where r: "receive_packets sample_link 100 (length [ping, pong])
      (concat (map serialize [ping, pong]) @ [], []) = (Some [ping, pong], t)"
    using sample_link.receive_packets_live [of "(concat (map serialize [ping, pong]) @ [], [])" "[ping, pong]" "[]"
        100 100] c by (auto simp: header_len_def)
  with receive_frames [OF sample_link.itransport_axioms r, of "[]"] c show ?thesis
    by auto
qed

end
