(* ===== verification/Client.thy ===== *)
theory Client
  imports Session Download_Service
begin

text \<open>
  \<open>sdk/src/sailor_client_internal.cpp\<close>: the client object behind the C interface.  Every public
  operation holds the (non-recursive) mutex of the object; \<open>connect\<close> calls \<open>disconnect\<close>, which
  locks it again, so those paths block for ever.  The results of the system and OpenSSL calls of
  \<open>connect\<close> are the fields of \<open>network\<close>; the callbacks are the events they receive.
\<close>

section \<open>State\<close>

datatype sailor_status =
    SAILOR_OK | SAILOR_CONNECTION_FAILED | SAILOR_AUTH_FAILED | SAILOR_FILE_NOT_FOUND
  | SAILOR_PERMISSION_DENIED | SAILOR_INVALID_PATH | SAILOR_INTERNAL_ERROR | SAILOR_NOT_CONNECTED
  | SAILOR_OPERATION_FAILED

datatype event = Progress u64 u64 | Logged string

text \<open>\<open>cl_socket\<close> says whether \<open>socket_fd_\<close> is a descriptor.\<close>

record 't client =
  cl_socket :: bool
  cl_session_id :: u64
  cl_state :: connection_state
  cl_transport :: "'t option"
  cl_progress_cb :: bool
  cl_log_cb :: bool
  cl_events :: "event list"

definition new_client :: "'t client" where
  "new_client =
     \<lparr>cl_socket = False, cl_session_id = 0, cl_state = DISCONNECTED, cl_transport = None,
      cl_progress_cb = False, cl_log_cb = False, cl_events = []\<rparr>"

text \<open>What a call does: it returns, an exception leaves it, it locks a mutex that its own thread
  holds, it runs into undefined behaviour, or its fuel runs out.\<close>

datatype 'a call = Returns 'a | Raised | Blocked | UB | Unfinished

definition setProgressCallback :: "bool \<Rightarrow> 't client \<Rightarrow> 't client" where
  "setProgressCallback cb c = c\<lparr>cl_progress_cb := cb\<rparr>"

definition setLogCallback :: "bool \<Rightarrow> 't client \<Rightarrow> 't client" where
  "setLogCallback cb c = c\<lparr>cl_log_cb := cb\<rparr>"

definition log_msg :: "string \<Rightarrow> 't client \<Rightarrow> 't client" where
  "log_msg msg c = (if cl_log_cb c then c\<lparr>cl_events := cl_events c @ [Logged msg]\<rparr> else c)"

definition progress :: "u64 \<Rightarrow> u64 \<Rightarrow> 't client \<Rightarrow> 't client" where
  "progress n n_total c =
     (if cl_progress_cb c then c\<lparr>cl_events := cl_events c @ [Progress n n_total]\<rparr> else c)"

abbreviation put_transport :: "'t \<Rightarrow> 't client \<Rightarrow> 't client" where
  "put_transport t c \<equiv> c\<lparr>cl_transport := Some t\<rparr>"

section \<open>Connecting\<close>

definition isConnected :: "'t client \<Rightarrow> bool" where
  "isConnected c \<longleftrightarrow> cl_state c = AUTHENTICATED \<and> cl_transport c \<noteq> None"

definition disconnect :: "'t client \<Rightarrow> sailor_status \<times> 't client" where
  "disconnect c =
     (SAILOR_OK, log_msg ''Disconnected''
        (c\<lparr>cl_transport := None, cl_socket := False, cl_state := DISCONNECTED, cl_session_id := 0\<rparr>))"

text \<open>\<open>tls_context_.initialize()\<close>, \<open>socket\<close>, \<open>inet_pton\<close>, \<open>::connect\<close>, \<open>SSL_new\<close>, \<open>SSL_connect\<close>.\<close>

record 't network =
  net_tls :: bool
  net_socket :: bool
  net_address :: bool
  net_connect :: bool
  net_ssl :: bool
  net_handshake :: "'t option"

definition connect ::
  "'t transport \<Rightarrow> nat \<Rightarrow> 't network \<Rightarrow> string \<Rightarrow> string \<Rightarrow> 't client \<Rightarrow>
   sailor_status call \<times> 't client" where
  "connect T alloc_max net user pass c =
     (if \<not> net_tls net
      then (Returns SAILOR_INTERNAL_ERROR, log_msg ''Failed to initialize TLS context'' c)
      else if \<not> net_socket net
      then (Returns SAILOR_CONNECTION_FAILED, log_msg ''Socket creation failed'' (c\<lparr>cl_socket := False\<rparr>))
      else if \<not> net_address net
      then (Returns SAILOR_CONNECTION_FAILED, log_msg ''Invalid IP address'' (c\<lparr>cl_socket := False\<rparr>))
      else if \<not> net_connect net
      then (Returns SAILOR_CONNECTION_FAILED, log_msg ''TCP connection failed'' (c\<lparr>cl_socket := False\<rparr>))
      else if \<not> net_ssl net
      then (Returns SAILOR_INTERNAL_ERROR, c\<lparr>cl_socket := False\<rparr>)
      else case net_handshake net of
        None \<Rightarrow>
          (Returns SAILOR_CONNECTION_FAILED, log_msg ''TLS handshake failed'' (c\<lparr>cl_socket := False\<rparr>))
      | Some t \<Rightarrow>
          (let c = log_msg ''TLS handshake complete''
                 (c\<lparr>cl_socket := True, cl_transport := Some t, cl_state := CONNECTED_UNAUTHENTICATED\<rparr>)
           in case sendPacket T t (authRequest user pass) of
                (False, t) \<Rightarrow> (Blocked, put_transport t c)
              | (True, t) \<Rightarrow>
                  (case receivePacket T alloc_max t of
                     (RecvFailed, t) \<Rightarrow> (Blocked, put_transport t c)
                   | (RecvThrows, t) \<Rightarrow> (Raised, put_transport t c)
                   | (Received resp, t) \<Rightarrow>
                       (case parseAuthResponse resp of
                          Parsed (True, sid, msg) \<Rightarrow>
                            (Returns SAILOR_OK, log_msg (''Authenticated successfully as '' @ user)
                              ((put_transport t c)\<lparr>cl_session_id := sid, cl_state := AUTHENTICATED\<rparr>))
                        | Parsed (False, sid, msg) \<Rightarrow>
                            (Returns SAILOR_AUTH_FAILED,
                             log_msg (''Authentication failed: '' @ msg) (put_transport t c))
                        | Rejected \<Rightarrow>
                            (Returns SAILOR_AUTH_FAILED,
                             log_msg ''Authentication failed: '' (put_transport t c))
                        | _ \<Rightarrow> (UB, put_transport t c)))))"

section \<open>Requests with one reply\<close>

datatype answer = Answer packet | Failed sailor_status | ReceiveRaised

text \<open>The check for a login, the request and its reply, which \<open>list\<close>, \<open>deletePath\<close>, \<open>rename\<close>,
  \<open>mkdir\<close> and \<open>rmdir\<close> start with.\<close>

definition request :: "'t transport \<Rightarrow> nat \<Rightarrow> packet \<Rightarrow> 't client \<Rightarrow> answer \<times> 't client" where
  "request T alloc_max req c =
     (if cl_state c \<noteq> AUTHENTICATED then (Failed SAILOR_NOT_CONNECTED, c)
      else case cl_transport c of
        None \<Rightarrow> (Failed SAILOR_NOT_CONNECTED, c)
      | Some t \<Rightarrow>
          (case sendPacket T t req of
             (False, t) \<Rightarrow> (Failed SAILOR_CONNECTION_FAILED, put_transport t c)
           | (True, t) \<Rightarrow>
               (case receivePacket T alloc_max t of
                  (RecvFailed, t) \<Rightarrow> (Failed SAILOR_CONNECTION_FAILED, put_transport t c)
                | (RecvThrows, t) \<Rightarrow> (ReceiveRaised, put_transport t c)
                | (Received resp, t) \<Rightarrow> (Answer resp, put_transport t c))))"

text \<open>\<open>list\<close> also returns the entries that it writes to its reference parameter; the C interface
  reads them after \<open>SAILOR_OK\<close> only.\<close>

definition list_remote ::
  "'t transport \<Rightarrow> nat \<Rightarrow> string \<Rightarrow> 't client \<Rightarrow>
   (sailor_status \<times> directory_entry list) call \<times> 't client" where
  "list_remote T alloc_max path c =
     (case request T alloc_max (listRequest path) c of
        (Failed e, c) \<Rightarrow> (Returns (e, []), c)
      | (ReceiveRaised, c) \<Rightarrow> (Raised, c)
      | (Answer resp, c) \<Rightarrow>
          if packet_kind resp = Some LIST_RESPONSE then
            (case parseListResponse alloc_max resp of
               Parsed entries \<Rightarrow> (Returns (SAILOR_OK, entries), c)
             | Rejected \<Rightarrow> (Returns (SAILOR_INTERNAL_ERROR, []), c)
             | Throws \<Rightarrow> (Raised, c)
             | OOB \<Rightarrow> (UB, c))
          else (Returns (SAILOR_OPERATION_FAILED, []), c))"

definition status_of_reply :: "(bool \<times> string) parse \<Rightarrow> sailor_status call" where
  "status_of_reply r =
     (case r of
        Parsed (ok, msg) \<Rightarrow> Returns (if ok then SAILOR_OK else SAILOR_OPERATION_FAILED)
      | Rejected \<Rightarrow> Returns SAILOR_OPERATION_FAILED
      | Throws \<Rightarrow> Raised
      | OOB \<Rightarrow> UB)"

definition status_request ::
  "'t transport \<Rightarrow> nat \<Rightarrow> packet \<Rightarrow> (packet \<Rightarrow> (bool \<times> string) parse) \<Rightarrow> 't client \<Rightarrow>
   sailor_status call \<times> 't client" where
  "status_request T alloc_max req parse c =
     (case request T alloc_max req c of
        (Failed e, c) \<Rightarrow> (Returns e, c)
      | (ReceiveRaised, c) \<Rightarrow> (Raised, c)
      | (Answer resp, c) \<Rightarrow> (status_of_reply (parse resp), c))"

definition delete_remote ::
  "'t transport \<Rightarrow> nat \<Rightarrow> string \<Rightarrow> 't client \<Rightarrow> sailor_status call \<times> 't client" where
  "delete_remote T alloc_max remote_path c =
     status_request T alloc_max (deleteRequest remote_path) parseDeleteResponse c"

definition rename_remote ::
  "'t transport \<Rightarrow> nat \<Rightarrow> string \<Rightarrow> string \<Rightarrow> 't client \<Rightarrow> sailor_status call \<times> 't client" where
  "rename_remote T alloc_max source destination c =
     status_request T alloc_max (renameRequest source destination) parseRenameResponse c"

definition mkdir_remote ::
  "'t transport \<Rightarrow> nat \<Rightarrow> string \<Rightarrow> 't client \<Rightarrow> sailor_status call \<times> 't client" where
  "mkdir_remote T alloc_max path c =
     status_request T alloc_max (mkdirRequest path) parseMkdirResponse c"

definition rmdir_remote ::
  "'t transport \<Rightarrow> nat \<Rightarrow> string \<Rightarrow> 't client \<Rightarrow> sailor_status call \<times> 't client" where
  "rmdir_remote T alloc_max path c =
     status_request T alloc_max (rmdirRequest path) parseRmdirResponse c"

section \<open>upload\<close>

text \<open>A local path is looked up from the working directory.\<close>

definition local_path :: "apath \<Rightarrow> string \<Rightarrow> apath" where
  "local_path cwd s = path_append cwd (path_of s)"

definition CHUNK_SIZE :: nat where
  "CHUNK_SIZE = 64 * 1024"

fun upload_loop ::
  "'t transport \<Rightarrow> u64 \<Rightarrow> u64 \<Rightarrow> bytes list \<Rightarrow> u64 \<Rightarrow> 't \<Rightarrow> 't client \<Rightarrow> bool \<times> 't \<times> 't client" where
  "upload_loop T upload_id total_size [] total_sent t c = (True, t, c)"
| "upload_loop T upload_id total_size (d # ds) total_sent t c =
     (if total_sent < total_size then
        (case sendPacket T t (uploadChunk upload_id total_sent d) of
           (False, t) \<Rightarrow> (False, t, c)
         | (True, t) \<Rightarrow>
             (let total_sent = total_sent + size64 (length d)
              in upload_loop T upload_id total_size ds total_sent t (progress total_sent total_size c)))
      else (True, t, c))"

text \<open>From the opening of the file to the verdict of the server.\<close>

definition send_file ::
  "'t transport \<Rightarrow> nat \<Rightarrow> fs \<Rightarrow> apath \<Rightarrow> u64 \<Rightarrow> u64 \<Rightarrow> 't \<Rightarrow> 't client \<Rightarrow>
   sailor_status call \<times> 't client" where
  "send_file T alloc_max f p upload_id total_size t c =
     (case open_read f p of
        Inl e \<Rightarrow> (Returns SAILOR_FILE_NOT_FOUND, put_transport t c)
      | Inr d \<Rightarrow>
          (case upload_loop T upload_id total_size (read_blocks CHUNK_SIZE d) 0 t c of
             (False, t, c) \<Rightarrow> (Returns SAILOR_CONNECTION_FAILED, put_transport t c)
           | (True, t, c) \<Rightarrow>
               (case sendPacket T t (uploadEnd upload_id) of
                  (False, t) \<Rightarrow> (Returns SAILOR_CONNECTION_FAILED, put_transport t c)
                | (True, t) \<Rightarrow>
                    (case receivePacket T alloc_max t of
                       (RecvThrows, t) \<Rightarrow> (Raised, put_transport t c)
                     | (RecvFailed, t) \<Rightarrow> (Returns SAILOR_INTERNAL_ERROR, put_transport t c)
                     | (Received end_resp, t) \<Rightarrow>
                         (Returns (if packet_kind end_resp = Some SUCCESS then SAILOR_OK
                                   else SAILOR_INTERNAL_ERROR), put_transport t c)))))"

definition upload ::
  "'t transport \<Rightarrow> nat \<Rightarrow> 'c evp \<Rightarrow> apath \<Rightarrow> fs \<Rightarrow> u64 \<Rightarrow> string \<Rightarrow> string \<Rightarrow> 't client \<Rightarrow>
   sailor_status call \<times> 't client" where
  "upload T alloc_max E cwd f upload_id local_file remote_dir c =
     (if cl_state c \<noteq> AUTHENTICATED then (Returns SAILOR_NOT_CONNECTED, c)
      else case cl_transport c of
        None \<Rightarrow> (Returns SAILOR_NOT_CONNECTED, c)
      | Some t \<Rightarrow>
          (let p = local_path cwd local_file in
           if \<not> fs_exists f p \<or> is_directory f p then (Returns SAILOR_FILE_NOT_FOUND, c)
           else
             (let total_size = (case file_size f p of Inl e \<Rightarrow> - 1 | Inr n \<Rightarrow> size64 n);
                  filename = path_filename (elements (path_of local_file));
                  sha256_hash = sha256File E f p
              in
              if sha256_hash = [] \<and> 0 < total_size then (Returns SAILOR_INTERNAL_ERROR, c)
              else case sendPacket T t (uploadBegin upload_id total_size remote_dir filename sha256_hash) of
                (False, t) \<Rightarrow> (Returns SAILOR_CONNECTION_FAILED, put_transport t c)
              | (True, t) \<Rightarrow>
                  (case receivePacket T alloc_max t of
                     (RecvThrows, t) \<Rightarrow> (Raised, put_transport t c)
                   | (RecvFailed, t) \<Rightarrow> (Returns SAILOR_OPERATION_FAILED, put_transport t c)
                   | (Received begin_resp, t) \<Rightarrow>
                       if packet_kind begin_resp \<noteq> Some SUCCESS
                       then (Returns SAILOR_OPERATION_FAILED, put_transport t c)
                       else send_file T alloc_max f p upload_id total_size t c))))"

section \<open>download\<close>

text \<open>The receive loop; it ends with the value of \<open>ok\<close>.  An exception destroys the output stream,
  which closes it.\<close>

fun download_loop ::
  "nat \<Rightarrow> 't transport \<Rightarrow> nat \<Rightarrow> u64 \<Rightarrow> u64 \<Rightarrow> u64 \<Rightarrow> ofstream \<Rightarrow> fs \<Rightarrow> 't \<Rightarrow> 't client \<Rightarrow>
   bool call \<times> ofstream \<times> fs \<times> 't \<times> 't client" where
  "download_loop 0 T alloc_max download_id total_size received st f t c = (Unfinished, st, f, t, c)"
| "download_loop (Suc fuel) T alloc_max download_id total_size received st f t c =
     (case receivePacket T alloc_max t of
        (RecvFailed, t) \<Rightarrow> (Returns False, st, f, t, c)
      | (RecvThrows, t) \<Rightarrow> (case os_close st f of (st, f) \<Rightarrow> (Raised, st, f, t, c))
      | (Received chunk_pkt, t) \<Rightarrow>
          if packet_kind chunk_pkt = Some DOWNLOAD_CHUNK then
            (case parseDownloadChunk chunk_pkt of
               Parsed (chunk_id, offset, d) \<Rightarrow>
                 if chunk_id \<noteq> download_id \<or> offset \<noteq> received then (Returns False, st, f, t, c)
                 else if 0 < length d then
                   (case os_write st d f of (st, f) \<Rightarrow>
                      (let received = received + size64 (length d)
                       in download_loop fuel T alloc_max download_id total_size received st f t
                            (progress received total_size c)))
                 else download_loop fuel T alloc_max download_id total_size received st f t c
             | Rejected \<Rightarrow> (Returns False, st, f, t, c)
             | _ \<Rightarrow> (UB, st, f, t, c))
          else if packet_kind chunk_pkt = Some DOWNLOAD_END
          then (Returns (received = total_size), st, f, t, c)
          else (Returns False, st, f, t, c))"

text \<open>Where the file goes: into a destination that is a directory or looks like one, under the name
  that the server sent; otherwise to the destination itself.\<close>

definition download_target :: "apath \<Rightarrow> fs \<Rightarrow> string \<Rightarrow> string \<Rightarrow> apath \<times> fs" where
  "download_target cwd f local_dest filename =
     (let target_path = local_path cwd local_dest in
      if is_directory f target_path \<or> last local_dest = CHR ''/'' \<or> last local_dest = CHR 0x5C
      then (path_append target_path (path_of filename), snd (snd (create_directories f target_path)))
      else if is_absolute (path_of local_dest) \<or> 1 < length (elements (path_of local_dest))
      then (target_path, snd (snd (create_directories f (parent_path target_path))))
      else (target_path, f))"

text \<open>From the opened output file to the end of the transfer.\<close>

definition receive_file ::
  "nat \<Rightarrow> 't transport \<Rightarrow> nat \<Rightarrow> 'c evp \<Rightarrow> apath \<Rightarrow> u64 \<Rightarrow> u64 \<Rightarrow> string \<Rightarrow> nat \<Rightarrow> fs \<Rightarrow> 't \<Rightarrow>
   't client \<Rightarrow> sailor_status call \<times> fs \<times> 't client" where
  "receive_file fuel T alloc_max E target_path download_id total_size expected_sha256 i f t c =
     (case download_loop fuel T alloc_max download_id total_size 0 (os_opened i) f t c of
        (Returns ok, st, f, t, c) \<Rightarrow>
          (let f = snd (os_close st f); c = put_transport t c in
           if \<not> ok
           then (Returns SAILOR_OPERATION_FAILED, snd (snd (fs_remove f target_path)), c)
           else if sha256File E f target_path \<noteq> expected_sha256
           then (Returns SAILOR_INTERNAL_ERROR, snd (snd (fs_remove f target_path)), c)
           else (Returns SAILOR_OK, f, c))
      | (Raised, st, f, t, c) \<Rightarrow> (Raised, f, put_transport t c)
      | (Blocked, st, f, t, c) \<Rightarrow> (Blocked, f, put_transport t c)
      | (UB, st, f, t, c) \<Rightarrow> (UB, f, put_transport t c)
      | (Unfinished, st, f, t, c) \<Rightarrow> (Unfinished, f, put_transport t c))"

definition download ::
  "nat \<Rightarrow> 't transport \<Rightarrow> nat \<Rightarrow> 'c evp \<Rightarrow> apath \<Rightarrow> fs \<Rightarrow> string \<Rightarrow> string \<Rightarrow> 't client \<Rightarrow>
   sailor_status call \<times> fs \<times> 't client" where
  "download fuel T alloc_max E cwd f remote_file local_dest c =
     (if cl_state c \<noteq> AUTHENTICATED then (Returns SAILOR_NOT_CONNECTED, f, c)
      else case cl_transport c of
        None \<Rightarrow> (Returns SAILOR_NOT_CONNECTED, f, c)
      | Some t \<Rightarrow>
          (case sendPacket T t (downloadRequest remote_file) of
             (False, t) \<Rightarrow> (Returns SAILOR_CONNECTION_FAILED, f, put_transport t c)
           | (True, t) \<Rightarrow>
               (case receivePacket T alloc_max t of
                  (RecvThrows, t) \<Rightarrow> (Raised, f, put_transport t c)
                | (RecvFailed, t) \<Rightarrow> (Returns SAILOR_FILE_NOT_FOUND, f, put_transport t c)
                | (Received begin_pkt, t) \<Rightarrow>
                    if packet_kind begin_pkt \<noteq> Some DOWNLOAD_BEGIN
                    then (Returns SAILOR_FILE_NOT_FOUND, f, put_transport t c)
                    else case parseDownloadBegin begin_pkt of
                      Parsed (download_id, total_size, filename, expected_sha256) \<Rightarrow>
                        if local_dest = [] then (UB, f, put_transport t c)
                        else
                          (case download_target cwd f local_dest filename of (target_path, f) \<Rightarrow>
                             (case open_trunc max_links f target_path of
                                Inl e \<Rightarrow> (Returns SAILOR_PERMISSION_DENIED, f, put_transport t c)
                              | Inr (i, f) \<Rightarrow>
                                  receive_file fuel T alloc_max E target_path download_id total_size
                                    expected_sha256 i f t c))
                    | Rejected \<Rightarrow> (Returns SAILOR_INTERNAL_ERROR, f, put_transport t c)
                    | _ \<Rightarrow> (UB, f, put_transport t c))))"

end
