(* ===== verification/Client_Safety.thy ===== *)
theory Client_Safety
  imports Client
begin

text \<open>
  The login state of the client object: an invariant of every sequence of public calls, the guard of
  the operations, and the two ways in which \<open>connect\<close> misbehaves.
\<close>

section \<open>The state of the client\<close>

text \<open>Nothing but \<open>connect\<close> and \<open>disconnect\<close> touches the login.\<close>

definition same_login :: "'t client \<Rightarrow> 't client \<Rightarrow> bool" where
  "same_login c c' \<longleftrightarrow>
     cl_state c' = cl_state c \<and> cl_session_id c' = cl_session_id c \<and> cl_socket c' = cl_socket c \<and>
     (cl_transport c' = None \<longleftrightarrow> cl_transport c = None)"

lemma same_login_refl [simp]: "same_login c c"
  by (simp add: same_login_def)

lemma same_login_put [simp]:
  "cl_transport c \<noteq> None \<Longrightarrow> same_login c (put_transport t c)"
  by (auto simp: same_login_def)

lemma progress_simps [simp]:
  "cl_state (progress n m c) = cl_state c" "cl_session_id (progress n m c) = cl_session_id c"
  "cl_socket (progress n m c) = cl_socket c" "cl_transport (progress n m c) = cl_transport c"
  by (simp_all add: progress_def)

lemma log_msg_simps [simp]:
  "cl_state (log_msg m c) = cl_state c" "cl_session_id (log_msg m c) = cl_session_id c"
  "cl_socket (log_msg m c) = cl_socket c" "cl_transport (log_msg m c) = cl_transport c"
  by (simp_all add: log_msg_def)

lemma callback_login [simp]:
  "same_login c (setProgressCallback cb c)" "same_login c (setLogCallback cb c)"
  by (simp_all add: same_login_def setProgressCallback_def setLogCallback_def)

lemma request_cases:
  assumes "request T A req c = (a, c')"
  obtains (unconnected) "\<not> isConnected c" "a = Failed SAILOR_NOT_CONNECTED" "c' = c"
  | (failed) t where "isConnected c" "a = Failed SAILOR_CONNECTION_FAILED" "c' = put_transport t c"
  | (raised) t where "isConnected c" "a = ReceiveRaised" "c' = put_transport t c"
  | (answered) t t1 t2 p where "isConnected c" "cl_transport c = Some t" "sendPacket T t req = (True, t1)"
      "receivePacket T A t1 = (Received p, t2)" "a = Answer p" "c' = put_transport t2 c"
  using assms
  by (auto simp: request_def isConnected_def split: if_splits option.splits prod.splits bool.splits receive.splits)

lemma request_login: "request T A req c = (a, c') \<Longrightarrow> same_login c c'"
  by (erule request_cases) (auto simp: isConnected_def)

lemma status_request_login: "status_request T A req parse c = (r, c') \<Longrightarrow> same_login c c'"
  by (auto simp: status_request_def dest: request_login split: prod.splits answer.splits)

lemma list_remote_login: "list_remote T A path c = (r, c') \<Longrightarrow> same_login c c'"
  by (auto simp: list_remote_def dest: request_login split: prod.splits answer.splits if_splits parse.splits)

lemma upload_loop_login:
  "upload_loop T i n ds k t c = (ok, t', c') \<Longrightarrow> same_login c c'"
  by (induction T i n ds k t c rule: upload_loop.induct)
    (auto simp: Let_def same_login_def split: if_splits prod.splits bool.splits)

lemma send_file_login:
  assumes "send_file T A f p i n t c = (r, c')" and "cl_transport c \<noteq> None"
  shows "same_login c c'"
proof (cases "open_read f p")
  case (Inl e)
  then show ?thesis
    using assms by (auto simp: send_file_def)
next
  case (Inr d)
  obtain ok t1 c1 where l: "upload_loop T i n (read_blocks CHUNK_SIZE d) 0 t c = (ok, t1, c1)"
    by (metis prod_cases3)
  have "\<exists>t2. c' = put_transport t2 c1"
    using assms(1) Inr l by (auto simp: send_file_def split: bool.splits prod.splits receive.splits)
  with upload_loop_login [OF l] assms(2) show ?thesis
    by (auto simp: same_login_def)
qed

lemma upload_login: "upload T A E cwd f i lf rd c = (r, c') \<Longrightarrow> same_login c c'"
  by (auto simp: upload_def Let_def dest!: send_file_login
      split: if_splits option.splits prod.splits bool.splits receive.splits)

lemma download_loop_login:
  "download_loop fuel T A i n k st f t c = (r, st', f', t', c') \<Longrightarrow> same_login c c'"
  by (induction fuel T A i n k st f t c rule: download_loop.induct)
    (auto simp: Let_def same_login_def split: if_splits prod.splits receive.splits parse.splits)

lemma receive_file_login:
  assumes "receive_file fuel T A E p i n h j f t c = (r, f', c')"
  shows "cl_state c' = cl_state c \<and> cl_session_id c' = cl_session_id c \<and> cl_socket c' = cl_socket c \<and>
    cl_transport c' \<noteq> None"
proof -
  obtain r1 st1 f1 t1 c1 where l: "download_loop fuel T A i n 0 (os_opened j) f t c = (r1, st1, f1, t1, c1)"
    by (metis prod_cases5)
  then have "c' = put_transport t1 c1"
    using assms by (auto simp: receive_file_def Let_def split: call.splits if_splits)
  with download_loop_login [OF l] show ?thesis
    by (simp add: same_login_def)
qed

lemma download_login: "download fuel T A E cwd f rf ld c = (r, f', c') \<Longrightarrow> same_login c c'"
  by (auto simp: download_def same_login_def dest!: receive_file_login
      split: if_splits option.splits prod.splits bool.splits receive.splits parse.splits sum.splits)

section \<open>Reachable clients\<close>

text \<open>A use of the client object: any public operation with any arguments, over a network, a local
  file system and a fuel of its own.  A call that does not return leaves no usable object.\<close>

inductive client_step :: "'t transport \<Rightarrow> nat \<Rightarrow> 'c evp \<Rightarrow> 't client \<Rightarrow> 't client \<Rightarrow> bool"
  for T A E where
  progress_callback: "client_step T A E c (setProgressCallback cb c)"
| log_callback: "client_step T A E c (setLogCallback cb c)"
| connects: "connect T A net user pass c = (Returns st, c') \<Longrightarrow> client_step T A E c c'"
| disconnects: "disconnect c = (st, c') \<Longrightarrow> client_step T A E c c'"
| lists: "list_remote T A path c = (Returns r, c') \<Longrightarrow> client_step T A E c c'"
| deletes: "delete_remote T A path c = (Returns st, c') \<Longrightarrow> client_step T A E c c'"
| renames: "rename_remote T A src dst c = (Returns st, c') \<Longrightarrow> client_step T A E c c'"
| mkdirs_: "mkdir_remote T A path c = (Returns st, c') \<Longrightarrow> client_step T A E c c'"
| rmdirs: "rmdir_remote T A path c = (Returns st, c') \<Longrightarrow> client_step T A E c c'"
| uploads: "upload T A E cwd f i lf rd c = (Returns st, c') \<Longrightarrow> client_step T A E c c'"
| downloads: "download fuel T A E cwd f rf ld c = (Returns st, f', c') \<Longrightarrow> client_step T A E c c'"

text \<open>The login that a connect grants comes from a positive reply of the peer.\<close>

definition granted :: "'t transport \<Rightarrow> nat \<Rightarrow> u64 \<Rightarrow> bool" where
  "granted T A sid \<longleftrightarrow>
     (\<exists>t t1 t2 user pass p msg. sendPacket T t (authRequest user pass) = (True, t1) \<and>
        receivePacket T A t1 = (Received p, t2) \<and> parseAuthResponse p = Parsed (True, sid, msg))"

lemma connect_cases:
  assumes "connect T A net user pass c = (Returns st, c')"
  obtains (early) "cl_state c' = cl_state c" "cl_transport c' = cl_transport c"
      "cl_session_id c' = cl_session_id c" "\<not> cl_socket c' \<or> c' = log_msg ''Failed to initialize TLS context'' c"
      "st = SAILOR_INTERNAL_ERROR \<or> st = SAILOR_CONNECTION_FAILED"
  | (accepted) sid t where "st = SAILOR_OK" "cl_state c' = AUTHENTICATED" "cl_transport c' = Some t"
      "cl_session_id c' = sid" "granted T A sid" "cl_socket c'"
  | (refused) t where "st = SAILOR_AUTH_FAILED" "cl_state c' = CONNECTED_UNAUTHENTICATED"
      "cl_transport c' = Some t" "cl_session_id c' = cl_session_id c" "cl_socket c'"
proof (cases "net_tls net \<and> net_socket net \<and> net_address net \<and> net_connect net \<and> net_ssl net")
  case True
  show ?thesis
  proof (cases "net_handshake net")
    case (Some t)
    then obtain t1 p t2 where r: "sendPacket T t (authRequest user pass) = (True, t1)"
      "receivePacket T A t1 = (Received p, t2)"
      using assms True by (auto simp: connect_def Let_def split: prod.splits bool.splits receive.splits)
    show ?thesis
    proof (cases "\<exists>sid msg. parseAuthResponse p = Parsed (True, sid, msg)")
      case ok: True
      then obtain sid msg where m: "parseAuthResponse p = Parsed (True, sid, msg)"
        by blast
      then have "granted T A sid"
        unfolding granted_def using r by blast
      then show ?thesis
        using assms True Some r m by (intro accepted) (auto simp: connect_def)
    next
      case False
      then show ?thesis
        using assms True Some r
        by (intro refused) (auto simp: connect_def Let_def split: parse.splits bool.splits)
    qed
  qed (use assms True in \<open>auto simp: connect_def intro: early\<close>)
qed (use assms in \<open>auto simp: connect_def intro!: early split: if_splits\<close>)

definition client_inv :: "'t transport \<Rightarrow> nat \<Rightarrow> 't client \<Rightarrow> bool" where
  "client_inv T A c \<longleftrightarrow>
     cl_state c \<in> {DISCONNECTED, CONNECTED_UNAUTHENTICATED, AUTHENTICATED} \<and>
     (cl_state c = DISCONNECTED \<longleftrightarrow> cl_transport c = None) \<and>
     (cl_state c = DISCONNECTED \<longrightarrow> cl_session_id c = 0) \<and>
     (cl_state c = AUTHENTICATED \<longrightarrow> granted T A (cl_session_id c))"

lemma client_inv_login: "same_login c c' \<Longrightarrow> client_inv T A c \<Longrightarrow> client_inv T A c'"
  by (auto simp: client_inv_def same_login_def)

lemma client_step_inv: "client_step T A E c c' \<Longrightarrow> client_inv T A c \<Longrightarrow> client_inv T A c'"
proof (induction rule: client_step.induct)
  case (connects net user pass c st c')
  from connects(1) show ?case
    by (cases rule: connect_cases) (use connects(2) in \<open>auto simp: client_inv_def\<close>)
next
  case (disconnects c st c')
  then show ?case
    by (auto simp: disconnect_def client_inv_def)
qed (auto simp: delete_remote_def rename_remote_def mkdir_remote_def rmdir_remote_def
      dest!: list_remote_login status_request_login upload_login download_login
    intro: client_inv_login client_inv_login [OF callback_login(1)] client_inv_login [OF callback_login(2)])

inductive client_reach :: "'t transport \<Rightarrow> nat \<Rightarrow> 'c evp \<Rightarrow> 't client \<Rightarrow> bool" for T A E where
  start: "client_reach T A E new_client"
| step: "client_reach T A E c \<Longrightarrow> client_step T A E c c' \<Longrightarrow> client_reach T A E c'"

text \<open>C10. Invariant of the client object over every sequence of public calls: its state is disconnected,
  unauthenticated or authenticated, it has a transport exactly when it is not disconnected,
  isConnected agrees with the state, and the session identifier of a connected client came in a
  positive reply to an AUTH_REQUEST.\<close>

theorem client_invariant:
  assumes "client_reach T A E c"
  shows "cl_state c \<in> {DISCONNECTED, CONNECTED_UNAUTHENTICATED, AUTHENTICATED} \<and>
    (cl_state c = DISCONNECTED \<longleftrightarrow> cl_transport c = None) \<and>
    (isConnected c \<longleftrightarrow> cl_state c = AUTHENTICATED) \<and>
    (isConnected c \<longrightarrow> granted T A (cl_session_id c))"
proof -
  have "client_inv T A c"
    using assms
  proof induction
    case start
    then show ?case by (simp add: client_inv_def new_client_def)
  qed (rule client_step_inv)
  then show ?thesis
    by (cases "cl_state c") (simp_all add: client_inv_def isConnected_def)
qed

text \<open>Without a connection, every operation of the client returns SAILOR_NOT_CONNECTED and sends
  nothing.\<close>

theorem not_connected_guard:
  assumes "\<not> isConnected c"
  shows "list_remote T A p c = (Returns (SAILOR_NOT_CONNECTED, []), c) \<and>
    delete_remote T A p c = (Returns SAILOR_NOT_CONNECTED, c) \<and>
    rename_remote T A p q c = (Returns SAILOR_NOT_CONNECTED, c) \<and>
    mkdir_remote T A p c = (Returns SAILOR_NOT_CONNECTED, c) \<and>
    rmdir_remote T A p c = (Returns SAILOR_NOT_CONNECTED, c) \<and>
    upload T A E cwd f i p q c = (Returns SAILOR_NOT_CONNECTED, c) \<and>
    download fuel T A E cwd f p q c = (Returns SAILOR_NOT_CONNECTED, f, c)"
  using assms
  by (auto simp: isConnected_def list_remote_def delete_remote_def rename_remote_def mkdir_remote_def
      rmdir_remote_def status_request_def request_def upload_def download_def split: option.splits)

text \<open>connect blocks for ever exactly when the TLS connection is established and sending the
  AUTH_REQUEST or receiving its reply fails: it then calls disconnect, which locks the mutex that
  connect already holds.\<close>

theorem connect_blocks_iff:
  "fst (connect T A net user pass c) = Blocked \<longleftrightarrow>
    net_tls net \<and> net_socket net \<and> net_address net \<and> net_connect net \<and> net_ssl net \<and>
    (\<exists>t t1. net_handshake net = Some t \<and>
       (sendPacket T t (authRequest user pass) = (False, t1) \<or>
        sendPacket T t (authRequest user pass) = (True, t1) \<and> fst (receivePacket T A t1) = RecvFailed))"
  by (auto simp: connect_def Let_def split: option.splits prod.splits bool.splits receive.splits parse.splits)

text \<open>A connect on a connected client that fails before the handshake leaves the old login in place.\<close>

theorem failed_reconnect_keeps_login:
  assumes "isConnected c"
    and "\<not> (net_tls net \<and> net_socket net \<and> net_address net \<and> net_connect net \<and> net_ssl net) \<or>
      net_handshake net = None"
  shows "\<exists>st c'. connect T A net user pass c = (Returns st, c') \<and> st \<noteq> SAILOR_OK \<and> isConnected c' \<and>
    cl_transport c' = cl_transport c"
  using assms by (auto simp: connect_def isConnected_def split: option.splits)

section \<open>Instances\<close>

definition sample_net :: "'t \<Rightarrow> 't network" where
  "sample_net t =
     \<lparr>net_tls = True, net_socket = True, net_address = True, net_connect = True, net_ssl = True,
      net_handshake = Some t\<rparr>"

text \<open>A server that has already put its reply on the in-memory link.\<close>

definition sample_client :: "bytes \<Rightarrow> (bytes \<times> bytes) client" where
  "sample_client d = new_client\<lparr>cl_socket := True, cl_session_id := 7, cl_state := AUTHENTICATED,
     cl_transport := Some (d, [])\<rparr>"

lemma sample_connect:
  "\<exists>t. connect sample_link 4096 (sample_net (serialize (authResponse True 7 ''hi''), [])) ''u'' ''p'' new_client =
    (Returns SAILOR_OK, new_client\<lparr>cl_socket := True, cl_session_id := 7, cl_state := AUTHENTICATED,
       cl_transport := Some t\<rparr>)"
proof -
  let ?p = "authResponse True 7 ''hi''" and ?o = "serialize (authRequest ''u'' ''p'')"
  obtain t where t: "receivePacket sample_link 4096 (serialize ?p, ?o) = (Received ?p, t)"
    using sample_link.receivePacket_live [of "(serialize ?p, ?o)" ?p "[]" 4096 4096]
      auth_response.build_consistent [of "(True, 7, ''hi'')"]
    by (auto simp: header_len_def codec_simps)
  moreover have "sendPacket sample_link (serialize ?p, []) (authRequest ''u'' ''p'') = (True, (serialize ?p, ?o))"
    by (simp add: sendPacket_def sample_link_def)
  moreover have "parseAuthResponse ?p = Parsed (True, 7, ''hi'')"
    using auth_response.parse_build [of "(True, 7, ''hi'')"] by simp
  ultimately show ?thesis
    by (simp add: connect_def sample_net_def new_client_def log_msg_def)
qed

lemma client_invariant_witness:
  "\<exists>c. client_reach sample_link 4096 sample_evp c \<and> isConnected c \<and>
    granted sample_link 4096 (cl_session_id c)"
proof -
  obtain c where c: "connect sample_link 4096 (sample_net (serialize (authResponse True 7 ''hi''), [])) ''u'' ''p''
      new_client = (Returns SAILOR_OK, c)" "isConnected c"
    using sample_connect by (fastforce simp: isConnected_def)
  have "client_reach sample_link 4096 sample_evp c"
    by (rule client_reach.step [OF client_reach.start client_step.connects [OF c(1)]])
  with client_invariant [OF this] c(2) show ?thesis
    by blast
qed

lemma not_connected_guard_witness:
  "mkdir_remote sample_link 4096 ''d'' new_client = (Returns SAILOR_NOT_CONNECTED, new_client)"
  using not_connected_guard [of new_client sample_link 4096 "''d''" "''e''" sample_evp "[]" sample_fs 0 1]
  by (simp add: isConnected_def new_client_def)

lemma failed_reconnect_keeps_login_witness:
  "\<exists>st c'. connect sample_link 4096 ((sample_net ([], []))\<lparr>net_address := False\<rparr>) ''u'' ''p'' (sample_client []) =
    (Returns st, c') \<and> st \<noteq> SAILOR_OK \<and> isConnected c'"
  using failed_reconnect_keeps_login [of "sample_client []" "(sample_net ([], []))\<lparr>net_address := False\<rparr>"
      sample_link 4096 "''u''" "''p''"]
  by (auto simp: isConnected_def sample_client_def sample_net_def)

end
