(* ===== verification/Download_Safety.thy ===== *)
theory Download_Safety
  imports Connection
begin

text \<open>
  What a successful \<open>DownloadService::streamFile\<close> puts on the wire: the begin packet with the size
  and the SHA-256 of the file, its content cut into chunks at consecutive offsets, and the end packet.
\<close>

section \<open>What a download sends\<close>

fun chunk_packets :: "u64 \<Rightarrow> u64 \<Rightarrow> bytes list \<Rightarrow> packet list" where
  "chunk_packets i off [] = []"
| "chunk_packets i off (d # ds) = downloadChunk i off d # chunk_packets i (off + size64 (length d)) ds"

text \<open>The packets of a complete download of the content \<open>d\<close>.\<close>

definition download_packets :: "u64 \<Rightarrow> string \<Rightarrow> string \<Rightarrow> bytes \<Rightarrow> packet list" where
  "download_packets i nm h d =
     downloadBegin i (size64 (length d)) nm h # chunk_packets i 0 (read_blocks block_size d) @ [downloadEnd i]"

lemma read_blocks_nonempty: "0 < n \<Longrightarrow> [] \<notin> set (read_blocks n d)"
  by (induction n d rule: read_blocks.induct) (subst read_blocks.simps, auto)

context itransport
begin

lemma stream_loop_sent:
  assumes "stream_loop T i (size64 n) ds (size64 k) t = (None, t')"
    and "k + length (concat ds) = n" and "n < 2 ^ 64" and "[] \<notin> set ds"
  shows "outq t' = outq t @ concat (map serialize (chunk_packets i (size64 k) ds))"
  using assms
proof (induction ds arbitrary: k t)
  case Nil
  then show ?case by simp
next
  case (Cons d ds)
  have "size64 k < (size64 n :: u64)"
    using Cons.prems(2-4) by (cases d) (auto simp: word_less_nat_alt unat_size)
  then obtain t1 where t1: "sendPacket T t (downloadChunk i (size64 k) d) = (True, t1)"
    "stream_loop T i (size64 n) ds (size64 (k + length d)) t1 = (None, t')"
    using Cons.prems(1) by (auto simp: size64_append split: prod.splits bool.splits)
  have "outq t' = outq t1 @ concat (map serialize (chunk_packets i (size64 (k + length d)) ds))"
    using Cons.prems(2-4) by (intro Cons.IH [OF t1(2)]) auto
  then show ?case
    using sendPacket_ok [OF t1(1)] by (simp add: size64_append)
qed

lemma streamFile_sent:
  assumes "streamFile T f m t = (None, t')" and "open_read f (dm_full_path m) = Inr d"
    and "dm_file_size m = size64 (length d)" and "length d < 2 ^ 64"
  shows "outq t' = outq t @
    concat (map serialize (download_packets (dm_download_id m) (dm_filename m) (dm_sha256_hash m) d))"
proof -
  obtain t1 t2 where s: "sendPacket T t (downloadBegin (dm_download_id m) (dm_file_size m) (dm_filename m)
      (dm_sha256_hash m)) = (True, t1)"
    "stream_loop T (dm_download_id m) (size64 (length d)) (read_blocks block_size d) (size64 0) t1 = (None, t2)"
    "sendPacket T t2 (downloadEnd (dm_download_id m)) = (True, t')"
    using assms(1-3) by (auto simp: streamFile_def size64_def split: prod.splits bool.splits option.splits)
  have "outq t2 = outq t1 @
      concat (map serialize (chunk_packets (dm_download_id m) (size64 0) (read_blocks block_size d)))"
    using assms(4) by (intro stream_loop_sent [OF s(2)])
      (simp_all add: concat_read_blocks read_blocks_nonempty block_size_def)
  with sendPacket_ok [OF s(1)] sendPacket_ok [OF s(3)] assms(3) show ?thesis
    by (simp add: download_packets_def size64_def)
qed

end

lemma prepareDownload_Inr:
  assumes "prepareDownload E rt f i path = Inr m" and "wf_fs f" and "open_read f (dm_full_path m) = Inr d"
  shows "resolvePath rt f path = Inr (dm_full_path m) \<and> dm_download_id m = i \<and>
    dm_filename m = path_filename (dm_full_path m) \<and> dm_file_size m = size64 (length d) \<and>
    dm_sha256_hash m = sha256_content E d"
  using assms
  by (auto simp: prepareDownload_def Let_def file_size_def open_read_def sha256File_def
      split: if_splits sum.splits file_status.splits node.splits option.splits)

lemma download_sent:
  assumes "itransport T inq outq" and "evp_computes E H" and "evp_total E" and "wf_fs f"
    and "prepareDownload E rt f i path = Inr m" and "streamFile T f m t = (None, t')"
    and "\<And>j. length (content f j) < 2 ^ 64"
  shows "\<exists>r q j. resolvePath rt f path = Inr r \<and> status f r = Found q (File j) \<and>
    outq t' = outq t @ concat (map serialize
      (download_packets i (path_filename r) (to_hex (H (content f j))) (content f j))) \<and>
    inq t' = inq t"
proof -
  obtain d where d: "open_read f (dm_full_path m) = Inr d"
    using assms(6) by (auto simp: streamFile_def split: prod.splits bool.splits sum.splits)
  obtain q j where st: "status f (dm_full_path m) = Found q (File j)"
    using assms(5) by (auto simp: prepareDownload_def Let_def file_size_def
        split: if_splits sum.splits file_status.splits node.splits option.splits)
  then have q: "status f (dm_full_path m) = Found q (File j)" "d = content f j"
    using d by (auto simp: open_read_def split: option.splits)
  note m = prepareDownload_Inr [OF assms(5,4) d]
  have "outq t' = outq t @ concat (map serialize
      (download_packets (dm_download_id m) (dm_filename m) (dm_sha256_hash m) d))"
    using m q(2) assms(7) by (intro itransport.streamFile_sent [OF assms(1,6) d]) simp_all
  moreover have "inq t' = inq t"
    by (rule itransport.streamFile_inq [OF assms(1,6)])
  ultimately show ?thesis
    using m q sha256_content_eq [OF assms(2,3)] by auto
qed

end
