(* ===== verification/Client_Download.thy ===== *)
theory Client_Download
  imports Client_Safety Download_Safety Upload_Safety
begin

text \<open>
  The client's \<open>download\<close>: over a transport that makes progress, the packets of a complete download
  are stored as the file that the server sent, and server and client together transfer the content.
\<close>

section \<open>Receiving a file\<close>

lemma read_blocks_bound: "0 < n \<Longrightarrow> b \<in> set (read_blocks n d) \<Longrightarrow> b \<noteq> [] \<and> length b \<le> n"
proof (induction n d rule: read_blocks.induct)
  case (1 n d)
  then show ?case
    by (cases "d = []") (auto simp: read_blocks.simps [of n d] read_blocks.simps [of n "[]"])
qed

lemma read_blocks_count: "0 < n \<Longrightarrow> length (read_blocks n d) \<le> length d"
proof (induction n d rule: read_blocks.induct)
  case (1 n d)
  show ?case
  proof (cases "d = []")
    case False
    then have "0 < length d"
      by simp
    with 1 False show ?thesis
      by (simp add: read_blocks.simps [of n d] del: length_greater_0_conv)
  qed (simp add: read_blocks.simps)
qed

lemma path_append_no_slash:
  "list_all no_slash p \<Longrightarrow> list_all no_slash (elements q) \<Longrightarrow> list_all no_slash (path_append p q)"
  by (auto simp: path_append_def Let_def list_all_iff no_slash_def dest: in_set_butlastD)

lemma create_directories_dirs:
  assumes "wf_fs f" and "list_all no_slash p"
  shows "wf_fs (snd (snd (create_directories f p))) \<and> dirs_added f (snd (snd (create_directories f p)))"
proof -
  have "list_all no_slash (if p \<noteq> [] \<and> last p = [] then butlast p else p)"
    using assms(2) by (auto simp: list_all_iff dest: in_set_butlastD)
  then show ?thesis
    using mkdirs_dirs_added [OF assms(1)] wf_mkdirs [OF assms(1)] by (simp add: create_directories_def)
qed

lemma message_lengths:
  "length (payload (downloadChunk i off d)) = 20 + length d"
  "length (payload (downloadEnd i)) = 8"
  "length (payload (downloadBegin i n nm h)) = 20 + length nm + length h"
  by (simp_all add: codec_simps prefixed_def)

context live_transport
begin

lemma receive_live:
  assumes "ready t" and "inq t = concat (map serialize (p # ps)) @ xs" and "consistent p"
    and "length (payload p) \<le> 131072" and "131072 \<le> alloc_max" and "131072 \<le> max_len" and "max_len < 2 ^ 64"
  shows "\<exists>t'. receivePacket T alloc_max t = (Received p, t') \<and> inq t' = concat (map serialize ps) @ xs \<and> ready t'"
  using receivePacket_live [of t p "concat (map serialize ps) @ xs" alloc_max] assms
  by (auto simp: header_len_def)

lemma download_loop_live:
  assumes "131072 \<le> alloc_max" and "131072 \<le> max_len" and "max_len < 2 ^ 64"
    and "ready t" and "inq t = concat (map serialize (chunk_packets i (size64 k) ds @ [downloadEnd i])) @ xs"
    and "os_ok f st" and "length (os_view f st) = k"
    and "length (os_pending st) + length (concat ds) \<le> free f"
    and "\<forall>d \<in> set ds. d \<noteq> [] \<and> length d \<le> block_size"
    and "n = size64 (k + length (concat ds))" and "length ds < fuel"
  shows "\<exists>st' f' t' c'. download_loop fuel T alloc_max i n (size64 k) st f t c = (Returns True, st', f', t', c') \<and>
    os_ok f' st' \<and> os_view f' st' = os_view f st @ concat ds \<and> length (os_pending st') \<le> free f' \<and>
    writes_inode (os_inode st) f f' \<and> os_inode st' = os_inode st \<and> inq t' = xs \<and> ready t'"
  using assms
proof (induction ds arbitrary: fuel t k f st c)
  case Nil
  then obtain fuel' where fuel: "fuel = Suc fuel'"
    by (cases fuel) auto
  obtain t' where t': "receivePacket T alloc_max t = (Received (downloadEnd i), t')" "inq t' = xs" "ready t'"
    using receive_live [of t "downloadEnd i" "[]" xs alloc_max] Nil.prems download_end.build_consistent [of i]
    by (auto simp: message_lengths)
  then show ?case
    using Nil.prems fuel by (simp add: download_end.build_kind)
next
  case (Cons d ds)
  then obtain fuel' where fuel: "fuel = Suc fuel'" "length ds < fuel'"
    by (cases fuel) auto
  have d: "d \<noteq> []" "length d \<le> 65536"
    using Cons.prems(9) by (simp_all add: block_size_def)
  let ?p = "downloadChunk i (size64 k) d"
  obtain t' where t': "receivePacket T alloc_max t = (Received ?p, t')"
    "inq t' = concat (map serialize (chunk_packets i (size64 k + size64 (length d)) ds @ [downloadEnd i])) @ xs"
    "ready t'"
    using receive_live [of t ?p "chunk_packets i (size64 k + size64 (length d)) ds @ [downloadEnd i]" xs alloc_max]
      Cons.prems d download_chunk.build_consistent [of "(i, size64 k, d)"]
    by (auto simp: message_lengths)
  obtain st1 f1 where w: "os_write st d f = (st1, f1)"
    by fastforce
  have sp: "os_good st1" "length (os_pending st1) + length (concat ds) \<le> free f1"
    using os_write_space [OF w Cons.prems(6), of "length (concat ds)"] Cons.prems(8) by simp_all
  have ok: "os_ok f1 st1" "os_view f1 st1 = os_view f st @ d"
    using os_write_ok [OF w Cons.prems(6) sp(1)] by simp_all
  note wr = os_write_writes [OF w]
  have parse: "packet_kind ?p = Some DOWNLOAD_CHUNK" "parseDownloadChunk ?p = Parsed (i, size64 k, d)"
    using download_chunk.build_kind [of "(i, size64 k, d)"] download_chunk.parse_build [of "(i, size64 k, d)"] d
    by simp_all
  have step: "download_loop fuel T alloc_max i n (size64 k) st f t c =
      download_loop fuel' T alloc_max i n (size64 (k + length d)) st1 f1 t' (progress (size64 (k + length d)) n c)"
    using fuel(1) t'(1) parse w d(1) by (simp add: size64_append Let_def)
  have "\<exists>st' f' t'' c'. download_loop fuel' T alloc_max i n (size64 (k + length d)) st1 f1 t'
      (progress (size64 (k + length d)) n c) = (Returns True, st', f', t'', c') \<and>
    os_ok f' st' \<and> os_view f' st' = os_view f1 st1 @ concat ds \<and> length (os_pending st') \<le> free f' \<and>
    writes_inode (os_inode st1) f1 f' \<and> os_inode st' = os_inode st1 \<and> inq t'' = xs \<and> ready t''"
    using t'(2) ok Cons.prems(1-3,7,9,10) sp(2) fuel(2)
    by (intro Cons.IH t'(3)) (simp_all add: size64_append)
  then show ?case
    using step ok(2) wr by (auto intro: writes_inode_trans)
qed

lemma receive_file_live:
  assumes "131072 \<le> alloc_max" and "131072 \<le> max_len" and "max_len < 2 ^ 64"
    and "ready t" and "inq t = concat (map serialize (chunk_packets i 0 (read_blocks block_size d) @ [downloadEnd i])) @ xs"
    and "wf_fs f" and "content f j = []" and "node_at f q = Some (File j)" and "locate f p = Inr (q, False)"
    and "denied f ReadFile q = None" and "length d \<le> free f" and "length d < 2 ^ 64"
    and "evp_computes E H" and "evp_total E" and "length (read_blocks block_size d) < fuel"
  shows "\<exists>f' t' c'. receive_file fuel T alloc_max E p i (size64 (length d)) (to_hex (H d)) j f t c =
      (Returns SAILOR_OK, f', put_transport t' c') \<and>
    writes_inode j f f' \<and> content f' j = d \<and> status f' p = Found q (File j) \<and> inq t' = xs \<and> ready t'"
proof -
  have blocks: "concat (read_blocks block_size d) = d"
    "\<forall>b \<in> set (read_blocks block_size d). b \<noteq> [] \<and> length b \<le> block_size"
    using read_blocks_bound [of block_size _ d] by (simp_all add: concat_read_blocks block_size_def)
  have ok: "os_ok f (os_opened j)" "os_view f (os_opened j) = []"
    using os_opened_ok [OF assms(7)] by simp_all
  obtain st1 f1 t1 c1 where l: "download_loop fuel T alloc_max i (size64 (length d)) 0 (os_opened j) f t c =
      (Returns True, st1, f1, t1, c1)"
    "os_ok f1 st1" "os_view f1 st1 = d" "length (os_pending st1) \<le> free f1" "writes_inode j f f1"
    "os_inode st1 = j" "inq t1 = xs" "ready t1"
    using download_loop_live [OF assms(1-4), of i 0 "read_blocks block_size d" xs f "os_opened j" "size64 (length d)"
        fuel c] assms(5,11,12,15) ok blocks
    by (auto simp: size64_def os_opened_def)
  obtain st2 f2 where cl: "os_close st1 f1 = (st2, f2)"
    by fastforce
  have w: "writes_inode j f f2"
    using writes_inode_trans [OF l(5)] os_close_writes [OF cl] l(6) by simp
  have c: "content f2 j = d"
    using os_close_ok [OF cl l(2)] l(3,4,6) by (simp add: os_view_def flip: l(3))
  have s: "status f2 p = Found q (File j)"
    using walk_snoc_file [of f2 p q j] writes_inodeD(3,8) [OF w] locate_extends [OF writes_inode_extends [OF w] assms(9)]
      assms(6,8) by simp
  have "sha256File E f2 p = to_hex (H d)"
    using s c writes_inodeD(4) [OF w] assms(10) sha256_content_eq [OF assms(13,14)]
    by (simp add: sha256File_def open_read_def)
  then have "receive_file fuel T alloc_max E p i (size64 (length d)) (to_hex (H d)) j f t c =
      (Returns SAILOR_OK, f2, put_transport t1 c1)"
    using l(1) cl by (simp add: receive_file_def)
  with w c s l(7,8) show ?thesis by blast
qed

end

lemma download_target_dirs:
  assumes "wf_fs f" and "list_all no_slash cwd" and "download_target cwd f ld nm = (p, f')"
  shows "wf_fs f' \<and> dirs_added f f' \<and> list_all no_slash p"
proof -
  have lp: "list_all no_slash (local_path cwd ld)"
    using assms(2) by (simp add: local_path_def path_append_no_slash path_of_no_slash)
  have "list_all no_slash (parent_path (local_path cwd ld))"
    using lp by (auto simp: parent_path_def list_all_iff dest: in_set_butlastD)
  with lp show ?thesis
    using assms create_directories_dirs [OF assms(1)]
    by (auto simp: download_target_def Let_def path_append_no_slash path_of_no_slash split: if_splits)
qed

section \<open>A whole download\<close>

context live_transport
begin

lemma download_stores:
  assumes "isConnected c" and "cl_transport c = Some t" and "ready t"
    and "inq t = concat (map serialize (download_packets i nm (to_hex (H d)) d)) @ xs"
    and "length (serialize (downloadRequest rf)) \<le> max_len"
    and "131072 \<le> alloc_max" and "131072 \<le> max_len" and "max_len < 2 ^ 64"
    and "wf_fs f" and "link_free f" and "list_all no_slash cwd" and "ld \<noteq> []" and "short nm"
    and "download_target cwd f ld nm = (p, f1)" and "open_trunc max_links f1 p = Inr (j, f2)"
    and "\<forall>q. denied f ReadFile q = None" and "length d \<le> free f" and "length d < 2 ^ 64"
    and "evp_computes E H" and "evp_total E" and "length d < fuel"
  shows "\<exists>f' c' q. download fuel T alloc_max E cwd f rf ld c = (Returns SAILOR_OK, f', c') \<and>
    status f' p = Found q (File j) \<and> content f' j = d \<and> (\<forall>k. k \<noteq> j \<longrightarrow> content f' k = content f k) \<and>
    (\<forall>r n. node_at f r = Some n \<longrightarrow> node_at f' r = Some n) \<and> isConnected c'"
proof -
  have len: "length (to_hex (H d)) = 64"
    using assms(19) by (simp add: evp_computes_def)
  let ?b = "downloadBegin i (size64 (length d)) nm (to_hex (H d))"
  obtain t1 where t1: "sendPacket T t (downloadRequest rf) = (True, t1)" "ready t1"
    using ready_send [OF assms(3,5)] by (auto simp: sendPacket_def)
  have "inq t1 = inq t"
    using sendPacket_ok [OF t1(1)] by simp
  then obtain t2 where t2: "receivePacket T alloc_max t1 = (Received ?b, t2)" "ready t2"
    "inq t2 = concat (map serialize (chunk_packets i 0 (read_blocks block_size d) @ [downloadEnd i])) @ xs"
    using receive_live [OF t1(2), of ?b "chunk_packets i 0 (read_blocks block_size d) @ [downloadEnd i]" xs alloc_max]
      assms(4,6-8,13) len download_begin.build_consistent [of "(i, size64 (length d), nm, to_hex (H d))"]
    by (auto simp: message_lengths download_packets_def)
  have parse: "packet_kind ?b = Some DOWNLOAD_BEGIN"
    "parseDownloadBegin ?b = Parsed (i, size64 (length d), nm, to_hex (H d))"
    using download_begin.build_kind [of "(i, size64 (length d), nm, to_hex (H d))"]
      download_begin.parse_build [of "(i, size64 (length d), nm, to_hex (H d))"] assms(13) len by simp_all
  have f1: "wf_fs f1" "dirs_added f f1" "list_all no_slash p"
    using download_target_dirs [OF assms(9,11,14)] by simp_all
  obtain q where q: "node_at f2 q = Some (File j)" "content f2 j = []" "\<forall>k. k \<noteq> j \<longrightarrow> content f2 k = content f1 k"
    "\<forall>r. node_at f2 r = (if r = q then Some (File j) else node_at f1 r)"
    "node_at f1 q = None \<and> j = next_inode f1 \<or> node_at f1 q = Some (File j)" "free f2 = free f1"
    "denied f2 = denied f1" "locate f1 p = Inr (q, False)"
    using open_trunc_result [OF f1(1,3) assms(15)] link_free_dirs_added [OF f1(2) assms(10)]
    unfolding link_free_def by blast
  have ext: "extends f1 f2"
    using q(4,5,7) by (auto simp: extends_def)
  obtain f3 t3 c3 where r: "receive_file fuel T alloc_max E p i (size64 (length d)) (to_hex (H d)) j f2 t2 c =
      (Returns SAILOR_OK, f3, put_transport t3 c3)"
    "writes_inode j f2 f3" "content f3 j = d" "status f3 p = Found q (File j)"
    using receive_file_live [OF assms(6-8) t2(2,3), of f2 j q p E H fuel c] wf_open_trunc [OF f1(1,3) assms(15)] q(1,2)
      locate_extends [OF ext q(8)] f1(2) assms(16-21) q(6,7) read_blocks_count [of block_size d]
    by (auto simp: dirs_added_def block_size_def)
  have dl: "download fuel T alloc_max E cwd f rf ld c = (Returns SAILOR_OK, f3, put_transport t3 c3)"
    using assms(1,2,12,14,15) t1(1) t2(1) parse r(1) by (simp add: download_def isConnected_def)
  moreover have "isConnected (put_transport t3 c3)"
    using download_login [OF dl] assms(1) by (auto simp: isConnected_def same_login_def)
  moreover have "\<forall>k. k \<noteq> j \<longrightarrow> content f3 k = content f k"
    using writes_inodeD(7) [OF r(2)] q(3) f1(2) by (simp add: dirs_added_def)
  moreover have "\<forall>r n. node_at f r = Some n \<longrightarrow> node_at f3 r = Some n"
    using extends_trans [OF dirs_added_extends [OF f1(2)] ext] writes_inodeD(3) [OF r(2)] by (simp add: extends_def)
  ultimately show ?thesis
    using r(3,4) by blast
qed

end

text \<open>Server and client together: what \<open>streamFile\<close> sends is what \<open>download\<close> stores.\<close>



end
