(* ===== verification/Client_Upload.thy ===== *)
theory Client_Upload
  imports Client_Download Connection
begin

text \<open>
  The client's \<open>upload\<close> against the server: the packets it sends, what the handlers make of them, and
  that an upload which the client reports as done has stored the content of the local file.
\<close>

section \<open>What the client sends\<close>

fun upload_chunk_packets :: "u64 \<Rightarrow> u64 \<Rightarrow> bytes list \<Rightarrow> packet list" where
  "upload_chunk_packets i off [] = []"
| "upload_chunk_packets i off (d # ds) =
     uploadChunk i off d # upload_chunk_packets i (off + size64 (length d)) ds"

definition upload_packets :: "u64 \<Rightarrow> u64 \<Rightarrow> string \<Rightarrow> string \<Rightarrow> string \<Rightarrow> bytes \<Rightarrow> packet list" where
  "upload_packets i n rd nm h d =
     uploadBegin i n rd nm h # upload_chunk_packets i 0 (read_blocks CHUNK_SIZE d) @ [uploadEnd i]"

definition announced_size :: "fs \<Rightarrow> apath \<Rightarrow> u64" where
  "announced_size f p = (case file_size f p of Inl e \<Rightarrow> - 1 | Inr n \<Rightarrow> size64 n)"

lemma below_announced_size:
  assumes "open_read f p = Inr d" and "length d < 2 ^ 64" and "m < length d"
  shows "size64 m < announced_size f p"
proof -
  have m: "unat (size64 m) = m"
    using assms(2,3) by simp
  have "announced_size f p = - 1 \<or> announced_size f p = size64 (length d)"
    using assms(1) by (auto simp: announced_size_def open_read_def file_size_def
        split: file_status.splits node.splits option.splits)
  then show ?thesis
  proof
    assume "announced_size f p = - 1"
    moreover have "unat (- 1 :: u64) = 2 ^ 64 - 1"
      by (simp add: unsigned_minus_1_eq_mask mask_eq_exp_minus_1)
    ultimately show ?thesis
      using m assms(2,3) by (simp add: word_less_nat_alt)
  next
    assume "announced_size f p = size64 (length d)"
    then show ?thesis
      using m assms(2,3) by (simp add: word_less_nat_alt)
  qed
qed

context itransport
begin

lemma upload_loop_sent:
  assumes "upload_loop T i n ds (size64 k) t c = (True, t', c')"
    and "\<forall>m < k + length (concat ds). size64 m < n" and "[] \<notin> set ds"
  shows "outq t' = outq t @ concat (map serialize (upload_chunk_packets i (size64 k) ds)) \<and> inq t' = inq t"
  using assms
proof (induction ds arbitrary: k t c)
  case Nil
  then show ?case by simp
next
  case (Cons d ds)
  have "size64 k < n"
    using Cons.prems(2,3) by (cases d) auto
  then obtain t1 c1 where t1: "sendPacket T t (uploadChunk i (size64 k) d) = (True, t1)"
    "upload_loop T i n ds (size64 (k + length d)) t1 c1 = (True, t', c')"
    using Cons.prems(1) by (auto simp: size64_append Let_def split: prod.splits bool.splits)
  have "outq t' = outq t1 @ concat (map serialize (upload_chunk_packets i (size64 (k + length d)) ds)) \<and>
      inq t' = inq t1"
    using Cons.prems(2,3) by (intro Cons.IH [OF t1(2)]) (auto simp: add.assoc)
  then show ?case
    using sendPacket_ok [OF t1(1)] by (simp add: size64_append)
qed

lemma upload_sent:
  assumes "upload T A E cwd f i lf rd c = (Returns SAILOR_OK, c')" and "cl_transport c = Some t"
    and "\<And>d. open_read f (local_path cwd lf) = Inr d \<Longrightarrow> length d < 2 ^ 64"
  obtains d t' r1 r2 where "open_read f (local_path cwd lf) = Inr d" "cl_transport c' = Some t'"
    "outq t' = outq t @ concat (map serialize (upload_packets i (announced_size f (local_path cwd lf)) rd
       (path_filename (elements (path_of lf))) (sha256_content E d) d))"
    "inq t = serialize r1 @ serialize r2 @ inq t'" "packet_kind r1 = Some SUCCESS" "packet_kind r2 = Some SUCCESS"
    "length (payload r1) \<le> A" "consistent r1"
proof -
  let ?p = "local_path cwd lf"
  let ?n = "announced_size f ?p"
  let ?b = "uploadBegin i ?n rd (path_filename (elements (path_of lf))) (sha256File E f ?p)"
  obtain t1 t2 r1 where s: "sendPacket T t ?b = (True, t1)" "receivePacket T A t1 = (Received r1, t2)"
    "packet_kind r1 = Some SUCCESS" "send_file T A f ?p i ?n t2 c = (Returns SAILOR_OK, c')"
    using assms(1,2)
    by (auto simp: upload_def announced_size_def [symmetric] Let_def
        split: if_splits prod.splits bool.splits receive.splits)
  obtain d where d: "open_read f ?p = Inr d"
    using s(4) by (auto simp: send_file_def split: sum.splits)
  obtain t3 c3 t4 r2 t5 where l: "upload_loop T i ?n (read_blocks CHUNK_SIZE d) (size64 0) t2 c = (True, t3, c3)"
    "sendPacket T t3 (uploadEnd i) = (True, t4)" "receivePacket T A t4 = (Received r2, t5)"
    "packet_kind r2 = Some SUCCESS" "c' = put_transport t5 c3"
    using s(4) d
    by (auto simp: send_file_def size64_def split: prod.splits bool.splits receive.splits if_splits)
  have blocks: "concat (read_blocks CHUNK_SIZE d) = d" "[] \<notin> set (read_blocks CHUNK_SIZE d)"
    by (simp_all add: concat_read_blocks read_blocks_nonempty CHUNK_SIZE_def)
  have loop: "outq t3 = outq t2 @ concat (map serialize (upload_chunk_packets i (size64 0) (read_blocks CHUNK_SIZE d)))
      \<and> inq t3 = inq t2"
    using below_announced_size [OF d assms(3) [OF d]] blocks
    by (intro upload_loop_sent [OF l(1)]) simp_all
  have "sha256File E f ?p = sha256_content E d"
    using d by (simp add: sha256File_def)
  then show thesis
    using d s(3) l(4,5) loop sendPacket_ok [OF s(1)] sendPacket_ok [OF l(2)] receivePacket_exact [OF s(2)]
      receivePacket_exact [OF l(3)]
    by (intro that [of d t5 r1 r2]) (simp_all add: upload_packets_def size64_def)
qed

end

section \<open>What the server does with it\<close>

fun handle_all ::
  "'c config \<Rightarrow> 't transport \<Rightarrow> packet list \<Rightarrow> 't conn \<Rightarrow> 'c server \<Rightarrow> ('t conn \<times> 'c server) outcome" where
  "handle_all cfg T [] c s = Running (c, s)"
| "handle_all cfg T (p # ps) c s =
     (case handle_packet cfg T p c s of
        Running (c, s) \<Rightarrow> handle_all cfg T ps c s
      | Undefined \<Rightarrow> Undefined)"

lemma handle_all_append:
  "handle_all cfg T (ps @ qs) c s =
    (case handle_all cfg T ps c s of Running (c, s) \<Rightarrow> handle_all cfg T qs c s | Undefined \<Rightarrow> Undefined)"
  by (induction cfg T ps c s rule: handle_all.induct) (auto split: outcome.splits prod.splits)

lemma handle_begin:
  assumes "session_authenticated (sess c)" and "short rd" and "short nm" and "short h"
  shows "handle_packet cfg T (uploadBegin i n rd nm h) c s =
    (case beginUpload (cfg_evp cfg) (root (cfg_env cfg)) (srv_uploads s) (disk (srv_store s)) i rd nm n h of
       (UploadOk, r) \<Rightarrow> Running (reply T (success ''Upload session ready'') c, put_uploads r s)
     | (UploadError err, r) \<Rightarrow> Running (reply T (error err) c, put_uploads r s)
     | (UploadUB, r) \<Rightarrow> Undefined)"
  using assms upload_begin.build_kind [of "(i, n, rd, nm, h)"] upload_begin.parse_build [of "(i, n, rd, nm, h)"]
  by (simp add: handle_packet_def handle_upload_begin_def)

lemma handle_chunk:
  assumes "session_authenticated (sess c)" and "length d < 2 ^ 32"
  shows "handle_packet cfg T (uploadChunk i off d) c s =
    (case writeChunk (cfg_evp cfg) (srv_uploads s) (disk (srv_store s)) i off d of
       (UploadOk, r) \<Rightarrow> Running (c, put_uploads r s)
     | (UploadError err, r) \<Rightarrow> Running (reply T (error err) c, put_uploads r s)
     | (UploadUB, r) \<Rightarrow> Undefined)"
  using assms upload_chunk.build_kind [of "(i, off, d)"] upload_chunk.parse_build [of "(i, off, d)"]
  by (simp add: handle_packet_def handle_upload_chunk_def)

lemma handle_end:
  assumes "session_authenticated (sess c)"
  shows "handle_packet cfg T (uploadEnd i) c s =
    (case finishUpload (cfg_evp cfg) (srv_uploads s) (disk (srv_store s)) i of
       (UploadOk, r) \<Rightarrow> Running (reply T (success ''Upload verified and completed'') c, put_uploads r s)
     | (UploadError err, r) \<Rightarrow> Running (reply T (error err) c, put_uploads r s)
     | (UploadUB, r) \<Rightarrow> Undefined)"
  using assms upload_end.build_kind [of i] upload_end.parse_build [of i]
  by (simp add: handle_packet_def handle_upload_end_def)

lemma put_uploads_twice [simp]: "put_uploads r (put_uploads r' s) = put_uploads r s"
  by (simp add: put_uploads_def)

lemma put_uploads_same [simp]: "put_uploads (srv_uploads s, disk (srv_store s)) s = s"
  by (simp add: put_uploads_def)

text \<open>Over a transport whose sends succeed, every refused chunk is answered with an error packet and an
  accepted one with nothing.\<close>

lemma reply_reliable:
  assumes "itransport T inq outq" and "\<And>u b. fst (sendAll T u b)"
  shows "outq (chan (reply T p c)) = outq (chan c) @ serialize p"
proof -
  have "sendPacket T (chan c) p = (True, snd (sendPacket T (chan c) p))"
    using assms(2) [of "chan c" "serialize p"] by (simp add: sendPacket_def prod_eq_iff)
  from itransport.sendPacket_ok [OF assms(1) this] show ?thesis
    by (simp add: reply_def)
qed

lemma handle_chunks:
  assumes "itransport T inq outq" and "\<And>u b. fst (sendAll T u b)"
    and "handle_all cfg T (upload_chunk_packets i off ds) c s = Running (c', s')"
    and "session_authenticated (sess c)" and "\<forall>d \<in> set ds. length d < 2 ^ 32"
  shows "session_authenticated (sess c') \<and>
    (c' = c \<and> write_chunks (cfg_evp cfg) (srv_uploads s) (disk (srv_store s)) i off ds =
       (UploadOk, srv_uploads s', disk (srv_store s')) \<or>
     (\<exists>es. es \<noteq> [] \<and> outq (chan c') = outq (chan c) @ concat (map (\<lambda>e. serialize (error e)) es)))"
  using assms(3-5)
proof (induction ds arbitrary: off c s)
  case Nil
  then show ?case by simp
next
  case (Cons d ds)
  have d: "length d < 2 ^ 32" "\<forall>d \<in> set ds. length d < 2 ^ 32"
    using Cons.prems(3) by simp_all
  obtain res ss1 f1 where w: "writeChunk (cfg_evp cfg) (srv_uploads s) (disk (srv_store s)) i off d = (res, ss1, f1)"
    by (metis prod_cases3)
  let ?s1 = "put_uploads (ss1, f1) s"
  show ?case
  proof (cases res)
    case UploadOk
    have "handle_all cfg T (upload_chunk_packets i (off + size64 (length d)) ds) c ?s1 = Running (c', s')"
      using Cons.prems(1) w UploadOk by (simp add: handle_chunk [OF Cons.prems(2) d(1)])
    from Cons.IH [OF this Cons.prems(2) d(2)] show ?thesis
      using w UploadOk by simp
  next
    case (UploadError err)
    let ?c1 = "reply T (error err) c"
    have "handle_all cfg T (upload_chunk_packets i (off + size64 (length d)) ds) ?c1 ?s1 = Running (c', s')"
      using Cons.prems(1) w UploadError by (simp add: handle_chunk [OF Cons.prems(2) d(1)])
    from Cons.IH [OF this _ d(2)] Cons.prems(2) have "session_authenticated (sess c') \<and>
      (c' = ?c1 \<or> (\<exists>es. es \<noteq> [] \<and> outq (chan c') = outq (chan ?c1) @ concat (map (\<lambda>e. serialize (error e)) es)))"
      by auto
    moreover note reply_reliable [OF assms(1,2), of "error err" c]
    moreover have "\<exists>es. es \<noteq> [] \<and> x @ serialize (error err) @ concat (map (\<lambda>e. serialize (error e)) es') =
        x @ concat (map (\<lambda>e. serialize (error e)) es)" for x es'
      by (intro exI [of _ "err # es'"]) simp
    ultimately show ?thesis
      by (metis append.right_neutral append_assoc concat.simps(1) list.map(1))
  next
    case UploadUB
    then show ?thesis
      using w writeChunk_no_UB by metis
  qed
qed

section \<open>A whole upload\<close>

lemma upload_packets_fit:
  assumes "short rd" and "short nm" and "short h"
  shows "\<forall>p \<in> set (upload_packets i n rd nm h d). consistent p \<and> length (payload p) < 2 ^ 64"
proof -
  have "\<forall>p \<in> set (upload_chunk_packets i off ds). consistent p \<and> length (payload p) < 2 ^ 64"
    if "\<forall>d \<in> set ds. length d \<le> CHUNK_SIZE" for off ds
    using that
  proof (induction ds arbitrary: off)
    case (Cons d ds)
    then show ?case
      using upload_chunk.build_consistent [of "(i, off, d)"] by (simp add: codec_simps CHUNK_SIZE_def)
  qed simp
  moreover have "\<forall>b \<in> set (read_blocks CHUNK_SIZE d). length b \<le> CHUNK_SIZE"
    using read_blocks_bound [of CHUNK_SIZE _ d] by (simp add: CHUNK_SIZE_def)
  moreover have "consistent (uploadEnd i) \<and> length (payload (uploadEnd i)) < 2 ^ 64"
    using upload_end.build_consistent [of i] by (simp add: codec_simps)
  moreover have "consistent (uploadBegin i n rd nm h) \<and> length (payload (uploadBegin i n rd nm h)) < 2 ^ 64"
    using assms upload_begin.build_consistent [of "(i, n, rd, nm, h)"] by (simp add: codec_simps prefixed_def)
  ultimately show ?thesis
    by (auto simp: upload_packets_def)
qed

lemma handle_upload:
  assumes T: "itransport T inq outq" "\<And>u b. fst (sendAll T u b)"
    and run: "handle_all cfg T (upload_packets i n rd nm h d) c s = Running (c', s')"
      "session_authenticated (sess c)" "short rd" "short nm" "short h"
    and replies: "outq (chan c') = outq (chan c) @ serialize r1 @ serialize r2 @ xs"
      "packet_kind r1 = Some SUCCESS" "packet_kind r2 = Some SUCCESS" "consistent r1" "length (payload r1) < 2 ^ 64"
  shows "\<exists>ss1 f1 ss2 f2.
    beginUpload (cfg_evp cfg) (root (cfg_env cfg)) (srv_uploads s) (disk (srv_store s)) i rd nm n h = (UploadOk, ss1, f1) \<and>
    write_chunks (cfg_evp cfg) ss1 f1 i 0 (read_blocks CHUNK_SIZE d) = (UploadOk, ss2, f2) \<and>
    finishUpload (cfg_evp cfg) ss2 f2 i = (UploadOk, srv_uploads s', disk (srv_store s'))"
proof -
  obtain c1 s1 c2 s2 where h: "handle_packet cfg T (uploadBegin i n rd nm h) c s = Running (c1, s1)"
    "handle_all cfg T (upload_chunk_packets i 0 (read_blocks CHUNK_SIZE d)) c1 s1 = Running (c2, s2)"
    "handle_packet cfg T (uploadEnd i) c2 s2 = Running (c', s')"
    using run(1) by (auto simp: upload_packets_def handle_all_append split: outcome.splits prod.splits)
  obtain res ss1 f1 where b: "beginUpload (cfg_evp cfg) (root (cfg_env cfg)) (srv_uploads s) (disk (srv_store s)) i rd nm n h
      = (res, ss1, f1)"
    by (metis prod_cases3)
  define p1 where "p1 = (case res of UploadError err \<Rightarrow> error err | _ \<Rightarrow> success ''Upload session ready'')"
  have c1: "c1 = reply T p1 c" "s1 = put_uploads (ss1, f1) s" "res \<noteq> UploadUB"
    using h(1) b run by (auto simp: handle_begin p1_def split: upload_result.splits)
  have auth: "session_authenticated (sess c1)"
    using c1 run(2) by simp
  have "\<forall>b \<in> set (read_blocks CHUNK_SIZE d). length b < 2 ^ 32"
    using read_blocks_bound [of CHUNK_SIZE _ d] by (fastforce simp: CHUNK_SIZE_def)
  note ch = handle_chunks [OF T h(2) auth this]
  obtain res2 r where e: "finishUpload (cfg_evp cfg) (srv_uploads s2) (disk (srv_store s2)) i = (res2, r)"
    by (metis prod.exhaust)
  define p3 where "p3 = (case res2 of UploadError err \<Rightarrow> error err | _ \<Rightarrow> success ''Upload verified and completed'')"
  have c': "c' = reply T p3 c2" "s' = put_uploads r s2" "res2 \<noteq> UploadUB"
    using h(3) e ch by (auto simp: handle_end p3_def split: upload_result.splits)
  obtain es where es: "outq (chan c2) = outq (chan c1) @ concat (map (\<lambda>e. serialize (error e)) es)"
    "es = [] \<longrightarrow> c2 = c1 \<and> write_chunks (cfg_evp cfg) (srv_uploads s1) (disk (srv_store s1)) i 0 (read_blocks CHUNK_SIZE d)
       = (UploadOk, srv_uploads s2, disk (srv_store s2))"
    using ch by (metis append.right_neutral concat.simps(1) list.map(1))
  have out: "serialize r1 @ serialize r2 @ xs = serialize p1 @ concat (map (\<lambda>e. serialize (error e)) es) @ serialize p3"
    using replies(1) c1(1) c'(1) es(1) reply_reliable [OF T] by simp
  have "packet_kind p1 = Some SUCCESS"
    using serialize_kind [OF out] replies(2) by simp
  then have res: "res = UploadOk" "p1 = success ''Upload session ready''"
    using c1(3) error_message.build_kind by (auto simp: p1_def split: upload_result.splits)
  then have "consistent p1 \<and> length (payload p1) < 2 ^ 64"
    using success_message.build_consistent [of "''Upload session ready''"] by (simp add: codec_simps prefixed_def)
  then have out2: "serialize r2 @ xs = concat (map (\<lambda>e. serialize (error e)) es) @ serialize p3"
    using serialize_prefix_free [OF replies(4) _ replies(5) _ out] by simp
  have nil: "es = []"
  proof (cases es)
    case (Cons e es')
    then have "packet_kind r2 = packet_kind (error e)"
      using out2 by (intro serialize_kind) simp
    then show ?thesis
      using replies(3) error_message.build_kind by simp
  qed
  then have "packet_kind p3 = Some SUCCESS"
    using serialize_kind [of r2 xs p3 "[]"] out2 replies(3) by simp
  then have "res2 = UploadOk"
    using c'(3) error_message.build_kind by (auto simp: p3_def split: upload_result.splits)
  then show ?thesis
    using b res es(2) nil c1(2) e c'(2) by auto
qed

text \<open>Client and server together.\<close>


section \<open>Instances\<close>

lemma sample_send [simp]: "sendPacket sample_link (xs, ys) p = (True, (xs, ys @ serialize p))"
  by (simp add: sendPacket_def sample_link_def)

definition sample_conn :: "(bytes \<times> bytes) conn" where
  "sample_conn = (new_conn ([], []))\<lparr>sess := \<lparr>session_id = 7, session_username = ''u'', session_authenticated = True\<rparr>,
     cstate := AUTHENTICATED\<rparr>"

abbreviation sample_hash :: string where
  "sample_hash \<equiv> to_hex (sample_digest [1, 2, 3])"

lemma sample_hash_nonempty: "sample_digest d \<noteq> []"
  by (simp add: sample_digest_def)

lemma hash_differs_same [simp]: "hash_differs h h = Parsed False"
  by (simp add: hash_differs_def)

definition sample_replies :: bytes where
  "sample_replies = serialize (success ''Upload session ready'') @ serialize (success ''Upload verified and completed'')"

lemma sample_upload_client:
  "\<exists>c'. upload sample_link 4096 sample_evp sample_root sample_fs 1 ''a'' ''b'' (sample_client sample_replies) =
      (Returns SAILOR_OK, c') \<and>
    cl_transport c' = Some ([], concat (map serialize (upload_packets 1 3 ''b'' ''a'' sample_hash [1, 2, 3])))"
proof -
  have c: "consistent (success m)" for m
    using success_message.build_consistent by blast
  have k: "packet_kind (success m) = Some SUCCESS" for m
    by (rule success_message.build_kind)
  have r: "receivePacket sample_link 4096 (serialize (success ''Upload session ready'') @ xs, ys) =
      (Received (success ''Upload session ready''), (xs, ys))"
    "receivePacket sample_link 4096 (serialize (success ''Upload verified and completed''), ys) =
      (Received (success ''Upload verified and completed''), ([], ys))" for xs ys
    using sample_receive [OF c, of "''Upload session ready''" xs ys]
      sample_receive [OF c, of "''Upload verified and completed''" "[]" ys]
    by (simp_all add: codec_simps prefixed_def)
  have "sha256File sample_evp sample_fs [''srv'', ''data'', ''a''] = sample_hash"
    by (simp add: sha256File_def open_read_def sample_eval sha256_content_eq [OF sample_evp_computes sample_evp_total])
  then show ?thesis
    by (simp add: upload_def send_file_def sample_client_def new_client_def sample_replies_def local_path_def r k
        file_size_def open_read_def sample_eval path_filename_def size64_def sample_hash_nonempty
        upload_packets_def read_blocks.simps CHUNK_SIZE_def progress_def)
qed

lemma sample_upload_server:
  "\<exists>k' s'. handle_all sample_cfg sample_link (upload_packets 1 3 ''b'' ''a'' sample_hash [1, 2, 3]) sample_conn sample_server
      = Running (k', s') \<and> snd (chan k') = sample_replies"
proof -
  have "session_authenticated (sess sample_conn)" "short ''b''" "short ''a''" "short sample_hash"
    by (simp_all add: sample_conn_def sample_digest_def hex_byte_def)
  note b = handle_begin [OF this]
  have "\<exists>r1 r2 r3. beginUpload sample_evp sample_root Map.empty sample_fs 1 ''b'' ''a'' 3 sample_hash = (UploadOk, r1) \<and>
      writeChunk sample_evp (fst r1) (snd r1) 1 0 [1, 2, 3] = (UploadOk, r2) \<and>
      finishUpload sample_evp (fst r2) (snd r2) 1 = (UploadOk, r3)"
    by (simp add: sample_upload_eval sample_hash_nonempty)
  then obtain r1 r2 r3 where r: "beginUpload sample_evp sample_root Map.empty sample_fs 1 ''b'' ''a'' 3 sample_hash = (UploadOk, r1)"
      "writeChunk sample_evp (fst r1) (snd r1) 1 0 [1, 2, 3] = (UploadOk, r2)"
      "finishUpload sample_evp (fst r2) (snd r2) 1 = (UploadOk, r3)"
    by blast
  have "read_blocks CHUNK_SIZE [1, 2, 3] = [[1, 2, 3]]"
    by (simp add: read_blocks.simps CHUNK_SIZE_def)
  moreover have "cfg_evp sample_cfg = sample_evp" "root (cfg_env sample_cfg) = sample_root"
    "srv_uploads sample_server = Map.empty" "disk (srv_store sample_server) = sample_fs"
    "session_authenticated (sess sample_conn)" "chan sample_conn = ([], [])"
    by (simp_all add: sample_cfg_def sample_server_def sample_conn_def new_conn_def)
  ultimately show ?thesis
    by (simp add: upload_packets_def b handle_chunk handle_end r reply_def sample_replies_def)
qed


end
