(* ===== verification/Client_Requests.thy ===== *)
theory Client_Requests
  imports Client_Upload Storage_Operations
begin

text \<open>
  The client's requests with a single reply, against the server's handlers: the contract that delete,
  rename, mkdir and rmdir share, and what the client's status says of the server's store.
\<close>

section \<open>The messages of the services are short\<close>

lemma strerror_short: "length (strerror e) \<le> 100"
  by (cases e) simp_all

lemma resolvePath_error_short: "resolvePath rt f p = Inl e \<Longrightarrow> length e \<le> 100"
  by (auto simp: resolvePath_def Let_def split: sum.splits if_splits)

lemma service_messages_short:
  "length (snd (fst (deletePath env s p u))) \<le> 200"
  "length (snd (fst (renamePath env s p q u))) \<le> 200"
  "length (snd (fst (createDirectory env s p u))) \<le> 200"
  "length (snd (fst (removeDirectory env s p u))) \<le> 200"
proof -
  note short = order_trans [OF strerror_short] order_trans [OF resolvePath_error_short]
  show "length (snd (fst (deletePath env s p u))) \<le> 200"
    by (auto simp: deletePath_def delete_failed_def Let_def intro: short
        split: sum.splits prod.splits bool.splits option.splits)
  show "length (snd (fst (renamePath env s p q u))) \<le> 200"
    by (auto simp: renamePath_def rename_failed_def Let_def intro: short
        split: sum.splits prod.splits bool.splits option.splits)
  show "length (snd (fst (createDirectory env s p u))) \<le> 200"
    by (auto simp: createDirectory_def directory_failed_def Let_def intro: short
        split: sum.splits prod.splits bool.splits option.splits)
  show "length (snd (fst (removeDirectory env s p u))) \<le> 200"
    by (auto simp: removeDirectory_def directory_failed_def Let_def intro: short
        split: sum.splits prod.splits bool.splits option.splits)
qed

lemma reply_prefix:
  assumes "itransport T inq outq"
  shows "\<exists>n. outq (chan (reply T p c)) = outq (chan c) @ take n (serialize p)"
proof (cases "sendPacket T (chan c) p")
  case (Pair ok t)
  show ?thesis
  proof (cases ok)
    case True
    then show ?thesis
      using Pair itransport.sendPacket_ok [OF assms, of "chan c" p t]
      by (intro exI [of _ "length (serialize p)"]) (simp add: reply_def)
  next
    case False
    then show ?thesis
      using Pair itransport.send_fail [OF assms, of "chan c" "serialize p" t]
      by (auto simp: reply_def sendPacket_def)
  qed
qed

text \<open>A request that arrived as a packet is that packet, and what the client read is what the server began
  its reply with.\<close>

lemma request_arrives:
  assumes "itransport T inq outq" and "sendPacket T t r = (True, t1)" and "receivePacket T A t1 = (Received q, t')"
    and "A < 2 ^ 64" and "outq t' = outq t @ serialize p" and "consistent p" and "length (payload p) < 2 ^ 64"
    and "consistent r" and "length (payload r) < 2 ^ 64"
  shows "p = r" and "inq t = serialize q @ inq t'" and "consistent q" and "length (payload q) < 2 ^ 64"
proof -
  have out: "outq t' = outq t @ serialize r" "inq t = serialize q @ inq t'" "consistent q" "length (payload q) \<le> A"
    using itransport.sendPacket_ok [OF assms(1,2)] itransport.receivePacket_exact [OF assms(1,3)] by simp_all
  then show "inq t = serialize q @ inq t'" "consistent q" "length (payload q) < 2 ^ 64"
    using assms(4) by simp_all
  show "p = r"
    using serialize_prefix_free [OF assms(6,8,7,9), of "[]" "[]"] assms(5) out(1) by simp
qed

lemma reply_arrives:
  assumes "itransport T inq outq" and "outq (chan (reply T R c)) = outq (chan c) @ serialize q @ xs"
    and "consistent q" and "length (payload q) < 2 ^ 64"
  shows "packet_kind q = packet_kind R" and "consistent R \<Longrightarrow> length (payload R) < 2 ^ 64 \<Longrightarrow> q = R"
proof -
  obtain n where "outq (chan (reply T R c)) = outq (chan c) @ take n (serialize R)"
    using reply_prefix [OF assms(1)] by blast
  then have "serialize q @ xs = take n (serialize R)"
    using assms(2) by simp
  then have eq: "serialize q @ xs @ drop n (serialize R) = serialize R @ []"
    by (metis append_assoc append_take_drop_id append_Nil2)
  show "packet_kind q = packet_kind R"
    using serialize_kind [OF eq] by simp
  show "q = R" if "consistent R" "length (payload R) < 2 ^ 64"
    using serialize_prefix_free [OF assms(3) that(1) assms(4) that(2) eq] ..
qed

section \<open>Requests that are answered with a status\<close>

text \<open>What \<open>delete\<close>, \<open>rename\<close>, \<open>mkdir\<close> and \<open>rmdir\<close> share on both ends: a request that carries its
  arguments, a handler that runs a service on the store, and a reply that carries the verdict.\<close>

locale status_operation =
  fixes H :: "('t, 'c) handler"
    and req :: "'m \<Rightarrow> packet"
    and fits :: "'m \<Rightarrow> bool"
    and parse :: "packet \<Rightarrow> (bool \<times> string) parse"
    and resp :: "bool \<Rightarrow> string \<Rightarrow> packet"
    and act :: "service_env \<Rightarrow> store \<Rightarrow> 'm \<Rightarrow> string \<Rightarrow> (bool \<times> string) \<times> store"
  assumes handled: "fits m \<Longrightarrow> session_authenticated (sess c) \<Longrightarrow>
      H cfg T (req m) c s =
        (let ((ok, msg), st) = act (cfg_env cfg) (srv_store s) m (session_username (sess c))
         in Running (reply T (resp ok msg) c, s\<lparr>srv_store := st\<rparr>))"
    and req_fits: "fits m \<Longrightarrow> consistent (req m) \<and> length (payload (req m)) < 2 ^ 64"
    and resp_consistent: "consistent (resp ok msg)"
    and resp_length: "length (payload (resp ok msg)) = 3 + length msg"
    and resp_parse: "parse (resp ok msg) = Parsed (ok, take (length msg mod 65536) msg)"
    and act_message: "length (snd (fst (act env st m u))) \<le> 200"
begin

lemma end_to_end:
  assumes client: "itransport Tc inq outq" "status_request Tc A (req m) parse k = (Returns st, k')"
      "st \<noteq> SAILOR_NOT_CONNECTED" "st \<noteq> SAILOR_CONNECTION_FAILED"
      "cl_transport k = Some t" "cl_transport k' = Some t'" "A < 2 ^ 64" "fits m"
    and sent: "outq t' = outq t @ serialize p" "consistent p" "length (payload p) < 2 ^ 64"
    and server: "itransport Ts inqs outqs" "H cfg Ts p c s = Running (c', s')"
      "session_authenticated (sess c)" "outqs (chan c') = outqs (chan c) @ inq t"
  shows "s' = s\<lparr>srv_store := snd (act (cfg_env cfg) (srv_store s) m (session_username (sess c)))\<rparr> \<and>
    st = (if fst (fst (act (cfg_env cfg) (srv_store s) m (session_username (sess c)))) then SAILOR_OK
          else SAILOR_OPERATION_FAILED)"
proof -
  obtain a k1 where r: "request Tc A (req m) k = (a, k1)"
    by fastforce
  obtain t1 q where q: "sendPacket Tc t (req m) = (True, t1)" "receivePacket Tc A t1 = (Received q, t')"
    "status_of_reply (parse q) = Returns st"
  proof -
    have "(case a of Failed e \<Rightarrow> (Returns e, k1) | ReceiveRaised \<Rightarrow> (Raised, k1)
        | Answer resp \<Rightarrow> (status_of_reply (parse resp), k1)) = (Returns st, k')"
      using client(2) r by (simp add: status_request_def)
    with r client(3-6) that show thesis
      by (cases rule: request_cases) auto
  qed
  have "consistent (req m)" "length (payload (req m)) < 2 ^ 64"
    using req_fits [OF client(8)] by simp_all
  note out = request_arrives [OF client(1) q(1,2) client(7) sent this]
  obtain ok msg store' where act: "act (cfg_env cfg) (srv_store s) m (session_username (sess c)) = ((ok, msg), store')"
    by (metis prod.exhaust)
  have h: "c' = reply Ts (resp ok msg) c" "s' = s\<lparr>srv_store := store'\<rparr>"
    using server(2) handled [OF client(8) server(3), of cfg Ts s] act out(1) by simp_all
  have "length (payload (resp ok msg)) < 2 ^ 64"
    using act_message [of "cfg_env cfg" "srv_store s" m "session_username (sess c)"] act by (simp add: resp_length)
  then have "q = resp ok msg"
    using reply_arrives(2) [OF server(1) _ out(3,4) resp_consistent] server(4) h(1) out(2) by simp
  then show ?thesis
    using q(3) act h(2) by (simp add: resp_parse status_of_reply_def)
qed

end

lemma status_responses_consistent:
  "consistent (deleteResponse ok msg)" "consistent (renameResponse ok msg)" "consistent (mkdirResponse ok msg)"
  "consistent (rmdirResponse ok msg)"
  using delete_response.build_consistent [of "(ok, msg)"] rename_response.build_consistent [of "(ok, msg)"]
    mkdir_response.build_consistent [of "(ok, msg)"] rmdir_response.build_consistent [of "(ok, msg)"]
  by simp_all

lemmas status_simps = status_responses_consistent parse_status_responses service_messages_short

interpretation delete_operation: status_operation handle_packet deleteRequest short parseDeleteResponse deleteResponse
  deletePath
  by unfold_locales (simp_all add: handle_packet_def handle_delete_def delete_request.build_kind
      delete_request.parse_build delete_request.build_consistent status_simps,
    simp_all add: codec_simps prefixed_def)

interpretation rename_operation: status_operation handle_packet "\<lambda>(p, q). renameRequest p q"
  "\<lambda>(p, q). short p \<and> short q" parseRenameResponse renameResponse "\<lambda>env st (p, q). renamePath env st p q"
proof (unfold_locales, goal_cases)
  case (1 m c cfg T s)
  then show ?case
    using rename_request.build_kind [of m] rename_request.parse_build [of m]
    by (cases m) (simp add: handle_packet_def handle_rename_def)
next
  case (2 m)
  then show ?case
    using rename_request.build_consistent [of m] by (cases m) (simp add: codec_simps prefixed_def)
qed (auto simp: status_simps, simp add: codec_simps prefixed_def)

interpretation mkdir_operation: status_operation handle_packet mkdirRequest short parseMkdirResponse mkdirResponse
  createDirectory
  by unfold_locales (simp_all add: handle_packet_def handle_mkdir_def mkdir_request.build_kind
      mkdir_request.parse_build mkdir_request.build_consistent status_simps,
    simp_all add: codec_simps prefixed_def)

interpretation rmdir_operation: status_operation handle_packet rmdirRequest short parseRmdirResponse rmdirResponse
  removeDirectory
  by unfold_locales (simp_all add: handle_packet_def handle_rmdir_def rmdir_request.build_kind
      rmdir_request.parse_build rmdir_request.build_consistent status_simps,
    simp_all add: codec_simps prefixed_def)

section \<open>From the client to the store\<close>


text \<open>A rename request from the client runs renamePath on the server's store with both paths, and the
  client's status is SAILOR_OK exactly when the service reported success.\<close>

theorem rename_end_to_end:
  assumes client: "itransport Tc inq outq" "rename_remote Tc A src dst k = (Returns st, k')"
      "st \<noteq> SAILOR_NOT_CONNECTED" "st \<noteq> SAILOR_CONNECTION_FAILED"
      "cl_transport k = Some t" "cl_transport k' = Some t'" "A < 2 ^ 64" "short src" "short dst"
    and sent: "outq t' = outq t @ serialize p" "consistent p" "length (payload p) < 2 ^ 64"
    and server: "itransport Ts inqs outqs" "handle_packet cfg Ts p c s = Running (c', s')"
      "session_authenticated (sess c)" "outqs (chan c') = outqs (chan c) @ inq t"
  shows "s' = s\<lparr>srv_store := snd (renamePath (cfg_env cfg) (srv_store s) src dst (session_username (sess c)))\<rparr> \<and>
    st = (if fst (fst (renamePath (cfg_env cfg) (srv_store s) src dst (session_username (sess c)))) then SAILOR_OK
          else SAILOR_OPERATION_FAILED)"
proof -
  have "status_request Tc A ((\<lambda>(p, q). renameRequest p q) (src, dst)) parseRenameResponse k = (Returns st, k')"
    using client(2) by (simp add: rename_remote_def)
  from rename_operation.end_to_end [OF client(1) this client(3-7) _ sent server] client(8,9) show ?thesis
    by simp
qed

lemma mkdir_end_to_end:
  assumes client: "itransport Tc inq outq" "mkdir_remote Tc A path k = (Returns st, k')"
      "st \<noteq> SAILOR_NOT_CONNECTED" "st \<noteq> SAILOR_CONNECTION_FAILED"
      "cl_transport k = Some t" "cl_transport k' = Some t'" "A < 2 ^ 64" "short path"
    and sent: "outq t' = outq t @ serialize p" "consistent p" "length (payload p) < 2 ^ 64"
    and server: "itransport Ts inqs outqs" "handle_packet cfg Ts p c s = Running (c', s')"
      "session_authenticated (sess c)" "outqs (chan c') = outqs (chan c) @ inq t"
  shows "s' = s\<lparr>srv_store := snd (createDirectory (cfg_env cfg) (srv_store s) path (session_username (sess c)))\<rparr> \<and>
    st = (if fst (fst (createDirectory (cfg_env cfg) (srv_store s) path (session_username (sess c)))) then SAILOR_OK
          else SAILOR_OPERATION_FAILED)"
  by (rule mkdir_operation.end_to_end [OF client(1) client(2) [unfolded mkdir_remote_def] client(3-) sent server])

lemma rmdir_end_to_end:
  assumes client: "itransport Tc inq outq" "rmdir_remote Tc A path k = (Returns st, k')"
      "st \<noteq> SAILOR_NOT_CONNECTED" "st \<noteq> SAILOR_CONNECTION_FAILED"
      "cl_transport k = Some t" "cl_transport k' = Some t'" "A < 2 ^ 64" "short path"
    and sent: "outq t' = outq t @ serialize p" "consistent p" "length (payload p) < 2 ^ 64"
    and server: "itransport Ts inqs outqs" "handle_packet cfg Ts p c s = Running (c', s')"
      "session_authenticated (sess c)" "outqs (chan c') = outqs (chan c) @ inq t"
  shows "s' = s\<lparr>srv_store := snd (removeDirectory (cfg_env cfg) (srv_store s) path (session_username (sess c)))\<rparr> \<and>
    st = (if fst (fst (removeDirectory (cfg_env cfg) (srv_store s) path (session_username (sess c)))) then SAILOR_OK
          else SAILOR_OPERATION_FAILED)"
  by (rule rmdir_operation.end_to_end [OF client(1) client(2) [unfolded rmdir_remote_def] client(3-) sent server])


section \<open>Instances\<close>

lemma sample_request:
  assumes "consistent R" and "length (payload R) \<le> 4096"
  shows "\<exists>k'. request sample_link 4096 req (sample_client (serialize R)) = (Answer R, k') \<and>
    cl_transport k' = Some ([], serialize req)"
  using sample_receive [OF assms, of "[]" "serialize req"] by (simp add: request_def sample_client_def)

lemma sample_status_request:
  assumes "consistent R" and "length (payload R) \<le> 4096" and "parse R = Parsed (ok, msg)"
  shows "\<exists>k'. status_request sample_link 4096 req parse (sample_client (serialize R)) =
      (Returns (if ok then SAILOR_OK else SAILOR_OPERATION_FAILED), k') \<and> cl_transport k' = Some ([], serialize req)"
  using sample_request [OF assms(1,2), of req] assms(3) by (auto simp: status_request_def status_of_reply_def)

lemma sample_reply: "snd (chan (reply sample_link p sample_conn)) = snd (chan sample_conn) @ serialize p"
  by (simp add: reply_def sample_conn_def new_conn_def)

lemma sample_authenticated: "session_authenticated (sess sample_conn)"
  "cl_transport (sample_client d) = Some (d, [])"
  by (simp_all add: sample_conn_def sample_client_def)

lemma sample_fields:
  "cfg_env sample_cfg = sample_env" "srv_store sample_server = sample_store" "session_username (sess sample_conn) = ''u''"
  by (simp_all add: sample_cfg_def sample_server_def sample_conn_def)


lemma rename_end_to_end_witness:
  "\<exists>R st k' c' s'. rename_remote sample_link 4096 ''a'' ''b/d'' (sample_client (serialize R)) = (Returns st, k') \<and>
    handle_packet sample_cfg sample_link (renameRequest ''a'' ''b/d'') sample_conn sample_server = Running (c', s') \<and>
    srv_store s' = snd (renamePath sample_env sample_store ''a'' ''b/d'' ''u'')"
proof -
  obtain ok msg st' where d: "renamePath sample_env sample_store ''a'' ''b/d'' ''u'' = ((ok, msg), st')"
    by (metis prod.exhaust)
  let ?R = "renameResponse ok msg"
  have R: "consistent ?R" "length (payload ?R) \<le> 4096"
    using service_messages_short(2) [of sample_env sample_store "''a''" "''b/d''" "''u''"] d
    by (simp_all add: status_responses_consistent, simp add: codec_simps prefixed_def)
  obtain k' where c: "rename_remote sample_link 4096 ''a'' ''b/d'' (sample_client (serialize ?R)) =
      (Returns (if ok then SAILOR_OK else SAILOR_OPERATION_FAILED), k')"
    "cl_transport k' = Some ([], serialize (renameRequest ''a'' ''b/d''))"
    using sample_status_request [where parse = parseRenameResponse, OF R parse_status_responses(2)] by (fastforce simp: rename_remote_def)
  have h: "handle_packet sample_cfg sample_link (renameRequest ''a'' ''b/d'') sample_conn sample_server =
      Running (reply sample_link ?R sample_conn, sample_server\<lparr>srv_store := st'\<rparr>)"
    using rename_operation.handled [of "(''a'', ''b/d'')" sample_conn sample_cfg sample_link sample_server]
      sample_authenticated d by (simp add: sample_fields)
  have "srv_store (sample_server\<lparr>srv_store := st'\<rparr>) = snd (renamePath sample_env sample_store ''a'' ''b/d'' ''u'')"
    using rename_end_to_end [OF sample_link.itransport_axioms c(1) _ _ sample_authenticated(2) c(2) _ _ _ _ _ _
        sample_link.itransport_axioms h sample_authenticated(1)] rename_operation.req_fits [of "(''a'', ''b/d'')"] sample_reply
    by (simp add: sample_fields)
  with c(1) h show ?thesis by blast
qed


end
