(* ===== verification/Client_Login.thy ===== *)
theory Client_Login
  imports Client_Requests
begin

text \<open>
  The login: \<open>InternalClient::connect\<close> against the AUTH_REQUEST case of the server.
\<close>

section \<open>The login\<close>

definition established :: "'t network \<Rightarrow> 't \<Rightarrow> bool" where
  "established net t \<longleftrightarrow> net_tls net \<and> net_socket net \<and> net_address net \<and> net_connect net \<and> net_ssl net \<and>
     net_handshake net = Some t"

lemma login_cases:
  assumes "connect T A net user pass k = (Returns st, k')" and "established net t" and "cl_transport k' = Some t'"
  obtains t1 q where "sendPacket T t (authRequest user pass) = (True, t1)"
    "receivePacket T A t1 = (Received q, t')"
    "case parseAuthResponse q of
       Parsed (ok, sid, msg) \<Rightarrow> st = (if ok then SAILOR_OK else SAILOR_AUTH_FAILED) \<and>
         (ok \<longrightarrow> cl_session_id k' = sid \<and> cl_state k' = AUTHENTICATED) \<and>
         (\<not> ok \<longrightarrow> cl_state k' = CONNECTED_UNAUTHENTICATED)
     | _ \<Rightarrow> parseAuthResponse q = Rejected"
proof -
  obtain ok t1 where s: "sendPacket T t (authRequest user pass) = (ok, t1)"
    by fastforce
  obtain r t2 where r: "receivePacket T A t1 = (r, t2)"
    by fastforce
  show thesis
    using assms s r
    by (intro that [of t1 "case r of Received q \<Rightarrow> q"])
      (auto simp: connect_def established_def Let_def
        split: bool.splits receive.splits parse.splits prod.splits)
qed

lemma authResponse_short:
  "length m \<le> 200 \<Longrightarrow> length (payload (authResponse ok sid m)) < 2 ^ 64 \<and> consistent (authResponse ok sid m) \<and>
    parseAuthResponse (authResponse ok sid m) = Parsed (ok, sid, m)"
  using auth_response.parse_build [of "(ok, sid, m)"] auth_response.build_consistent [of "(ok, sid, m)"]
  by (simp add: codec_simps prefixed_def)

text \<open>C7. The login from end to end. Over an established TLS connection, connect returns SAILOR_OK exactly
  when the server's user table accepts the name and password; both sides then hold the same
  session identifier for that user, and a refused login leaves the client unauthenticated and the
  server's session, files, uploads and users as they were.\<close>

theorem login_end_to_end:
  assumes client: "itransport Tc inq outq" "connect Tc A net user pass k = (Returns st, k')"
      "established net t" "cl_transport k' = Some t'" "A < 2 ^ 64" "short user" "short pass"
    and sent: "outq t' = outq t @ serialize p" "consistent p" "length (payload p) < 2 ^ 64"
    and server: "itransport Ts inqs outqs" "handle_packet cfg Ts p c s = Running (c', s')"
      "outqs (chan c') = outqs (chan c) @ inq t"
  shows "st = (if authenticate (cfg_evp cfg) (srv_users s) user pass then SAILOR_OK else SAILOR_AUTH_FAILED) \<and>
    (st = SAILOR_OK \<longrightarrow> cl_state k' = AUTHENTICATED \<and>
      sess c' = \<lparr>session_id = cl_session_id k', session_username = user, session_authenticated = True\<rparr>) \<and>
    (st \<noteq> SAILOR_OK \<longrightarrow> \<not> isConnected k' \<and> sess c' = sess c) \<and>
    srv_store s' = srv_store s \<and> srv_uploads s' = srv_uploads s \<and> srv_users s' = srv_users s"
proof -
  obtain t1 q where q: "sendPacket Tc t (authRequest user pass) = (True, t1)" "receivePacket Tc A t1 = (Received q, t')"
    and v: "case parseAuthResponse q of
       Parsed (ok, sid, msg) \<Rightarrow> st = (if ok then SAILOR_OK else SAILOR_AUTH_FAILED) \<and>
         (ok \<longrightarrow> cl_session_id k' = sid \<and> cl_state k' = AUTHENTICATED) \<and>
         (\<not> ok \<longrightarrow> cl_state k' = CONNECTED_UNAUTHENTICATED)
     | _ \<Rightarrow> parseAuthResponse q = Rejected"
    by (rule login_cases [OF client(2-4)])
  have rq: "consistent (authRequest user pass)" "length (payload (authRequest user pass)) < 2 ^ 64"
    "parseAuthRequest (authRequest user pass) = Parsed (user, pass)" "packet_kind (authRequest user pass) = Some AUTH_REQUEST"
    using client(6,7) auth_request.build_consistent [of "(user, pass)"] auth_request.parse_build [of "(user, pass)"]
      auth_request.build_kind [of "(user, pass)"]
    by (simp_all add: codec_simps prefixed_def)
  note out = request_arrives [OF client(1) q client(5) sent rq(1,2)]
  let ?ok = "authenticate (cfg_evp cfg) (srv_users s) user pass"
  let ?sid = "if ?ok then cfg_rng cfg (srv_draws s) else 0"
  let ?msg = "if ?ok then ''Authentication successful'' else ''Invalid credentials''"
  define R where "R = authResponse ?ok ?sid ?msg"
  have R: "length (payload R) < 2 ^ 64" "consistent R" "parseAuthResponse R = Parsed (?ok, ?sid, ?msg)"
    using authResponse_short [of ?msg ?ok ?sid] by (simp_all add: R_def)
  define c1 where "c1 = (if ?ok then c\<lparr>sess := \<lparr>session_id = ?sid, session_username = user,
      session_authenticated = True\<rparr>, cstate := AUTHENTICATED\<rparr> else c)"
  have h: "c' = reply Ts R c1" "s' = (if ?ok then snd (generateSessionId cfg s) else s)"
    using server(2) out(1) rq(3,4) by (auto simp: handle_packet_def handle_auth_def R_def c1_def generateSessionId_def split: if_splits)
  have "q = R"
    using reply_arrives(2) [OF server(1) _ out(3,4) R(2,1), of c1] server(3) h(1) out(2) by (simp add: c1_def split: if_splits)
  then show ?thesis
    using v h R by (auto simp: c1_def generateSessionId_def reply_def isConnected_def split: if_splits prod.splits)
qed

lemma login_end_to_end_witness:
  "\<exists>k' c' s'. connect sample_link 4096 (sample_net (serialize (authResponse True 7 ''Authentication successful''), []))
      ''u'' ''p'' new_client = (Returns SAILOR_OK, k') \<and>
    handle_packet sample_cfg sample_link (authRequest ''u'' ''p'') (new_conn ([], [])) sample_server = Running (c', s') \<and>
    session_id (sess c') = cl_session_id k' \<and> session_authenticated (sess c')"
proof -
  let ?R = "authResponse True 7 ''Authentication successful''" and ?q = "authRequest ''u'' ''p''"
  have R: "consistent ?R" "length (payload ?R) \<le> 4096" "parseAuthResponse ?R = Parsed (True, 7, ''Authentication successful'')"
    using authResponse_short [of "''Authentication successful''" True 7] by (simp_all, simp add: codec_simps prefixed_def)
  have "sendPacket sample_link (serialize ?R, []) ?q = (True, (serialize ?R, serialize ?q))"
    by (simp add: sendPacket_def sample_link_def)
  then obtain k' where c: "connect sample_link 4096 (sample_net (serialize ?R, [])) ''u'' ''p'' new_client = (Returns SAILOR_OK, k')"
    "cl_transport k' = Some ([], serialize ?q)"
    using sample_receive [OF R(1,2), of "[]" "serialize ?q"] R(3) by (simp add: connect_def sample_net_def)
  have q: "consistent ?q" "length (payload ?q) < 2 ^ 64"
    using auth_request.build_consistent [of "(''u'', ''p'')"] by (simp_all add: codec_simps prefixed_def)
  have e: "established (sample_net (serialize ?R, [])) (serialize ?R, [])"
    by (simp add: established_def sample_net_def)
  define c' where "c' = reply sample_link ?R ((new_conn ([], []))\<lparr>sess := \<lparr>session_id = 7, session_username = ''u'',
      session_authenticated = True\<rparr>, cstate := AUTHENTICATED\<rparr>)"
  have "snd (chan c') = snd (chan (new_conn ([] :: bytes, [] :: bytes))) @ serialize ?R"
    by (simp add: c'_def reply_def new_conn_def sendPacket_def sample_link_def)
  then have "sess c' = \<lparr>session_id = cl_session_id k', session_username = ''u'', session_authenticated = True\<rparr>"
    using login_end_to_end [OF sample_link.itransport_axioms c(1) e c(2) _ _ _ _ q sample_link.itransport_axioms
        sample_login [of "([], [])", folded c'_def]] by simp
  with c(1) sample_login [of "([], [])", folded c'_def] show ?thesis
    by simp
qed

end
