(* ===== verification/Reply_Types.thy ===== *)
theory Reply_Types
  imports Client_Requests
begin

text \<open>
  The types of the server's replies: which packets \<open>TcpServer::handleClient\<close> sends for a packet of
  each type.
\<close>

section \<open>The kinds of the replies\<close>

text \<open>The sequences of packets that the server may send for a packet of each kind.  A download that
  cannot open its file after the announcement stops there.\<close>

fun reply_shape :: "packet_type option \<Rightarrow> packet_type list \<Rightarrow> bool" where
  "reply_shape (Some PING) ks = (ks = [PONG])"
| "reply_shape (Some AUTH_REQUEST) ks = (ks \<in> {[AUTH_RESPONSE], [ERROR]})"
| "reply_shape (Some LIST) ks = (ks \<in> {[LIST_RESPONSE], [ERROR]})"
| "reply_shape (Some UPLOAD_BEGIN) ks = (ks \<in> {[SUCCESS], [ERROR]})"
| "reply_shape (Some UPLOAD_CHUNK) ks = (ks \<in> {[], [ERROR]})"
| "reply_shape (Some UPLOAD_END) ks = (ks \<in> {[SUCCESS], [ERROR]})"
| "reply_shape (Some DOWNLOAD_REQUEST) ks =
     (ks \<in> {[ERROR], [DOWNLOAD_BEGIN]} \<or>
      hd ks = DOWNLOAD_BEGIN \<and> last ks = DOWNLOAD_END \<and>
      ks = DOWNLOAD_BEGIN # replicate (length ks - 2) DOWNLOAD_CHUNK @ [DOWNLOAD_END])"
| "reply_shape (Some DELETE_REQUEST) ks = (ks = [DELETE_RESPONSE])"
| "reply_shape (Some RENAME_REQUEST) ks = (ks = [RENAME_RESPONSE])"
| "reply_shape (Some MKDIR_REQUEST) ks = (ks = [MKDIR_RESPONSE])"
| "reply_shape (Some RMDIR_REQUEST) ks = (ks = [RMDIR_RESPONSE])"
| "reply_shape (Some DELETE_FILE) ks = (ks \<in> {[], [ERROR]})"
| "reply_shape (Some RENAME_FILE) ks = (ks \<in> {[], [ERROR]})"
| "reply_shape (Some MKDIR) ks = (ks \<in> {[], [ERROR]})"
| "reply_shape _ ks = (ks = [])"

text \<open>The stream has grown by (a prefix of) well-formed packets of the given kinds.\<close>

definition never_fails :: "'t transport \<Rightarrow> bool" where
  "never_fails T \<longleftrightarrow> (\<forall>t d. fst (sendAll T t d))"

lemma never_fails_send: "never_fails T \<Longrightarrow> \<exists>t1. sendPacket T t p = (True, t1)"
  unfolding never_fails_def sendPacket_def by (metis prod.collapse)

definition has_sent :: "'t transport \<Rightarrow> ('t \<Rightarrow> bytes) \<Rightarrow> 't \<Rightarrow> 't \<Rightarrow> (packet_type list \<Rightarrow> bool) \<Rightarrow> bool" where
  "has_sent T outq t t' P \<longleftrightarrow>
     (\<exists>ps n ks. outq t' = outq t @ take n (concat (map serialize ps)) \<and>
        (never_fails T \<longrightarrow> outq t' = outq t @ concat (map serialize ps)) \<and> (\<forall>p \<in> set ps. consistent p) \<and>
        map packet_kind ps = map Some ks \<and> P ks)"

lemma has_sent_nothing: "P [] \<Longrightarrow> has_sent T outq t t P"
  unfolding has_sent_def by (intro exI [of _ "[]"]) simp

text \<open>Sending packets one after the other until a send fails.\<close>

fun send_all :: "'t transport \<Rightarrow> packet list \<Rightarrow> 't \<Rightarrow> bool \<times> 't" where
  "send_all T [] t = (True, t)"
| "send_all T (p # ps) t = (case sendPacket T t p of (True, t) \<Rightarrow> send_all T ps t | (False, t) \<Rightarrow> (False, t))"

lemma send_all_append:
  "send_all T (ps @ qs) t = (case send_all T ps t of (True, t) \<Rightarrow> send_all T qs t | (False, t) \<Rightarrow> (False, t))"
  by (induction ps arbitrary: t) (auto split: prod.splits bool.splits)

lemma stream_loop_send_all:
  "\<exists>ps n. snd (stream_loop T i sz ds off t) = snd (send_all T ps t) \<and>
    (fst (stream_loop T i sz ds off t) = None \<longleftrightarrow> fst (send_all T ps t)) \<and> (\<forall>p \<in> set ps. consistent p) \<and>
    map packet_kind ps = map Some (replicate n DOWNLOAD_CHUNK)"
proof (induction ds arbitrary: off t)
  case Nil
  show ?case by (intro exI [of _ "[]"] exI [of _ 0]) simp
next
  case (Cons d ds)
  let ?p = "downloadChunk i off d"
  have p: "consistent ?p" "packet_kind ?p = Some DOWNLOAD_CHUNK"
    by (simp_all add: codec_simps)
  show ?case
  proof (cases "off < sz")
    case False
    then show ?thesis by (intro exI [of _ "[]"] exI [of _ 0]) simp
  next
    case True
    obtain ok t1 where s: "sendPacket T t ?p = (ok, t1)" by fastforce
    show ?thesis
    proof (cases ok)
      case False
      with s True p show ?thesis by (intro exI [of _ "[?p]"] exI [of _ 1]) simp
    next
      case True
      obtain ps n where ih: "snd (stream_loop T i sz ds (off + size64 (length d)) t1) = snd (send_all T ps t1)"
        "(fst (stream_loop T i sz ds (off + size64 (length d)) t1) = None) = fst (send_all T ps t1)"
        "\<forall>p \<in> set ps. consistent p" "map packet_kind ps = map Some (replicate n DOWNLOAD_CHUNK)"
        using Cons.IH by blast
      with s True \<open>off < sz\<close> p show ?thesis
        by (intro exI [of _ "?p # ps"] exI [of _ "Suc n"]) simp
    qed
  qed
qed

text \<open>What \<open>streamFile\<close> does: the announcement alone, or a complete download of which a prefix is sent.\<close>

lemma streamFile_send_all:
  "\<exists>ps ks. snd (streamFile T f m t) = snd (send_all T ps t) \<and> (\<forall>p \<in> set ps. consistent p) \<and>
    map packet_kind ps = map Some ks \<and> reply_shape (Some DOWNLOAD_REQUEST) ks"
proof -
  let ?b = "downloadBegin (dm_download_id m) (dm_file_size m) (dm_filename m) (dm_sha256_hash m)"
  let ?e = "downloadEnd (dm_download_id m)"
  have k: "consistent ?b" "packet_kind ?b = Some DOWNLOAD_BEGIN" "consistent ?e" "packet_kind ?e = Some DOWNLOAD_END"
    by (simp_all add: codec_simps)
  obtain ok t1 where b: "sendPacket T t ?b = (ok, t1)" by fastforce
  show ?thesis
  proof (cases "ok \<and> (\<exists>d. open_read f (dm_full_path m) = Inr d)")
    case False
    then have "snd (streamFile T f m t) = snd (send_all T [?b] t)"
      using b by (auto simp: streamFile_def split: bool.splits sum.splits)
    with k show ?thesis
      by (intro exI [of _ "[?b]"] exI [of _ "[DOWNLOAD_BEGIN]"]) simp
  next
    case True
    then obtain d where d: "open_read f (dm_full_path m) = Inr d" by blast
    let ?loop = "stream_loop T (dm_download_id m) (dm_file_size m) (read_blocks block_size d) 0 t1"
    obtain ps n where ps: "snd ?loop = snd (send_all T ps t1)" "(fst ?loop = None) = fst (send_all T ps t1)"
      "\<forall>p \<in> set ps. consistent p" "map packet_kind ps = map Some (replicate n DOWNLOAD_CHUNK)"
      using stream_loop_send_all [of T "dm_download_id m" "dm_file_size m" "read_blocks block_size d" 0 t1] by metis
    obtain e t2 where l: "?loop = (e, t2)" by fastforce
    then have sa: "send_all T ps t1 = (e = None, t2)"
      using ps(1,2) by (cases "send_all T ps t1") simp
    have "snd (streamFile T f m t) = snd (send_all T (?b # ps @ [?e]) t)"
      using True b d l sa
      by (auto simp: streamFile_def send_all_append split: option.splits prod.splits bool.splits)
    moreover have "reply_shape (Some DOWNLOAD_REQUEST) (DOWNLOAD_BEGIN # replicate n DOWNLOAD_CHUNK @ [DOWNLOAD_END])"
      by simp
    ultimately show ?thesis
      using k ps(3,4)
      by (intro exI [of _ "?b # ps @ [?e]"] exI [of _ "DOWNLOAD_BEGIN # replicate n DOWNLOAD_CHUNK @ [DOWNLOAD_END]"]) auto
  qed
qed

context itransport
begin

lemma reply_has_sent:
  assumes "packet_kind p = Some k" and "consistent p" and "P [k]" and "chan c0 = chan c"
  shows "has_sent T outq (chan c0) (chan (reply T p c)) P"
proof -
  obtain n where "outq (chan (reply T p c)) = outq (chan c) @ take n (serialize p)"
    using reply_prefix [OF itransport_axioms, of p c] by blast
  moreover have "never_fails T \<Longrightarrow> outq (chan (reply T p c)) = outq (chan c) @ serialize p"
    using never_fails_send [of T "chan c" p] sendPacket_ok [of "chan c" p] by (auto simp: reply_def)
  ultimately show ?thesis
    using assms unfolding has_sent_def by (intro exI [of _ "[p]"] exI [of _ n] exI [of _ "[k]"]) simp
qed

lemma send_all_complete: "never_fails T \<Longrightarrow> outq (snd (send_all T ps t)) = outq t @ concat (map serialize ps)"
proof (induction ps arbitrary: t)
  case (Cons p ps)
  obtain t1 where s: "sendPacket T t p = (True, t1)"
    using never_fails_send [OF Cons.prems] by blast
  then show ?case
    using Cons.IH [OF Cons.prems] sendPacket_ok [OF s] by simp
qed simp

lemma send_all_prefix: "\<exists>n. outq (snd (send_all T ps t)) = outq t @ take n (concat (map serialize ps))"
proof (induction ps arbitrary: t)
  case (Cons p ps)
  obtain ok t1 where s: "sendPacket T t p = (ok, t1)" by fastforce
  show ?case
  proof (cases ok)
    case True
    obtain n where "outq (snd (send_all T ps t1)) = outq t1 @ take n (concat (map serialize ps))"
      using Cons.IH by blast
    then show ?thesis
      using s True sendPacket_ok [of t p t1] by (intro exI [of _ "length (serialize p) + n"]) simp
  next
    case False
    obtain n where "n \<le> length (serialize p)" "outq t1 = outq t @ take n (serialize p)"
      using s False send_fail [of t "serialize p" t1] by (auto simp: sendPacket_def)
    then show ?thesis
      using s False by (intro exI [of _ n]) simp
  qed
qed simp

lemma streamFile_has_sent: "has_sent T outq t (snd (streamFile T f m t)) (reply_shape (Some DOWNLOAD_REQUEST))"
proof -
  obtain ps ks where p: "snd (streamFile T f m t) = snd (send_all T ps t)" "\<forall>p \<in> set ps. consistent p"
    "map packet_kind ps = map Some ks" "reply_shape (Some DOWNLOAD_REQUEST) ks"
    using streamFile_send_all [of T f m t] by metis
  moreover obtain n where "outq (snd (send_all T ps t)) = outq t @ take n (concat (map serialize ps))"
    using send_all_prefix by blast
  moreover note send_all_complete [of ps t]
  ultimately show ?thesis
    unfolding has_sent_def by auto
qed

end

lemma reply_kinds:
  "packet_kind pong = Some PONG" "packet_kind (authResponse ok sid m) = Some AUTH_RESPONSE" "packet_kind (error m) = Some ERROR"
  "packet_kind (success m) = Some SUCCESS" "packet_kind (listResponse es) = Some LIST_RESPONSE"
  "packet_kind (deleteResponse ok m) = Some DELETE_RESPONSE" "packet_kind (renameResponse ok m) = Some RENAME_RESPONSE"
  "packet_kind (mkdirResponse ok m) = Some MKDIR_RESPONSE" "packet_kind (rmdirResponse ok m) = Some RMDIR_RESPONSE"
  "consistent pong" "consistent (authResponse ok sid m)" "consistent (error m)" "consistent (success m)"
  "consistent (listResponse es)"
  by (simp_all add: pong_def listResponse_def codec_simps)

lemma handlers_reply:
  assumes "itransport T inq outq"
  shows "handle_ping cfg T p c s = Running (c', s') \<Longrightarrow> has_sent T outq (chan c) (chan c') (reply_shape (Some PING))"
    "handle_auth cfg T p c s = Running (c', s') \<Longrightarrow> has_sent T outq (chan c) (chan c') (reply_shape (Some AUTH_REQUEST))"
    "handle_list cfg T p c s = Running (c', s') \<Longrightarrow> has_sent T outq (chan c) (chan c') (reply_shape (Some LIST))"
    "handle_upload_begin cfg T p c s = Running (c', s') \<Longrightarrow> has_sent T outq (chan c) (chan c') (reply_shape (Some UPLOAD_BEGIN))"
    "handle_upload_chunk cfg T p c s = Running (c', s') \<Longrightarrow> has_sent T outq (chan c) (chan c') (reply_shape (Some UPLOAD_CHUNK))"
    "handle_upload_end cfg T p c s = Running (c', s') \<Longrightarrow> has_sent T outq (chan c) (chan c') (reply_shape (Some UPLOAD_END))"
    "handle_download cfg T p c s = Running (c', s') \<Longrightarrow> has_sent T outq (chan c) (chan c') (reply_shape (Some DOWNLOAD_REQUEST))"
    "handle_delete cfg T p c s = Running (c', s') \<Longrightarrow> has_sent T outq (chan c) (chan c') (reply_shape (Some DELETE_REQUEST))"
    "handle_rename cfg T p c s = Running (c', s') \<Longrightarrow> has_sent T outq (chan c) (chan c') (reply_shape (Some RENAME_REQUEST))"
    "handle_mkdir cfg T p c s = Running (c', s') \<Longrightarrow> has_sent T outq (chan c) (chan c') (reply_shape (Some MKDIR_REQUEST))"
    "handle_rmdir cfg T p c s = Running (c', s') \<Longrightarrow> has_sent T outq (chan c) (chan c') (reply_shape (Some RMDIR_REQUEST))"
    "handle_legacy cfg T p c s = Running (c', s') \<Longrightarrow> has_sent T outq (chan c) (chan c') (\<lambda>ks. ks \<in> {[], [ERROR]})"
proof -
  note sent = itransport.reply_has_sent [OF assms] has_sent_nothing
  note splits = if_splits parse.splits prod.splits sum.splits upload_result.splits
  note kinds = reply_kinds status_responses_consistent generateSessionId_def Let_def
  show "handle_ping cfg T p c s = Running (c', s') \<Longrightarrow> has_sent T outq (chan c) (chan c') (reply_shape (Some PING))"
    by (auto simp: handle_ping_def kinds intro!: sent)
  show "handle_auth cfg T p c s = Running (c', s') \<Longrightarrow> has_sent T outq (chan c) (chan c') (reply_shape (Some AUTH_REQUEST))"
    by (auto simp: handle_auth_def kinds intro!: sent split: splits)
  show "handle_list cfg T p c s = Running (c', s') \<Longrightarrow> has_sent T outq (chan c) (chan c') (reply_shape (Some LIST))"
    by (auto simp: handle_list_def kinds intro!: sent split: splits)
  show "handle_upload_begin cfg T p c s = Running (c', s') \<Longrightarrow> has_sent T outq (chan c) (chan c') (reply_shape (Some UPLOAD_BEGIN))"
    by (auto simp: handle_upload_begin_def kinds intro!: sent split: splits)
  show "handle_upload_chunk cfg T p c s = Running (c', s') \<Longrightarrow> has_sent T outq (chan c) (chan c') (reply_shape (Some UPLOAD_CHUNK))"
    by (auto simp: handle_upload_chunk_def kinds intro!: sent split: splits)
  show "handle_upload_end cfg T p c s = Running (c', s') \<Longrightarrow> has_sent T outq (chan c) (chan c') (reply_shape (Some UPLOAD_END))"
    by (auto simp: handle_upload_end_def kinds intro!: sent split: splits)
  show "handle_download cfg T p c s = Running (c', s') \<Longrightarrow> has_sent T outq (chan c) (chan c') (reply_shape (Some DOWNLOAD_REQUEST))"
    by (auto simp: handle_download_def kinds simp del: reply_shape.simps
        intro!: itransport.streamFile_has_sent [OF assms] split: splits) (auto simp: kinds intro!: sent)
  show "handle_delete cfg T p c s = Running (c', s') \<Longrightarrow> has_sent T outq (chan c) (chan c') (reply_shape (Some DELETE_REQUEST))"
    by (auto simp: handle_delete_def kinds intro!: sent split: splits)
  show "handle_rename cfg T p c s = Running (c', s') \<Longrightarrow> has_sent T outq (chan c) (chan c') (reply_shape (Some RENAME_REQUEST))"
    by (auto simp: handle_rename_def kinds intro!: sent split: splits)
  show "handle_mkdir cfg T p c s = Running (c', s') \<Longrightarrow> has_sent T outq (chan c) (chan c') (reply_shape (Some MKDIR_REQUEST))"
    by (auto simp: handle_mkdir_def kinds intro!: sent split: splits)
  show "handle_rmdir cfg T p c s = Running (c', s') \<Longrightarrow> has_sent T outq (chan c) (chan c') (reply_shape (Some RMDIR_REQUEST))"
    by (auto simp: handle_rmdir_def kinds intro!: sent split: splits)
  show "handle_legacy cfg T p c s = Running (c', s') \<Longrightarrow> has_sent T outq (chan c) (chan c') (\<lambda>ks. ks \<in> {[], [ERROR]})"
    by (auto simp: handle_legacy_def kinds intro!: sent split: splits)
qed

text \<open>C15. The server's replies are typed: for every packet, whatever its payload and the state of the
  server, the bytes that handleClient adds to the stream are well-formed packets (a prefix of them
  when a send fails) whose types are those that the protocol has for a packet of this type, in
  their order.\<close>

theorem replies_typed:
  assumes "itransport T inq outq" and "handle_packet cfg T p c s = Running (c', s')"
  shows "\<exists>ps n ks. outq (chan c') = outq (chan c) @ take n (concat (map serialize ps)) \<and>
    (never_fails T \<longrightarrow> outq (chan c') = outq (chan c) @ concat (map serialize ps)) \<and>
    (\<forall>q \<in> set ps. consistent q) \<and> map packet_kind ps = map Some ks \<and> reply_shape (packet_kind p) ks"
proof -
  have legacy: "reply_shape (Some k) = (\<lambda>ks. ks \<in> {[], [ERROR]})" if "k \<in> {DELETE_FILE, RENAME_FILE, MKDIR}" for k
    using that by auto
  have "has_sent T outq (chan c) (chan c') (reply_shape (packet_kind p))"
    using assms(2) handlers_reply [OF assms(1)]
    by (auto simp: handle_packet_def legacy intro: has_sent_nothing simp del: reply_shape.simps(1-14)
        split: option.splits packet_type.splits)
  then show ?thesis
    by (simp add: has_sent_def)
qed

lemma replies_typed_witness:
  "\<exists>ps. snd (chan (reply sample_link pong (new_conn ([], [])))) = concat (map serialize ps) \<and>
    map packet_kind ps = [Some PONG]"
proof -
  have h: "handle_packet sample_cfg sample_link ping (new_conn ([], [])) sample_server =
      Running (reply sample_link pong (new_conn ([], [])), sample_server)"
    by (simp add: handle_packet_def handle_ping_def ping_def)
  have "never_fails sample_link"
    by (simp add: never_fails_def sample_link_def split: prod.splits)
  with replies_typed [OF sample_link.itransport_axioms h] show ?thesis
    by (fastforce simp: new_conn_def ping_def)
qed

end
