(* ===== verification/Stale_Replies.thy ===== *)
theory Stale_Replies
  imports Client_Requests
begin

text \<open>
  What a rejected UPLOAD_CHUNK does to the following requests of the client: the server answers a chunk
  only when it fails, and the client does not wait for that answer.
\<close>

section \<open>Replies that nobody reads\<close>

context live_transport
begin

lemma sendPacket_live:
  "ready t \<Longrightarrow> length (serialize p) \<le> max_len \<Longrightarrow>
    \<exists>t'. sendPacket T t p = (True, t') \<and> ready t' \<and> inq t' = inq t"
  using ready_send [of t "serialize p"] sendPacket_ok [of t p] by (auto simp: sendPacket_def)

lemma upload_loop_live:
  assumes "ready t" and "\<forall>d \<in> set ds. 32 + length d \<le> max_len"
  shows "\<exists>t' c'. upload_loop T i n ds off t c = (True, t', c') \<and> ready t' \<and> inq t' = inq t"
  using assms
proof (induction ds arbitrary: off t c)
  case Nil
  then show ?case by simp
next
  case (Cons d ds)
  have "length (serialize (uploadChunk i off d)) \<le> max_len"
    using Cons.prems(2) by (simp add: codec_simps)
  then obtain t1 where s: "sendPacket T t (uploadChunk i off d) = (True, t1)" "ready t1" "inq t1 = inq t"
    using sendPacket_live [OF Cons.prems(1)] by blast
  show ?case
  proof (cases "off < n")
    case True
    have "\<exists>t' c'. upload_loop T i n ds (off + size64 (length d)) t1 (progress (off + size64 (length d)) n c) =
        (True, t', c') \<and> ready t' \<and> inq t' = inq t1"
      using Cons.prems(2) by (intro Cons.IH [OF s(2)]) simp
    with s True show ?thesis by (simp add: Let_def)
  next
    case False
    with Cons.prems(1) show ?thesis by simp
  qed
qed

text \<open>One exchange of the client: a packet is sent and the next one in the stream is received.\<close>

lemma exchange_live:
  assumes "ready t" and "length (serialize p) \<le> max_len" and "inq t = serialize r @ xs"
    and "consistent r" and "length (payload r) \<le> min alloc_max max_len" and "header_len \<le> max_len" and "max_len < 2 ^ 64"
  shows "\<exists>t1 t2. sendPacket T t p = (True, t1) \<and> receivePacket T alloc_max t1 = (Received r, t2) \<and> inq t2 = xs \<and> ready t2"
proof -
  obtain t1 where s: "sendPacket T t p = (True, t1)" "ready t1" "inq t1 = inq t"
    using sendPacket_live [OF assms(1,2)] by blast
  then obtain t2 where "receivePacket T alloc_max t1 = (Received r, t2)" "inq t2 = xs" "ready t2"
    using receivePacket_live [of t1 r xs alloc_max] assms by auto
  with s(1) show ?thesis by blast
qed

lemma stale_reply_read:
  assumes "ready t" and "cl_state k = AUTHENTICATED" and "cl_transport k = Some t"
    and "fs_exists f (local_path cwd lf)" and "\<not> is_directory f (local_path cwd lf)"
    and "open_read f (local_path cwd lf) = Inr d" and "sha256File E f (local_path cwd lf) \<noteq> []"
    and sizes: "34 + length rd + length (path_filename (elements (path_of lf))) +
        length (sha256File E f (local_path cwd lf)) \<le> max_len" "16 + length src + length dst \<le> max_len"
      "CHUNK_SIZE + 32 \<le> max_len" "max_len < 2 ^ 64"
    and replies: "inq t = serialize r0 @ serialize r1 @ serialize v @ xs" "packet_kind r0 = Some SUCCESS" "packet_kind r1 = Some ERROR"
    and fits: "\<forall>r \<in> {r0, r1, v}. consistent r \<and> length (payload r) \<le> min A max_len"
  shows "\<exists>k1 k2 t2. upload T A E cwd f i lf rd k = (Returns SAILOR_INTERNAL_ERROR, k1) \<and>
    rename_remote T A src dst k1 = (status_of_reply (parseRenameResponse v), k2) \<and>
    cl_transport k2 = Some t2 \<and> inq t2 = xs"
proof -
  let ?p = "local_path cwd lf"
  let ?n = "announced_size f ?p"
  let ?b = "uploadBegin i ?n rd (path_filename (elements (path_of lf))) (sha256File E f ?p)"
  have hdr: "header_len \<le> max_len"
    using sizes(3) by (simp add: header_len_def)
  have "length (serialize ?b) \<le> max_len"
    using sizes(1) by (simp add: codec_simps)
  then obtain t1 t2 where b: "sendPacket T t ?b = (True, t1)" "receivePacket T A t1 = (Received r0, t2)"
    "inq t2 = serialize r1 @ serialize v @ xs" "ready t2"
    using exchange_live [OF assms(1) _ replies(1), of ?b A] fits hdr sizes(4) by blast
  have blocks: "\<forall>d' \<in> set (read_blocks CHUNK_SIZE d). 32 + length d' \<le> max_len"
    using read_blocks_bound [of CHUNK_SIZE _ d] sizes(3) by (fastforce simp: CHUNK_SIZE_def)
  obtain t3 c3 where l: "upload_loop T i ?n (read_blocks CHUNK_SIZE d) 0 t2 k = (True, t3, c3)" "ready t3"
    "inq t3 = serialize r1 @ serialize v @ xs"
    using upload_loop_live [OF b(4) blocks, of i ?n 0 k] b(3) by auto
  have "length (serialize (uploadEnd i)) \<le> max_len"
    using sizes(3) by (simp add: codec_simps)
  then obtain t4 t5 where e: "sendPacket T t3 (uploadEnd i) = (True, t4)" "receivePacket T A t4 = (Received r1, t5)"
    "inq t5 = serialize v @ xs" "ready t5"
    using exchange_live [OF l(2) _ l(3), of "uploadEnd i" A] fits hdr sizes(4) by blast
  have "length (serialize (renameRequest src dst)) \<le> max_len"
    using sizes(2) by (simp add: codec_simps)
  then obtain t6 t7 where r: "sendPacket T t5 (renameRequest src dst) = (True, t6)" "receivePacket T A t6 = (Received v, t7)"
    "inq t7 = xs"
    using exchange_live [OF e(4) _ e(3), of "renameRequest src dst" A] fits hdr sizes(4) by blast
  have "upload T A E cwd f i lf rd k = (Returns SAILOR_INTERNAL_ERROR, put_transport t5 c3)"
    using assms(2-7) replies(2,3) b l e
    by (simp add: upload_def send_file_def announced_size_def [symmetric] Let_def)
  moreover have "cl_state (put_transport t5 c3) = AUTHENTICATED"
    using upload_loop_login [OF l(1)] assms(2) by (simp add: same_login_def)
  then have "rename_remote T A src dst (put_transport t5 c3) =
      (status_of_reply (parseRenameResponse v), put_transport t7 (put_transport t5 c3))"
    using r by (simp add: rename_remote_def status_request_def request_def)
  ultimately show ?thesis
    using r(3) by auto
qed

end

text \<open>C20. An ERROR that the server sends for a rejected chunk is taken by the client for the reply to
  UPLOAD_END: the upload fails, the real reply stays unread, and the next rename returns the
  verdict of that reply while its own stays unread.\<close>

theorem stale_reply:
  assumes "live_transport T inq outq ready max_len" and "ready t" and "cl_state k = AUTHENTICATED" and "cl_transport k = Some t"
    and "fs_exists f (local_path cwd lf)" and "\<not> is_directory f (local_path cwd lf)"
    and "open_read f (local_path cwd lf) = Inr d" and "sha256File E f (local_path cwd lf) \<noteq> []"
    and "34 + length rd + length (path_filename (elements (path_of lf))) +
        length (sha256File E f (local_path cwd lf)) \<le> max_len" and "16 + length src + length dst \<le> max_len"
      and "CHUNK_SIZE + 32 \<le> max_len" and "max_len < 2 ^ 64"
    and "inq t = serialize r0 @ serialize r1 @ serialize v @ xs" and "packet_kind r0 = Some SUCCESS" and "packet_kind r1 = Some ERROR"
    and "\<forall>r \<in> {r0, r1, v}. consistent r \<and> length (payload r) \<le> min A max_len"
  shows "\<exists>k1 k2 t2. upload T A E cwd f i lf rd k = (Returns SAILOR_INTERNAL_ERROR, k1) \<and>
    rename_remote T A src dst k1 = (status_of_reply (parseRenameResponse v), k2) \<and>
    cl_transport k2 = Some t2 \<and> inq t2 = xs"
  by (rule live_transport.stale_reply_read [OF assms])

lemma stale_reply_witness:
  "\<exists>k1 k2. upload sample_link (2 ^ 20) sample_evp sample_root sample_fs 1 ''a'' ''b''
      (sample_client (serialize (success []) @ serialize (error ''full'') @ serialize (renameResponse True []))) =
        (Returns SAILOR_INTERNAL_ERROR, k1) \<and>
    rename_remote sample_link (2 ^ 20) ''x'' ''y'' k1 = (Returns SAILOR_OK, k2)"
proof -
  let ?v = "renameResponse True []"
  let ?in = "serialize (success []) @ serialize (error ''full'') @ serialize ?v @ []"
  let ?p = "local_path sample_root ''a''"
  have f: "fs_exists sample_fs ?p" "\<not> is_directory sample_fs ?p" "open_read sample_fs ?p = Inr [1, 2, 3]"
    by (simp_all add: local_path_def open_read_def sample_eval)
  have h: "sha256File sample_evp sample_fs ?p = to_hex (sample_digest [1, 2, 3])"
    by (simp add: sha256File_def f sha256_content_eq [OF sample_evp_computes sample_evp_total])
  have n: "path_filename (elements (path_of ''a'')) = ''a''"
    by (simp add: path_filename_def path_of_def)
  have t: "cl_transport (sample_client ?in) = Some (?in, [])" "cl_state (sample_client ?in) = AUTHENTICATED"
    by (simp_all add: sample_client_def)
  have r: "packet_kind (success []) = Some SUCCESS" "packet_kind (error ''full'') = Some ERROR"
    "\<forall>r \<in> {success [], error ''full'', ?v}. consistent r \<and> length (payload r) \<le> min (2 ^ 20) (2 ^ 20)"
    by (simp_all add: codec_simps prefixed_def)
  have v: "parseRenameResponse ?v = Parsed (True, [])"
    using parse_status_responses by simp
  obtain k1 k2 where "upload sample_link (2 ^ 20) sample_evp sample_root sample_fs 1 ''a'' ''b'' (sample_client ?in) =
      (Returns SAILOR_INTERNAL_ERROR, k1)"
    "rename_remote sample_link (2 ^ 20) ''x'' ''y'' k1 = (status_of_reply (parseRenameResponse ?v), k2)"
    using stale_reply [where max_len = "2 ^ 20" and A = "2 ^ 20" and E = sample_evp and rd = "''b''" and src = "''x''" and
        dst = "''y''" and i = 1 and xs = "[]", OF sample_link.live_transport_axioms _ t(2,1) f _ _ _ _ _ _ r]
    by (auto simp: h n CHUNK_SIZE_def sample_digest_def hex_byte_def)
  then show ?thesis
    by (simp add: v status_of_reply_def)
qed

end
