(* ===== verification/Messages.thy ===== *)
theory Messages
  imports Packet_Builder
begin

text \<open>
  The protocol as one type of messages: the builder of every message, the parser that the type of a
  packet selects, and the round trip of both through \<open>PacketSerializer\<close>.
\<close>

section \<open>Messages\<close>

datatype message =
    Ping | Pong
  | AuthRequest string string | AuthResponse bool u64 string
  | Error string | Success string
  | ListRequest string | ListResponse "directory_entry list"
  | UploadBegin u64 u64 string string string | UploadChunk u64 u64 bytes | UploadEnd u64
  | DownloadRequest string | DownloadBegin u64 u64 string string | DownloadChunk u64 u64 bytes | DownloadEnd u64
  | DeleteRequest string | DeleteResponse bool string
  | RenameRequest string string | RenameResponse bool string
  | MkdirRequest string | MkdirResponse bool string
  | RmdirRequest string | RmdirResponse bool string

fun build_message :: "message \<Rightarrow> packet" where
  "build_message Ping = ping"
| "build_message Pong = pong"
| "build_message (AuthRequest u p) = authRequest u p"
| "build_message (AuthResponse ok sid m) = authResponse ok sid m"
| "build_message (Error m) = error m"
| "build_message (Success m) = success m"
| "build_message (ListRequest p) = listRequest p"
| "build_message (ListResponse es) = listResponse es"
| "build_message (UploadBegin i n r f h) = uploadBegin i n r f h"
| "build_message (UploadChunk i off d) = uploadChunk i off d"
| "build_message (UploadEnd i) = uploadEnd i"
| "build_message (DownloadRequest p) = downloadRequest p"
| "build_message (DownloadBegin i n f h) = downloadBegin i n f h"
| "build_message (DownloadChunk i off d) = downloadChunk i off d"
| "build_message (DownloadEnd i) = downloadEnd i"
| "build_message (DeleteRequest p) = deleteRequest p"
| "build_message (DeleteResponse ok m) = deleteResponse ok m"
| "build_message (RenameRequest p q) = renameRequest p q"
| "build_message (RenameResponse ok m) = renameResponse ok m"
| "build_message (MkdirRequest p) = mkdirRequest p"
| "build_message (MkdirResponse ok m) = mkdirResponse ok m"
| "build_message (RmdirRequest p) = rmdirRequest p"
| "build_message (RmdirResponse ok m) = rmdirResponse ok m"

text \<open>The parser that belongs to the type of a packet; a type without a builder is no message.\<close>

definition parse_message :: "nat \<Rightarrow> packet \<Rightarrow> message parse" where
  "parse_message alloc_max p =
     (case packet_kind p of
        Some PING \<Rightarrow> Parsed Ping
      | Some PONG \<Rightarrow> Parsed Pong
      | Some AUTH_REQUEST \<Rightarrow> map_parse (\<lambda>(u, w). AuthRequest u w) (parseAuthRequest p)
      | Some AUTH_RESPONSE \<Rightarrow> map_parse (\<lambda>(ok, sid, m). AuthResponse ok sid m) (parseAuthResponse p)
      | Some ERROR \<Rightarrow> map_parse Error (parseError p)
      | Some SUCCESS \<Rightarrow> map_parse Success (parseSuccess p)
      | Some LIST \<Rightarrow> map_parse ListRequest (parseListRequest p)
      | Some LIST_RESPONSE \<Rightarrow> map_parse ListResponse (parseListResponse alloc_max p)
      | Some UPLOAD_BEGIN \<Rightarrow> map_parse (\<lambda>(i, n, r, f, h). UploadBegin i n r f h) (parseUploadBegin p)
      | Some UPLOAD_CHUNK \<Rightarrow> map_parse (\<lambda>(i, off, d). UploadChunk i off d) (parseUploadChunk p)
      | Some UPLOAD_END \<Rightarrow> map_parse UploadEnd (parseUploadEnd p)
      | Some DOWNLOAD_REQUEST \<Rightarrow> map_parse DownloadRequest (parseDownloadRequest p)
      | Some DOWNLOAD_BEGIN \<Rightarrow> map_parse (\<lambda>(i, n, f, h). DownloadBegin i n f h) (parseDownloadBegin p)
      | Some DOWNLOAD_CHUNK \<Rightarrow> map_parse (\<lambda>(i, off, d). DownloadChunk i off d) (parseDownloadChunk p)
      | Some DOWNLOAD_END \<Rightarrow> map_parse DownloadEnd (parseDownloadEnd p)
      | Some DELETE_REQUEST \<Rightarrow> map_parse DeleteRequest (parseDeleteRequest p)
      | Some DELETE_RESPONSE \<Rightarrow> map_parse (\<lambda>(ok, m). DeleteResponse ok m) (parseDeleteResponse p)
      | Some RENAME_REQUEST \<Rightarrow> map_parse (\<lambda>(s, d). RenameRequest s d) (parseRenameRequest p)
      | Some RENAME_RESPONSE \<Rightarrow> map_parse (\<lambda>(ok, m). RenameResponse ok m) (parseRenameResponse p)
      | Some MKDIR_REQUEST \<Rightarrow> map_parse MkdirRequest (parseMkdirRequest p)
      | Some MKDIR_RESPONSE \<Rightarrow> map_parse (\<lambda>(ok, m). MkdirResponse ok m) (parseMkdirResponse p)
      | Some RMDIR_REQUEST \<Rightarrow> map_parse RmdirRequest (parseRmdirRequest p)
      | Some RMDIR_RESPONSE \<Rightarrow> map_parse (\<lambda>(ok, m). RmdirResponse ok m) (parseRmdirResponse p)
      | _ \<Rightarrow> Rejected)"

text \<open>The size limits of the format: 16-bit string lengths, 32-bit chunk lengths and entry counts.\<close>

fun message_fits :: "nat \<Rightarrow> message \<Rightarrow> bool" where
  "message_fits A (AuthRequest u p) = (short u \<and> short p)"
| "message_fits A (AuthResponse ok sid m) = short m"
| "message_fits A (Error m) = short m"
| "message_fits A (Success m) = short m"
| "message_fits A (ListRequest p) = short p"
| "message_fits A (ListResponse es) = listing_fits A es"
| "message_fits A (UploadBegin i n r f h) = (short r \<and> short f \<and> short h)"
| "message_fits A (UploadChunk i off d) = (length d < 2 ^ 32)"
| "message_fits A (DownloadRequest p) = short p"
| "message_fits A (DownloadBegin i n f h) = (short f \<and> short h)"
| "message_fits A (DownloadChunk i off d) = (length d < 2 ^ 32)"
| "message_fits A (DeleteRequest p) = short p"
| "message_fits A (DeleteResponse ok m) = short m"
| "message_fits A (RenameRequest p q) = (short p \<and> short q)"
| "message_fits A (RenameResponse ok m) = short m"
| "message_fits A (MkdirRequest p) = short p"
| "message_fits A (MkdirResponse ok m) = short m"
| "message_fits A (RmdirRequest p) = short p"
| "message_fits A (RmdirResponse ok m) = short m"
| "message_fits A m = True"

lemmas message_parsers =
  auth_request.parse_build [of "(u, p)" for u p, simplified] auth_response.parse_build [of "(ok, sid, m)" for ok sid m, simplified]
  error_message.parse_build success_message.parse_build list_request.parse_build list_response.parse_build
  upload_begin.parse_build [of "(i, n, r, f, h)" for i n r f h, simplified]
  upload_chunk.parse_build [of "(i, off, d)" for i off d, simplified] upload_end.parse_build
  download_request.parse_build download_begin.parse_build [of "(i, n, f, h)" for i n f h, simplified]
  download_chunk.parse_build [of "(i, off, d)" for i off d, simplified] download_end.parse_build
  delete_request.parse_build delete_response.parse_build [of "(ok, m)" for ok m, simplified]
  rename_request.parse_build [of "(p, q)" for p q, simplified] rename_response.parse_build [of "(ok, m)" for ok m, simplified]
  mkdir_request.parse_build mkdir_response.parse_build [of "(ok, m)" for ok m, simplified]
  rmdir_request.parse_build rmdir_response.parse_build [of "(ok, m)" for ok m, simplified]

lemmas message_kinds =
  auth_request.build_kind [of "(u, p)" for u p, simplified] auth_response.build_kind [of "(ok, sid, m)" for ok sid m, simplified]
  error_message.build_kind success_message.build_kind list_request.build_kind list_response.build_kind
  upload_begin.build_kind [of "(i, n, r, f, h)" for i n r f h, simplified]
  upload_chunk.build_kind [of "(i, off, d)" for i off d, simplified] upload_end.build_kind
  download_request.build_kind download_begin.build_kind [of "(i, n, f, h)" for i n f h, simplified]
  download_chunk.build_kind [of "(i, off, d)" for i off d, simplified] download_end.build_kind
  delete_request.build_kind delete_response.build_kind [of "(ok, m)" for ok m, simplified]
  rename_request.build_kind [of "(p, q)" for p q, simplified] rename_response.build_kind [of "(ok, m)" for ok m, simplified]
  mkdir_request.build_kind mkdir_response.build_kind [of "(ok, m)" for ok m, simplified]
  rmdir_request.build_kind rmdir_response.build_kind [of "(ok, m)" for ok m, simplified]

lemma build_message_consistent: "consistent (build_message m)"
  by (cases m) (simp_all add: ping_def pong_def listResponse_def codec_simps)

lemma parse_message_build: "message_fits A m \<Longrightarrow> parse_message A (build_message m) = Parsed m"
  by (cases m) (simp_all add: parse_message_def message_kinds message_parsers, simp_all add: ping_def pong_def)

text \<open>C16. Every message of the protocol within the limits of its length fields survives builder,
  serializer, deserializer and the parser that its type selects, whatever bytes follow it.\<close>

theorem messages_over_wire:
  assumes "message_fits alloc_max m" and "length (payload (build_message m)) + length xs < 2 ^ 64 - 12"
  shows "\<exists>p. deserialize (serialize (build_message m) @ xs) = Parsed p \<and> parse_message alloc_max p = Parsed m"
  using deserialize_serialize [OF build_message_consistent assms(2)] parse_message_build [OF assms(1)] by blast

lemma messages_over_wire_witness:
  "\<exists>p. deserialize (serialize (build_message (UploadBegin 7 3 ''docs'' ''a.txt'' ''ab'')) @ [1]) = Parsed p \<and>
    parse_message 0 p = Parsed (UploadBegin 7 3 ''docs'' ''a.txt'' ''ab'')"
  using messages_over_wire [of 0 "UploadBegin 7 3 ''docs'' ''a.txt'' ''ab''" "[1]"]
  by (simp add: uploadBegin_def layout_concat)

end
