(* ===== verification/Upload_Ownership.thy ===== *)
theory Upload_Ownership
  imports Upload_Service "HOL-Library.Multiset"
begin

text \<open>
  The resources of the upload sessions: the destructor and the move operations of \<open>UploadSession\<close>
  (\<open>filesystem/upload_service.cpp\<close>), and where the service runs them.
\<close>

section \<open>The resources of an UploadSession\<close>

text \<open>An open file stream, a digest context that came from \<open>EVP_MD_CTX_new\<close>, and the flag.\<close>

record handles =
  h_stream :: bool
  h_md_ctx :: "nat option"
  h_active :: bool

text \<open>The digest contexts that OpenSSL has handed out and that have not been freed.\<close>

record contexts =
  live :: "nat list"
  next_context :: nat

definition new_handles :: handles where
  "new_handles = \<lparr>h_stream = False, h_md_ctx = None, h_active = False\<rparr>"

definition md_ctx_new :: "contexts \<Rightarrow> nat \<times> contexts" where
  "md_ctx_new w = (next_context w, w\<lparr>live := next_context w # live w, next_context := Suc (next_context w)\<rparr>)"

text \<open>\<open>EVP_MD_CTX_free\<close>: freeing a context that is not live is undefined behaviour (\<open>None\<close>).\<close>

definition md_ctx_free :: "nat \<Rightarrow> contexts \<Rightarrow> contexts option" where
  "md_ctx_free a w = (if a \<in> set (live w) then Some (w\<lparr>live := remove1 a (live w)\<rparr>) else None)"

text \<open>The destructor.\<close>

definition destroy :: "handles \<Rightarrow> contexts \<Rightarrow> contexts option" where
  "destroy s w = (case h_md_ctx s of None \<Rightarrow> Some w | Some a \<Rightarrow> md_ctx_free a w)"

text \<open>The move constructor: the new object and what is left of the old one.\<close>

definition move_construct :: "handles \<Rightarrow> handles \<times> handles" where
  "move_construct other = (other, other\<lparr>h_stream := False, h_md_ctx := None, h_active := False\<rparr>)"

text \<open>Move assignment; \<open>same\<close> says that both sides are one object.\<close>

definition move_assign :: "bool \<Rightarrow> handles \<Rightarrow> handles \<Rightarrow> contexts \<Rightarrow> (handles \<times> handles \<times> contexts) option" where
  "move_assign same this other w =
     (if same then Some (this, other, w)
      else case destroy this w of
        None \<Rightarrow> None
      | Some w \<Rightarrow> (case move_construct other of (this, other) \<Rightarrow> Some (this, other, w)))"

section \<open>The table of sessions\<close>

type_synonym session_table = "(u64 \<times> handles) list"

definition erase :: "u64 \<Rightarrow> session_table \<Rightarrow> contexts \<Rightarrow> (session_table \<times> contexts) option" where
  "erase i tab w =
     (case map_of tab i of
        None \<Rightarrow> Some (tab, w)
      | Some s \<Rightarrow>
          (case destroy s w of None \<Rightarrow> None | Some w \<Rightarrow> Some (filter (\<lambda>(j, s). j \<noteq> i) tab, w)))"

text \<open>\<open>beginUpload\<close> for an identifier without a session; the flags are the results of the checks of
  name and path, of opening the file, of \<open>EVP_MD_CTX_new\<close> and of \<open>EVP_DigestInit_ex\<close>.  A failure destroys the
  local object; success default-constructs the entry of the table and moves the local object into it.\<close>

definition begin_session ::
  "u64 \<Rightarrow> bool \<Rightarrow> bool \<Rightarrow> bool \<Rightarrow> bool \<Rightarrow> session_table \<Rightarrow> contexts \<Rightarrow> (bool \<times> session_table \<times> contexts) option" where
  "begin_session i valid opened allocated initialised tab w =
     (if map_of tab i \<noteq> None \<or> \<not> valid then Some (False, tab, w)
      else
        (let session = new_handles\<lparr>h_stream := opened\<rparr> in
         if \<not> opened then map_option (\<lambda>w. (False, tab, w)) (destroy session w)
         else
           (case (if allocated then map_prod Some id (md_ctx_new w) else (None, w)) of (md_ctx, w) \<Rightarrow>
              (let session = session\<lparr>h_md_ctx := md_ctx\<rparr> in
               if md_ctx = None \<or> \<not> initialised then map_option (\<lambda>w. (False, tab, w)) (destroy session w)
               else
                 (case move_assign False new_handles (session\<lparr>h_active := True\<rparr>) w of
                    None \<Rightarrow> None
                  | Some (entry, session, w) \<Rightarrow>
                      map_option (\<lambda>w. (True, (i, entry) # tab, w)) (destroy session w))))))"

text \<open>\<open>finishUpload\<close> erases the session on every path that finds an active one.\<close>

definition finish_session :: "u64 \<Rightarrow> session_table \<Rightarrow> contexts \<Rightarrow> (session_table \<times> contexts) option" where
  "finish_session i tab w =
     (case map_of tab i of
        None \<Rightarrow> Some (tab, w)
      | Some s \<Rightarrow> if \<not> h_active s then Some (tab, w) else erase i tab w)"

text \<open>The destructor of the service destroys every session of the table.\<close>

fun destroy_all :: "session_table \<Rightarrow> contexts \<Rightarrow> contexts option" where
  "destroy_all [] w = Some w"
| "destroy_all ((i, s) # tab) w = (case destroy s w of None \<Rightarrow> None | Some w \<Rightarrow> destroy_all tab w)"

section \<open>Every context has one owner\<close>

datatype service_call = Begin u64 bool bool bool bool | Finish u64 | Abort u64

fun service_step :: "service_call \<Rightarrow> session_table \<times> contexts \<Rightarrow> (session_table \<times> contexts) option" where
  "service_step (Begin i v op al ini) (tab, w) = map_option snd (begin_session i v op al ini tab w)"
| "service_step (Finish i) (tab, w) = finish_session i tab w"
| "service_step (Abort i) (tab, w) = erase i tab w"

fun service_run :: "service_call list \<Rightarrow> session_table \<times> contexts \<Rightarrow> (session_table \<times> contexts) option" where
  "service_run [] st = Some st"
| "service_run (c # cs) st = (case service_step c st of None \<Rightarrow> None | Some st \<Rightarrow> service_run cs st)"

definition owned :: "session_table \<Rightarrow> nat list" where
  "owned tab = concat (map (\<lambda>(i, s). case h_md_ctx s of None \<Rightarrow> [] | Some a \<Rightarrow> [a]) tab)"

definition owners_ok :: "session_table \<times> contexts \<Rightarrow> bool" where
  "owners_ok = (\<lambda>(tab, w).
     distinct (map fst tab) \<and> mset (owned tab) = mset (live w) \<and> distinct (live w) \<and>
     (\<forall>a \<in> set (live w). a < next_context w) \<and> (\<forall>(i, s) \<in> set tab. h_active s \<and> h_stream s \<and> h_md_ctx s \<noteq> None))"

lemma owned_simps [simp]:
  "owned [] = []"
  "owned ((i, s) # tab) = (case h_md_ctx s of None \<Rightarrow> [] | Some a \<Rightarrow> [a]) @ owned tab"
  by (simp_all add: owned_def)

lemma filter_absent: "i \<notin> fst ` set tab \<Longrightarrow> filter (\<lambda>(j, s). j \<noteq> i) tab = tab"
  by (rule filter_True) force

lemma owned_erase:
  "distinct (map fst tab) \<Longrightarrow> map_of tab i = Some s \<Longrightarrow>
    mset (owned tab) = mset (case h_md_ctx s of None \<Rightarrow> [] | Some a \<Rightarrow> [a]) + mset (owned (filter (\<lambda>(j, s). j \<noteq> i) tab))"
proof (induction tab)
  case (Cons e tab)
  obtain j t where e: "e = (j, t)" by fastforce
  show ?case
  proof (cases "j = i")
    case True
    with Cons.prems e have "t = s" "i \<notin> fst ` set tab" by auto
    with e True show ?thesis by (simp add: filter_absent)
  next
    case False
    with Cons e show ?thesis by simp
  qed
qed simp

lemma erase_ok:
  assumes "owners_ok (tab, w)"
  shows "\<exists>tab' w'. erase i tab w = Some (tab', w') \<and> owners_ok (tab', w')"
proof (cases "map_of tab i")
  case None
  with assms show ?thesis by (simp add: erase_def)
next
  case (Some s)
  then have s: "(i, s) \<in> set tab"
    by (rule map_of_SomeD)
  then obtain a where a: "h_md_ctx s = Some a"
    using assms by (fastforce simp: owners_ok_def)
  let ?tab = "filter (\<lambda>(j, s). j \<noteq> i) tab"
  have m: "mset (live w) = add_mset a (mset (owned ?tab))"
    using assms owned_erase [OF _ Some] a by (simp add: owners_ok_def)
  then have "a \<in> set (live w)"
    by (metis set_mset_mset union_single_eq_member)
  moreover have "mset (owned ?tab) = mset (remove1 a (live w))"
    using m by simp
  moreover have "distinct (map fst ?tab)"
    using assms by (simp add: owners_ok_def distinct_map_filter)
  ultimately show ?thesis
    using assms Some a by (auto simp: erase_def destroy_def md_ctx_free_def owners_ok_def dest: in_set_remove1)
qed

lemma begin_session_ok:
  assumes "owners_ok (tab, w)"
  shows "\<exists>ok tab' w'. begin_session i v op al ini tab w = Some (ok, tab', w') \<and> owners_ok (tab', w')"
proof -
  have fresh: "next_context w \<notin> set (live w)"
    using assms by (auto simp: owners_ok_def)
  have absent: "map_of tab i = None \<Longrightarrow> i \<notin> fst ` set tab"
    by (simp add: map_of_eq_None_iff)
  show ?thesis
    using assms fresh absent
    by (auto simp: begin_session_def Let_def destroy_def md_ctx_new_def md_ctx_free_def new_handles_def
        move_assign_def move_construct_def owners_ok_def less_Suc_eq split: prod.splits)
qed

lemma service_step_ok:
  assumes "owners_ok st"
  shows "\<exists>st'. service_step c st = Some st' \<and> owners_ok st'"
proof -
  obtain tab w where st: "st = (tab, w)" by fastforce
  show ?thesis
  proof (cases c)
    case (Begin i v op al ini)
    with begin_session_ok [of tab w i v op al ini] assms st show ?thesis by auto
  next
    case (Finish i)
    with erase_ok [of tab w i] assms st show ?thesis
      by (auto simp: finish_session_def split: option.splits)
  next
    case (Abort i)
    with erase_ok [of tab w i] assms st show ?thesis by auto
  qed
qed

lemma destroy_all_ok:
  "owners_ok (tab, w) \<Longrightarrow> \<exists>w'. destroy_all tab w = Some w' \<and> live w' = []"
proof (induction tab arbitrary: w)
  case Nil
  then show ?case by (simp add: owners_ok_def)
next
  case (Cons e tab)
  obtain i s where e: "e = (i, s)" by fastforce
  with Cons.prems obtain a where a: "h_md_ctx s = Some a"
    by (auto simp: owners_ok_def)
  have m: "mset (live w) = add_mset a (mset (owned tab))"
    using Cons.prems e a by (simp add: owners_ok_def)
  then have in_w: "a \<in> set (live w)"
    by (metis set_mset_mset union_single_eq_member)
  have "owners_ok (tab, w\<lparr>live := remove1 a (live w)\<rparr>)"
    using Cons.prems e m by (auto simp: owners_ok_def dest: in_set_remove1)
  with Cons.IH e a in_w show ?case
    by (auto simp: destroy_def md_ctx_free_def)
qed

lemma service_run_ok: "owners_ok st \<Longrightarrow> \<exists>st'. service_run cs st = Some st' \<and> owners_ok st'"
proof (induction cs arbitrary: st)
  case (Cons c cs)
  then show ?case
    using service_step_ok [of st c] by fastforce
qed simp

text \<open>C17. Ownership of the digest contexts. Over every sequence of beginUpload, finishUpload and
  abortUpload with any outcome, the moves and destructors of UploadSession never free a context
  twice, the live contexts are exactly those of the sessions in the table, and destroying the
  service frees them all.\<close>

theorem contexts_freed_once:
  "\<exists>tab w. service_run cs ([], \<lparr>live = [], next_context = n\<rparr>) = Some (tab, w) \<and>
    mset (live w) = mset (owned tab) \<and> distinct (live w) \<and>
    (\<exists>w'. destroy_all tab w = Some w' \<and> live w' = [])"
proof -
  have "owners_ok ([], \<lparr>live = [], next_context = n\<rparr>)"
    by (simp add: owners_ok_def)
  then obtain tab w where r: "service_run cs ([], \<lparr>live = [], next_context = n\<rparr>) = Some (tab, w)" "owners_ok (tab, w)"
    using service_run_ok by (metis surj_pair)
  with destroy_all_ok [OF r(2)] show ?thesis
    by (auto simp: owners_ok_def)
qed

text \<open>The table has an entry for exactly the sessions of the functional model.\<close>

lemma begin_session_refines:
  assumes "beginUpload E rt ss f i rd nm sz h = (r, ss', f')" and "dom ss = fst ` set tab" and "owners_ok (tab, w)"
  shows "\<exists>v op al ini tab' w'. begin_session i v op al ini tab w = Some (r = UploadOk, tab', w') \<and> dom ss' = fst ` set tab'"
proof (cases "r = UploadOk")
  case True
  then have "ss i = None" "dom ss' = insert i (dom ss)"
    using assms(1) by (auto simp: beginUpload_def Let_def split: if_splits sum.splits prod.splits option.splits)
  moreover from this have "map_of tab i = None"
    using assms(2) by (metis domIff map_of_eq_None_iff)
  ultimately show ?thesis
    using True assms(2)
    by (intro exI [of _ True]) (auto simp: begin_session_def Let_def destroy_def md_ctx_new_def new_handles_def
        move_assign_def move_construct_def)
next
  case False
  then have "dom ss' = dom ss"
    using assms(1) by (auto simp: beginUpload_def Let_def split: if_splits sum.splits prod.splits option.splits)
  with False assms(2) show ?thesis
    by (intro exI [of _ False]) (auto simp: begin_session_def)
qed

lemma keys_erase: "fst ` set (filter (\<lambda>(j, s). j \<noteq> i) tab) = fst ` set tab - {i}"
  by (induction tab) auto

lemma erase_refines:
  assumes "dom ss = fst ` set tab" and "erase i tab w = Some (tab', w')"
  shows "dom (fst (abortUpload ss f i)) = fst ` set tab'"
proof (cases "map_of tab i")
  case None
  then have "ss i = None" "tab' = tab"
    using assms None by (auto simp: map_of_eq_None_iff, simp add: erase_def)
  with assms show ?thesis by (simp add: abortUpload_def)
next
  case (Some s)
  then have "i \<in> fst ` set tab" "tab' = filter (\<lambda>(j, s). j \<noteq> i) tab"
    using assms(2) by (force simp: erase_def split: option.splits dest: map_of_SomeD)+
  with assms(1) obtain u where "ss i = Some u" by blast
  with assms(1) \<open>tab' = _\<close> show ?thesis
    using keys_erase [of i tab] by (simp add: abortUpload_def Let_def del: set_filter)
qed

end
