(* ===== verification/Ffi.thy ===== *)
theory Ffi
  imports Client
begin

text \<open>
  \<open>sdk/src/sailor_ffi.cpp\<close> and \<open>sdk/include/sailor.h\<close>: the C interface over one global client
  object.  A null pointer is \<open>None\<close>.  A listing is handed out in \<open>malloc\<close>ed blocks; the heap is a
  map from addresses to blocks, \<open>grants n\<close> says whether the n-th allocation succeeds, and reading or
  freeing an address that is not allocated is undefined behaviour (\<open>None\<close> of \<open>sailor_free_list\<close>).
\<close>

section \<open>The C heap\<close>

type_synonym addr = nat

record sailor_entry =
  se_name :: "addr option"
  se_is_directory :: byte
  se_size :: u64
  se_modified_time :: u64

text \<open>\<open>ListBlock\<close> is a \<open>SailorListResult\<close>, \<open>Entries\<close> an array of \<open>SailorEntry\<close>, \<open>Str\<close> a C string.\<close>

datatype block = ListBlock "addr option" u64 | Entries "sailor_entry list" | Str string

record heap =
  blocks :: "addr \<Rightarrow> block option"
  next_addr :: addr
  mallocs :: nat

definition malloc :: "(nat \<Rightarrow> bool) \<Rightarrow> block \<Rightarrow> heap \<Rightarrow> addr option \<times> heap" where
  "malloc grants b h =
     (if grants (mallocs h)
      then (Some (next_addr h),
            h\<lparr>blocks := (blocks h)(next_addr h \<mapsto> b), next_addr := Suc (next_addr h),
              mallocs := Suc (mallocs h)\<rparr>)
      else (None, h\<lparr>mallocs := Suc (mallocs h)\<rparr>))"

definition free_block :: "addr \<Rightarrow> heap \<Rightarrow> heap option" where
  "free_block a h =
     (case blocks h a of None \<Rightarrow> None | Some b \<Rightarrow> Some (h\<lparr>blocks := (blocks h)(a := None)\<rparr>))"

definition store_block :: "addr \<Rightarrow> block \<Rightarrow> heap \<Rightarrow> heap" where
  "store_block a b h = h\<lparr>blocks := (blocks h)(a \<mapsto> b)\<rparr>"

section \<open>The global client\<close>

record 't ffi =
  g_client :: "'t client option"
  g_progress_cb :: bool
  g_log_cb :: bool
  c_heap :: heap

definition new_ffi :: "'t ffi" where
  "new_ffi = \<lparr>g_client = None, g_progress_cb = False, g_log_cb = False,
     c_heap = \<lparr>blocks = Map.empty, next_addr = 1, mallocs = 0\<rparr>\<rparr>"

text \<open>The function object installed for logging looks at \<open>g_log_cb\<close> when it is called; \<open>cl_log_cb\<close>
  says whether a message reaches a callback.\<close>

definition getClient :: "'t ffi \<Rightarrow> 't client \<times> 't ffi" where
  "getClient g =
     (case g_client g of
        Some c \<Rightarrow> (c, g)
      | None \<Rightarrow>
          (let c = new_client;
               c = (if g_progress_cb g then setProgressCallback True c else c);
               c = (if g_log_cb g then setLogCallback True c else c)
           in (c, g\<lparr>g_client := Some c\<rparr>)))"

definition sailor_set_progress_callback :: "bool \<Rightarrow> 't ffi \<Rightarrow> 't ffi" where
  "sailor_set_progress_callback callback g =
     g\<lparr>g_progress_cb := callback, g_client := map_option (setProgressCallback callback) (g_client g)\<rparr>"

definition sailor_set_log_callback :: "bool \<Rightarrow> 't ffi \<Rightarrow> 't ffi" where
  "sailor_set_log_callback callback g =
     g\<lparr>g_log_cb := callback, g_client := map_option (setLogCallback callback) (g_client g)\<rparr>"

section \<open>Status codes\<close>

fun status_code :: "sailor_status \<Rightarrow> int" where
  "status_code SAILOR_OK = 0"
| "status_code SAILOR_CONNECTION_FAILED = -1"
| "status_code SAILOR_AUTH_FAILED = -2"
| "status_code SAILOR_FILE_NOT_FOUND = -3"
| "status_code SAILOR_PERMISSION_DENIED = -4"
| "status_code SAILOR_INVALID_PATH = -5"
| "status_code SAILOR_INTERNAL_ERROR = -6"
| "status_code SAILOR_NOT_CONNECTED = -7"
| "status_code SAILOR_OPERATION_FAILED = -8"

fun map_call :: "('a \<Rightarrow> 'b) \<Rightarrow> 'a call \<Rightarrow> 'b call" where
  "map_call f (Returns x) = Returns (f x)"
| "map_call f Raised = Raised"
| "map_call f Blocked = Blocked"
| "map_call f UB = UB"
| "map_call f Unfinished = Unfinished"

text \<open>Run an operation of the client object and store the object back.\<close>

definition on_client :: "('t client \<Rightarrow> sailor_status call \<times> 't client) \<Rightarrow> 't ffi \<Rightarrow> int call \<times> 't ffi" where
  "on_client op g =
     (case getClient g of (c, g) \<Rightarrow>
        (case op c of (r, c) \<Rightarrow> (map_call status_code r, g\<lparr>g_client := Some c\<rparr>)))"

definition sailor_connect ::
  "'t transport \<Rightarrow> nat \<Rightarrow> (string \<Rightarrow> 16 word \<Rightarrow> 't network) \<Rightarrow> string option \<Rightarrow> 16 word \<Rightarrow> string option \<Rightarrow>
   string option \<Rightarrow> 't ffi \<Rightarrow> int call \<times> 't ffi" where
  "sailor_connect T alloc_max net host port username password g =
     (case (host, username, password) of
        (Some h, Some u, Some p) \<Rightarrow> on_client (connect T alloc_max (net h port) u p) g
      | _ \<Rightarrow> (Returns (status_code SAILOR_INVALID_PATH), g))"

definition sailor_disconnect :: "'t ffi \<Rightarrow> int \<times> 't ffi" where
  "sailor_disconnect g =
     (case g_client g of
        None \<Rightarrow> (status_code SAILOR_OK, g)
      | Some c \<Rightarrow> (case disconnect c of (r, c) \<Rightarrow> (status_code r, g\<lparr>g_client := Some c\<rparr>)))"

definition sailor_is_connected :: "'t ffi \<Rightarrow> int" where
  "sailor_is_connected g =
     (case g_client g of None \<Rightarrow> 0 | Some c \<Rightarrow> if isConnected c then 1 else 0)"

definition sailor_mkdir :: "'t transport \<Rightarrow> nat \<Rightarrow> string option \<Rightarrow> 't ffi \<Rightarrow> int call \<times> 't ffi" where
  "sailor_mkdir T alloc_max path g =
     (case path of
        None \<Rightarrow> (Returns (status_code SAILOR_INVALID_PATH), g)
      | Some p \<Rightarrow> on_client (mkdir_remote T alloc_max p) g)"

definition sailor_rmdir :: "'t transport \<Rightarrow> nat \<Rightarrow> string option \<Rightarrow> 't ffi \<Rightarrow> int call \<times> 't ffi" where
  "sailor_rmdir T alloc_max path g =
     (case path of
        None \<Rightarrow> (Returns (status_code SAILOR_INVALID_PATH), g)
      | Some p \<Rightarrow> on_client (rmdir_remote T alloc_max p) g)"

definition sailor_delete :: "'t transport \<Rightarrow> nat \<Rightarrow> string option \<Rightarrow> 't ffi \<Rightarrow> int call \<times> 't ffi" where
  "sailor_delete T alloc_max remote_path g =
     (case remote_path of
        None \<Rightarrow> (Returns (status_code SAILOR_INVALID_PATH), g)
      | Some p \<Rightarrow> on_client (delete_remote T alloc_max p) g)"

definition sailor_rename ::
  "'t transport \<Rightarrow> nat \<Rightarrow> string option \<Rightarrow> string option \<Rightarrow> 't ffi \<Rightarrow> int call \<times> 't ffi" where
  "sailor_rename T alloc_max source destination g =
     (case (source, destination) of
        (Some s, Some d) \<Rightarrow> on_client (rename_remote T alloc_max s d) g
      | _ \<Rightarrow> (Returns (status_code SAILOR_INVALID_PATH), g))"

definition sailor_upload ::
  "'t transport \<Rightarrow> nat \<Rightarrow> 'c evp \<Rightarrow> apath \<Rightarrow> fs \<Rightarrow> u64 \<Rightarrow> string option \<Rightarrow> string option \<Rightarrow> 't ffi \<Rightarrow>
   int call \<times> 't ffi" where
  "sailor_upload T alloc_max E cwd f upload_id local_file remote_dir g =
     (case (local_file, remote_dir) of
        (Some l, Some r) \<Rightarrow> on_client (upload T alloc_max E cwd f upload_id l r) g
      | _ \<Rightarrow> (Returns (status_code SAILOR_INVALID_PATH), g))"

definition sailor_download ::
  "nat \<Rightarrow> 't transport \<Rightarrow> nat \<Rightarrow> 'c evp \<Rightarrow> apath \<Rightarrow> fs \<Rightarrow> string option \<Rightarrow> string option \<Rightarrow> 't ffi \<Rightarrow>
   int call \<times> fs \<times> 't ffi" where
  "sailor_download fuel T alloc_max E cwd f remote_path local_dest g =
     (case (remote_path, local_dest) of
        (Some r, Some l) \<Rightarrow>
          (case getClient g of (c, g) \<Rightarrow>
             (case download fuel T alloc_max E cwd f r l c of (st, f, c) \<Rightarrow>
                (map_call status_code st, f, g\<lparr>g_client := Some c\<rparr>)))
      | _ \<Rightarrow> (Returns (status_code SAILOR_INVALID_PATH), f, g))"

section \<open>Listings\<close>

text \<open>The loop that fills the array; a failed \<open>strdup\<close> leaves a null name.\<close>

fun dup_entries :: "(nat \<Rightarrow> bool) \<Rightarrow> directory_entry list \<Rightarrow> heap \<Rightarrow> sailor_entry list \<times> heap" where
  "dup_entries grants [] h = ([], h)"
| "dup_entries grants (e # es) h =
     (case malloc grants (Str (c_string (entry_name e))) h of (nm, h) \<Rightarrow>
        (case dup_entries grants es h of (rest, h) \<Rightarrow>
           (\<lparr>se_name = nm, se_is_directory = (if entry_is_directory e then 1 else 0),
             se_size = entry_size e, se_modified_time = entry_mtime e\<rparr> # rest, h)))"

definition make_list :: "(nat \<Rightarrow> bool) \<Rightarrow> directory_entry list \<Rightarrow> heap \<Rightarrow> addr option \<times> heap" where
  "make_list grants entries h =
     (case malloc grants (ListBlock None (size64 (length entries))) h of
        (None, h) \<Rightarrow> (None, h)
      | (Some result, h) \<Rightarrow>
          if entries = [] then (Some result, h)
          else
            (case malloc grants (Entries []) h of
               (None, h) \<Rightarrow> (None, h\<lparr>blocks := (blocks h)(result := None)\<rparr>)
             | (Some array, h) \<Rightarrow>
                 (case dup_entries grants entries h of (es, h) \<Rightarrow>
                    (Some result,
                     store_block result (ListBlock (Some array) (size64 (length entries)))
                       (store_block array (Entries es) h)))))"

definition sailor_list ::
  "(nat \<Rightarrow> bool) \<Rightarrow> 't transport \<Rightarrow> nat \<Rightarrow> string option \<Rightarrow> 't ffi \<Rightarrow> addr option call \<times> 't ffi" where
  "sailor_list grants T alloc_max path g =
     (case path of
        None \<Rightarrow> (Returns None, g)
      | Some p \<Rightarrow>
          (case getClient g of (c, g) \<Rightarrow>
             (case list_remote T alloc_max p c of
                (Returns (st, entries), c) \<Rightarrow>
                  (let g = g\<lparr>g_client := Some c\<rparr> in
                   if st \<noteq> SAILOR_OK then (Returns None, g)
                   else (case make_list grants entries (c_heap g) of (r, h) \<Rightarrow>
                           (Returns r, g\<lparr>c_heap := h\<rparr>)))
              | (r, c) \<Rightarrow> (map_call (\<lambda>_. None) r, g\<lparr>g_client := Some c\<rparr>))))"

fun free_names :: "sailor_entry list \<Rightarrow> heap \<Rightarrow> heap option" where
  "free_names [] h = Some h"
| "free_names (e # es) h =
     (case se_name e of
        None \<Rightarrow> free_names es h
      | Some a \<Rightarrow> (case free_block a h of None \<Rightarrow> None | Some h \<Rightarrow> free_names es h))"

definition sailor_free_list :: "addr option \<Rightarrow> heap \<Rightarrow> heap option" where
  "sailor_free_list result h =
     (case result of
        None \<Rightarrow> Some h
      | Some r \<Rightarrow>
          (case blocks h r of
             Some (ListBlock None count) \<Rightarrow> free_block r h
           | Some (ListBlock (Some array) count) \<Rightarrow>
               (case blocks h array of
                  Some (Entries es) \<Rightarrow>
                    if length es < unat count then None
                    else (case free_names (take (unat count) es) h of
                            None \<Rightarrow> None
                          | Some h \<Rightarrow>
                              (case free_block array h of None \<Rightarrow> None | Some h \<Rightarrow> free_block r h))
                | _ \<Rightarrow> None)
           | _ \<Rightarrow> None))"

section \<open>A listing is released completely\<close>

text \<open>What a caller reads through a result pointer.\<close>

definition read_entry :: "heap \<Rightarrow> sailor_entry \<Rightarrow> (string option \<times> byte \<times> u64 \<times> u64)" where
  "read_entry h e =
     (case se_name e of
        None \<Rightarrow> None
      | Some a \<Rightarrow> (case blocks h a of Some (Str s) \<Rightarrow> Some s | _ \<Rightarrow> None),
      se_is_directory e, se_size e, se_modified_time e)"

definition read_list :: "heap \<Rightarrow> addr \<Rightarrow> (string option \<times> byte \<times> u64 \<times> u64) list option" where
  "read_list h r =
     (case blocks h r of
        Some (ListBlock None count) \<Rightarrow> Some []
      | Some (ListBlock (Some array) count) \<Rightarrow>
          (case blocks h array of
             Some (Entries es) \<Rightarrow> Some (map (read_entry h) (take (unat count) es))
           | _ \<Rightarrow> None)
      | _ \<Rightarrow> None)"

definition shown_entry :: "directory_entry \<Rightarrow> (string option \<times> byte \<times> u64 \<times> u64)" where
  "shown_entry e =
     (Some (c_string (entry_name e)), if entry_is_directory e then 1 else 0, entry_size e, entry_mtime e)"

definition wf_heap :: "heap \<Rightarrow> bool" where
  "wf_heap h \<longleftrightarrow> (\<forall>a \<ge> next_addr h. blocks h a = None)"

lemma dup_entries_heap:
  assumes "dup_entries grants es h = (xs, h')" and "wf_heap h"
  shows "wf_heap h' \<and> next_addr h \<le> next_addr h' \<and> length xs = length es \<and>
    (\<forall>a < next_addr h. blocks h' a = blocks h a) \<and>
    (\<forall>g. (\<forall>a \<ge> next_addr h. blocks g a = blocks h' a) \<longrightarrow>
       (\<exists>g'. free_names xs g = Some g' \<and> next_addr g' = next_addr g \<and>
          (\<forall>a < next_addr h. blocks g' a = blocks g a) \<and> (\<forall>a \<ge> next_addr h. blocks g' a = None)))"
  using assms
proof (induction grants es h arbitrary: xs h' rule: dup_entries.induct)
  case (1 grants h)
  then show ?case by (auto simp: wf_heap_def)
next
  case (2 grants e es h)
  obtain nm h1 where m: "malloc grants (Str (c_string (entry_name e))) h = (nm, h1)"
    by fastforce
  obtain rest h2 where d: "dup_entries grants es h1 = (rest, h2)"
    by fastforce
  let ?x = "\<lparr>se_name = nm, se_is_directory = (if entry_is_directory e then 1 else 0),
    se_size = entry_size e, se_modified_time = entry_mtime e\<rparr>"
  have xs: "xs = ?x # rest" "h' = h2"
    using "2.prems"(1) m d by auto
  have h1: "wf_heap h1"
    using m "2.prems"(2) by (auto simp: malloc_def wf_heap_def split: if_splits)
  note IH = "2.IH" [OF m [symmetric] d h1]
  show ?case
  proof (cases nm)
    case None
    then have "blocks h1 = blocks h" "next_addr h1 = next_addr h"
      using m by (auto simp: malloc_def split: if_splits)
    with IH xs None show ?thesis by simp
  next
    case (Some a)
    then have a: "a = next_addr h" "next_addr h1 = Suc a" "blocks h1 = (blocks h)(a \<mapsto> Str (c_string (entry_name e)))"
      using m by (auto simp: malloc_def split: if_splits)
    have main: "\<exists>g'. free_names xs g = Some g' \<and> next_addr g' = next_addr g \<and>
        (\<forall>b < next_addr h. blocks g' b = blocks g b) \<and> (\<forall>b \<ge> next_addr h. blocks g' b = None)"
      if g: "\<forall>b \<ge> next_addr h. blocks g b = blocks h' b" for g
    proof -
      have "blocks h2 a = blocks h1 a"
        using IH a by simp
      then have "blocks g a \<noteq> None"
        using g a xs(2) by simp
      then obtain g1 where g1: "free_block a g = Some g1" "blocks g1 = (blocks g)(a := None)" "next_addr g1 = next_addr g"
        by (auto simp: free_block_def)
      have "\<forall>b \<ge> next_addr h1. blocks g1 b = blocks h2 b"
        using g g1(2) a xs(2) by auto
      then obtain g' where g': "free_names rest g1 = Some g'" "next_addr g' = next_addr g1"
        "\<forall>b < next_addr h1. blocks g' b = blocks g1 b" "\<forall>b \<ge> next_addr h1. blocks g' b = None"
        using IH by blast
      have "blocks g' b = None" if "next_addr h \<le> b" for b
        using that g'(3,4) a(1,2) g1(2) by (cases "b = a") auto
      then show ?thesis
        using xs(1) Some g1 g' a by auto
    qed
    show ?thesis
      using IH xs a main by (auto simp del: free_names.simps)
  qed
qed

end
