(* ===== verification/Ffi_Safety.thy ===== *)
theory Ffi_Safety
  imports Ffi Client_Requests
begin

text \<open>
  The listings of the C interface: what a caller reads through the result, and that releasing it frees
  every block that was allocated for it, once, whichever allocations fail.
\<close>

lemma deserialize_loop_length:
  "deserialize_loop n d off out = Parsed es \<Longrightarrow> length es = length out + n"
  by (induction n d off out rule: deserialize_loop.induct) (auto simp: read_defs Let_def split: if_splits)

lemma parseListResponse_length: "parseListResponse A p = Parsed es \<Longrightarrow> length es < 2 ^ 32"
  using unat_less_pow(2)
  by (auto simp: parseListResponse_def deserialize_entries_def read_defs Let_def dest!: deserialize_loop_length
      split: if_splits)

lemma malloc_cases:
  assumes "malloc grants b h = (r, h')"
  obtains (refused) "r = None" "blocks h' = blocks h" "next_addr h' = next_addr h" "\<not> grants (mallocs h)"
  | (granted) "r = Some (next_addr h)" "blocks h' = (blocks h)(next_addr h \<mapsto> b)" "next_addr h' = Suc (next_addr h)"
  using assms by (auto simp: malloc_def split: if_splits)

lemma wf_heap_malloc: "malloc grants b h = (r, h') \<Longrightarrow> wf_heap h \<Longrightarrow> wf_heap h'"
  by (erule malloc_cases) (auto simp: wf_heap_def)

lemma dup_entries_content:
  assumes "dup_entries grants es h = (xs, h')" and "wf_heap h" and "\<forall>n. grants n"
    and "\<forall>a \<ge> next_addr h. blocks g a = blocks h' a"
  shows "map (read_entry g) xs = map shown_entry es"
  using assms
proof (induction grants es h arbitrary: xs h' rule: dup_entries.induct)
  case (2 grants e es h)
  obtain nm h1 where m: "malloc grants (Str (c_string (entry_name e))) h = (nm, h1)"
    by fastforce
  obtain rest h2 where d: "dup_entries grants es h1 = (rest, h2)"
    by fastforce
  have wf1: "wf_heap h1"
    using wf_heap_malloc [OF m] "2.prems"(2) by simp
  from m show ?case
  proof (cases rule: malloc_cases)
    case granted
    have "blocks h2 (next_addr h) = blocks h1 (next_addr h)"
      using dup_entries_heap [OF d wf1] granted by simp
    moreover have "map (read_entry g) rest = map shown_entry es"
      using "2.IH" [OF m [symmetric] d wf1 "2.prems"(3)] "2.prems"(1,4) m d granted by auto
    moreover have "read_entry g \<lparr>se_name = nm, se_is_directory = (if entry_is_directory e then 1 else 0),
        se_size = entry_size e, se_modified_time = entry_mtime e\<rparr> = shown_entry e"
      using "2.prems"(1,4) m d granted calculation(1) by (auto simp: read_entry_def shown_entry_def)
    ultimately show ?thesis
      using "2.prems"(1) m d by auto
  qed (use "2.prems"(3) in simp)
qed simp

text \<open>The blocks of a complete result: the result at \<open>a\<close>, the array behind it, the names after that.\<close>

lemma full_list_released:
  assumes "dup_entries grants es h2 = (xs, h3)" and "wf_heap h" and "wf_heap h2" and "a = next_addr h"
    and "next_addr h2 = Suc (Suc a)" and "blocks h2 = (blocks h)(a \<mapsto> B, Suc a \<mapsto> Entries [])"
    and "h' = store_block a (ListBlock (Some (Suc a)) (size64 (length es))) (store_block (Suc a) (Entries xs) h3)"
    and "length es < 2 ^ 64"
  shows "wf_heap h' \<and> (\<exists>g. sailor_free_list (Some a) h' = Some g \<and> blocks g = blocks h) \<and>
    ((\<forall>n. grants n) \<longrightarrow> read_list h' a = Some (map shown_entry es))"
proof -
  note D = dup_entries_heap [OF assms(1,3)]
  have bl: "blocks h' = (blocks h3)(Suc a \<mapsto> Entries xs, a \<mapsto> ListBlock (Some (Suc a)) (size64 (length es)))"
    by (simp add: assms(7) store_block_def)
  have same: "\<forall>c \<ge> next_addr h2. blocks h' c = blocks h3 c"
    using bl assms(5) by auto
  then obtain g where g: "free_names xs h' = Some g" "\<forall>c < next_addr h2. blocks g c = blocks h' c"
    "\<forall>c \<ge> next_addr h2. blocks g c = None"
    using D by blast
  have "(blocks g)(Suc a := None, a := None) = blocks h"
  proof
    fix c
    consider "c < a" | "c = a \<or> c = Suc a" | "Suc (Suc a) \<le> c"
      by linarith
    then show "((blocks g)(Suc a := None, a := None)) c = blocks h c"
    proof cases
      case 1
      then show ?thesis
        using g(2) bl D assms(5,6) by simp
    qed (use assms(2,4,5) g(3) in \<open>auto simp: wf_heap_def\<close>)
  qed
  moreover have "sailor_free_list (Some a) h' = Some (g\<lparr>blocks := (blocks g)(Suc a := None, a := None)\<rparr>)"
    using bl g(1,2) D assms(5,8) by (simp add: sailor_free_list_def free_block_def)
  moreover have "wf_heap h'"
    using D assms(5,7) by (auto simp: wf_heap_def store_block_def)
  moreover have "read_list h' a = Some (map shown_entry es)" if "\<forall>n. grants n"
    using dup_entries_content [OF assms(1,3) that same] bl D assms(8) by (simp add: read_list_def)
  ultimately show ?thesis by auto
qed

lemma make_list_released:
  assumes "make_list grants es h = (r, h')" and "wf_heap h" and "length es < 2 ^ 64"
  shows "wf_heap h' \<and> (\<exists>g. sailor_free_list r h' = Some g \<and> blocks g = blocks h) \<and>
    ((\<forall>n. grants n) \<longrightarrow> (\<exists>a. r = Some a \<and> read_list h' a = Some (map shown_entry es)))"
proof -
  let ?a = "next_addr h" and ?B = "ListBlock None (size64 (length es))"
  have restore: "(blocks h)(?a := None) = blocks h"
    using assms(2) by (simp add: fun_upd_idem_iff wf_heap_def)
  obtain r0 h1 where m: "malloc grants ?B h = (r0, h1)"
    by fastforce
  then show ?thesis
  proof (cases rule: malloc_cases)
    case refused
    then show ?thesis
      using assms(1,2) m by (auto simp: make_list_def sailor_free_list_def wf_heap_def)
  next
    case granted
    note wf1 = wf_heap_malloc [OF m assms(2)]
    show ?thesis
    proof (cases "es = []")
      case True
      then show ?thesis
        using assms(1) m granted wf1 restore
        by (auto simp: make_list_def sailor_free_list_def free_block_def read_list_def)
    next
      case False
      obtain r1 h2 where m1: "malloc grants (Entries []) h1 = (r1, h2)"
        by fastforce
      obtain xs h3 where d: "dup_entries grants es h2 = (xs, h3)"
        by fastforce
      note wf2 = wf_heap_malloc [OF m1 wf1]
      from m1 show ?thesis
      proof (cases rule: malloc_cases)
        case refused
        then show ?thesis
          using assms(1) m m1 granted wf2 restore False
          by (auto simp: make_list_def sailor_free_list_def wf_heap_def)
      next
        case g1: granted
        have "h' = store_block ?a (ListBlock (Some (Suc ?a)) (size64 (length es))) (store_block (Suc ?a) (Entries xs) h3)"
          "r = Some ?a"
          using assms(1) m m1 d granted g1 False by (auto simp: make_list_def)
        then show ?thesis
          using full_list_released [OF d assms(2) wf2 refl, of ?B h'] granted g1 assms(3) by simp
      qed
    qed
  qed
qed



end
