(* ===== verification/Cli.thy ===== *)
theory Cli
  imports Ffi Client_Safety
begin

text \<open>
  \<open>client/main.cpp\<close>: the command line client over the C interface.  Each line written to a standard
  stream is a \<open>line\<close>.  The calls of the progress bar are the progress events of the client object;
  what it prints for one is in \<open>Progress_Bar\<close>.
\<close>

datatype line = Out string | Err string

text \<open>Everything that the program takes from outside: transport, network, digest calls, working
  directory, the upload identifier that is drawn, which allocations succeed, and the fuel of a download.\<close>

record ('t, 'c) world =
  w_transport :: "'t transport"
  w_alloc :: nat
  w_net :: "string \<Rightarrow> 16 word \<Rightarrow> 't network"
  w_evp :: "'c evp"
  w_cwd :: apath
  w_upload_id :: u64
  w_grants :: "nat \<Rightarrow> bool"
  w_fuel :: nat

definition int_string :: "int \<Rightarrow> string" where
  "int_string i = (if i < 0 then CHR ''-'' # to_string (nat (- i)) else to_string (nat i))"

definition newline :: string where
  "newline = [CHR 0x0A]"

section \<open>Endings\<close>

text \<open>A usage message ends the program with 1, an operation with 0 whatever its status; both
  disconnect.\<close>

definition usage :: "string \<Rightarrow> 't ffi \<Rightarrow> int call \<times> line list \<times> 't ffi" where
  "usage msg g = (Returns 1, [Err (''Usage: '' @ msg)], snd (sailor_disconnect g))"

definition report :: "line \<Rightarrow> (int \<Rightarrow> line) \<Rightarrow> int call \<times> 't ffi \<Rightarrow> int call \<times> line list \<times> 't ffi" where
  "report intro outro r =
     (case r of
        (Returns code, g) \<Rightarrow> (Returns 0, [intro, outro code], snd (sailor_disconnect g))
      | (res, g) \<Rightarrow> (res, [intro], g))"

definition verdict :: "string \<Rightarrow> int \<Rightarrow> line" where
  "verdict what code =
     (if code = 0 then Out (what @ '' SUCCESS'')
      else Err (what @ '' FAILED (Code: '' @ int_string code @ '')''))"

section \<open>The commands\<close>

definition cmd_upload ::
  "('t, 'c) world \<Rightarrow> fs \<Rightarrow> string list \<Rightarrow> 't ffi \<Rightarrow> int call \<times> line list \<times> 't ffi" where
  "cmd_upload W f argv g =
     (if length argv < 3 then usage (argv ! 0 @ '' upload <local_file> [remote_dir]'') g
      else
        (let local_file = argv ! 2; remote_dir = (if 3 < length argv then argv ! 3 else ''/'')
         in report (Out (''Starting upload: '' @ local_file @ '' -> '' @ remote_dir))
              (\<lambda>ok. Out (newline @ (if ok = 0 then ''Upload complete.'' else ''Upload failed.'')))
              (sailor_upload (w_transport W) (w_alloc W) (w_evp W) (w_cwd W) f (w_upload_id W)
                 (Some local_file) (Some remote_dir) g)))"

definition cmd_download ::
  "('t, 'c) world \<Rightarrow> fs \<Rightarrow> string list \<Rightarrow> 't ffi \<Rightarrow> (int call \<times> line list \<times> 't ffi) \<times> fs" where
  "cmd_download W f argv g =
     (if length argv < 3 then (usage (argv ! 0 @ '' download <remote_path> [local_dest]'') g, f)
      else
        (let remote_path = argv ! 2; local_dest = (if 3 < length argv then argv ! 3 else ''.'')
         in case sailor_download (w_fuel W) (w_transport W) (w_alloc W) (w_evp W) (w_cwd W) f
                  (Some remote_path) (Some local_dest) g of
              (res, f, g) \<Rightarrow>
                (report (Out (''Starting download: '' @ remote_path @ '' -> '' @ local_dest))
                   (\<lambda>ok. Out (newline @ (if ok = 0 then ''Download complete.'' else ''Download failed.'')))
                   (res, g), f)))"

definition cmd_delete ::
  "('t, 'c) world \<Rightarrow> string list \<Rightarrow> 't ffi \<Rightarrow> int call \<times> line list \<times> 't ffi" where
  "cmd_delete W argv g =
     (if length argv < 3 then usage (argv ! 0 @ '' delete <remote_path>'') g
      else report (Out (''Deleting remote path: '' @ argv ! 2)) (verdict ''Delete'')
             (sailor_delete (w_transport W) (w_alloc W) (Some (argv ! 2)) g))"

definition cmd_rename ::
  "('t, 'c) world \<Rightarrow> string list \<Rightarrow> 't ffi \<Rightarrow> int call \<times> line list \<times> 't ffi" where
  "cmd_rename W argv g =
     (if length argv < 4 then usage (argv ! 0 @ '' '' @ argv ! 1 @ '' <source_path> <dest_path>'') g
      else report (Out (''Renaming/Moving: '' @ argv ! 2 @ '' -> '' @ argv ! 3)) (verdict ''Rename'')
             (sailor_rename (w_transport W) (w_alloc W) (Some (argv ! 2)) (Some (argv ! 3)) g))"

definition cmd_mkdir ::
  "('t, 'c) world \<Rightarrow> string list \<Rightarrow> 't ffi \<Rightarrow> int call \<times> line list \<times> 't ffi" where
  "cmd_mkdir W argv g =
     (if length argv < 3 then usage (argv ! 0 @ '' mkdir <path>'') g
      else report (Out (''Creating directory: '' @ argv ! 2)) (verdict ''MKDIR'')
             (sailor_mkdir (w_transport W) (w_alloc W) (Some (argv ! 2)) g))"

definition cmd_rmdir ::
  "('t, 'c) world \<Rightarrow> string list \<Rightarrow> 't ffi \<Rightarrow> int call \<times> line list \<times> 't ffi" where
  "cmd_rmdir W argv g =
     (if length argv < 3 then usage (argv ! 0 @ '' rmdir <path>'') g
      else report (Out (''Removing directory: '' @ argv ! 2)) (verdict ''RMDIR'')
             (sailor_rmdir (w_transport W) (w_alloc W) (Some (argv ! 2)) g))"

text \<open>\<open>std::left << std::setw(24)\<close>.  Writing a null pointer puts \<open>std::cout\<close> into a failed state:
  nothing more of the listing appears.\<close>

definition pad_right :: "nat \<Rightarrow> string \<Rightarrow> string" where
  "pad_right n s = s @ replicate (n - length s) (CHR '' '')"

fun print_items :: "(string option \<times> byte \<times> u64 \<times> u64) list \<Rightarrow> line list" where
  "print_items [] = []"
| "print_items ((None, d, sz, mt) # es) = [Out (if d \<noteq> 0 then '' [D] '' else '' [F] '')]"
| "print_items ((Some nm, d, sz, mt) # es) =
     Out (if d \<noteq> 0 then '' [D] '' @ nm @ ''/''
          else '' [F] '' @ pad_right 24 nm @ '' ('' @ to_string (unat sz) @ '' bytes)'') # print_items es"

definition cmd_list ::
  "('t, 'c) world \<Rightarrow> string list \<Rightarrow> 't ffi \<Rightarrow> int call \<times> line list \<times> 't ffi" where
  "cmd_list W argv g =
     (let path = (if 2 < length argv then argv ! 2 else ''/'');
          intro = Out (newline @ ''Listing directory: '' @ path @ newline)
      in case sailor_list (w_grants W) (w_transport W) (w_alloc W) (Some path) g of
           (Returns None, g) \<Rightarrow>
             (Returns 0, [intro, Err ''Failed to list directory''], snd (sailor_disconnect g))
         | (Returns (Some result), g) \<Rightarrow>
             (case (read_list (c_heap g) result, sailor_free_list (Some result) (c_heap g)) of
                (Some items, Some h) \<Rightarrow>
                  (Returns 0, intro # print_items items, snd (sailor_disconnect (g\<lparr>c_heap := h\<rparr>)))
              | _ \<Rightarrow> (UB, [intro], g))
         | (res, g) \<Rightarrow> (map_call (\<lambda>_. 0) res, [intro], g))"

section \<open>main\<close>

definition cli_login :: "('t, 'c) world \<Rightarrow> int call \<times> 't ffi" where
  "cli_login W =
     sailor_connect (w_transport W) (w_alloc W) (w_net W) (Some ''127.0.0.1'') 9000 (Some ''admin'')
       (Some ''password123'') (sailor_set_progress_callback True new_ffi)"

definition client_main ::
  "('t, 'c) world \<Rightarrow> fs \<Rightarrow> string list \<Rightarrow> (int call \<times> line list \<times> 't ffi) \<times> fs" where
  "client_main W f argv =
     (let command = (if 1 < length argv then argv ! 1 else ''list'') in
      case cli_login W of
        (Returns conn_res, g) \<Rightarrow>
          if conn_res \<noteq> 0
          then ((Returns 1, [Err (''Failed to connect and authenticate (Status code: '' @
                                  int_string conn_res @ '')'')], g), f)
          else if command = ''upload'' then (cmd_upload W f argv g, f)
          else if command = ''download'' then cmd_download W f argv g
          else if command = ''delete'' then (cmd_delete W argv g, f)
          else if command = ''rename'' \<or> command = ''move'' then (cmd_rename W argv g, f)
          else if command = ''mkdir'' then (cmd_mkdir W argv g, f)
          else if command = ''rmdir'' then (cmd_rmdir W argv g, f)
          else (cmd_list W argv g, f)
      | (res, g) \<Rightarrow> ((res, [], g), f))"

section \<open>Exit codes\<close>

definition too_few_arguments :: "string list \<Rightarrow> bool" where
  "too_few_arguments argv \<longleftrightarrow>
     1 < length argv \<and>
     (argv ! 1 \<in> {''upload'', ''download'', ''delete'', ''mkdir'', ''rmdir''} \<and> length argv < 3 \<or>
      argv ! 1 \<in> {''rename'', ''move''} \<and> length argv < 4)"

lemma disconnected [simp]: "sailor_is_connected (snd (sailor_disconnect g)) = 0"
  by (auto simp: sailor_is_connected_def sailor_disconnect_def disconnect_def isConnected_def log_msg_def
      split: option.splits)

lemma usage_end: "usage msg g = (Returns n, out, g') \<Longrightarrow> n = 1 \<and> sailor_is_connected g' = 0"
  by (auto simp: usage_def)

lemma report_end: "report intro outro r = (Returns n, out, g') \<Longrightarrow> n = 0 \<and> sailor_is_connected g' = 0"
  by (auto simp: report_def split: prod.splits call.splits)

lemma cmd_list_end: "cmd_list W argv g = (Returns n, out, g') \<Longrightarrow> n = 0 \<and> sailor_is_connected g' = 0"
  by (auto simp: cmd_list_def Let_def split: prod.splits call.splits option.splits)

text \<open>The exit code of the command line client: 1 exactly when the login fails or arguments are missing,
  else 0 whatever the server answered; after a login it ends disconnected, and only a download
  changes the local disk.\<close>

theorem client_main_exit:
  assumes "client_main W f argv = ((Returns n, out, g'), f')"
  shows "\<exists>code g. cli_login W = (Returns code, g) \<and>
    n = (if code \<noteq> 0 \<or> too_few_arguments argv then 1 else 0) \<and>
    (code = 0 \<longrightarrow> sailor_is_connected g' = 0) \<and>
    (\<not> (1 < length argv \<and> argv ! 1 = ''download'') \<longrightarrow> f' = f)"
proof -
  obtain code g where l: "cli_login W = (Returns code, g)"
    using assms by (cases "cli_login W"; cases "fst (cli_login W)") (auto simp: client_main_def Let_def)
  show ?thesis
  proof (cases "code = 0 \<and> 1 < length argv")
    case False
    then show ?thesis
      using assms l
      by (auto simp: client_main_def Let_def too_few_arguments_def dest: cmd_list_end split: if_splits)
  next
    case True
    consider "argv ! 1 \<in> {''upload'', ''download'', ''delete'', ''mkdir'', ''rmdir'', ''rename'', ''move''}"
      | "argv ! 1 \<notin> {''upload'', ''download'', ''delete'', ''mkdir'', ''rmdir'', ''rename'', ''move''}"
      by blast
    then show ?thesis
    proof cases
      case 1
      then show ?thesis
        using assms l True
        by (elim insertE emptyE)
          (auto simp: client_main_def Let_def too_few_arguments_def cmd_upload_def cmd_download_def cmd_delete_def
            cmd_mkdir_def cmd_rmdir_def cmd_rename_def dest: usage_end report_end split: if_splits prod.splits)
    next
      case 2
      then show ?thesis
        using assms l True by (auto simp: client_main_def Let_def too_few_arguments_def dest: cmd_list_end)
    qed
  qed
qed

text \<open>A server that accepts the login and nothing else.\<close>

definition sample_world :: "(bytes \<times> bytes, bytes) world" where
  "sample_world =
     \<lparr>w_transport = sample_link, w_alloc = 4096,
      w_net = (\<lambda>h p. sample_net (serialize (authResponse True 7 ''hi''), [])), w_evp = sample_evp,
      w_cwd = sample_root, w_upload_id = 1, w_grants = (\<lambda>n. True), w_fuel = 10\<rparr>"

lemma sample_login_ok: "fst (cli_login sample_world) = Returns 0"
proof -
  let ?p = "authResponse True 7 ''hi''" and ?o = "serialize (authRequest ''admin'' ''password123'')"
  obtain t where t: "receivePacket sample_link 4096 (serialize ?p, ?o) = (Received ?p, t)"
    using sample_link.receivePacket_live [of "(serialize ?p, ?o)" ?p "[]" 4096 4096]
      auth_response.build_consistent [of "(True, 7, ''hi'')"]
    by (auto simp: header_len_def codec_simps)
  moreover have "sendPacket sample_link (serialize ?p, []) (authRequest ''admin'' ''password123'') = (True, (serialize ?p, ?o))"
    by (simp add: sendPacket_def sample_link_def)
  moreover have "parseAuthResponse ?p = Parsed (True, 7, ''hi'')"
    using auth_response.parse_build [of "(True, 7, ''hi'')"] by simp
  ultimately show ?thesis
    by (simp add: cli_login_def sample_world_def sailor_connect_def on_client_def connect_def sample_net_def
        split: prod.split)
qed

lemma client_main_exit_witness:
  "\<exists>out g f. client_main sample_world sample_fs [''sailor'', ''delete''] = ((Returns 1, out, g), f) \<and>
    sailor_is_connected g = 0 \<and> f = sample_fs"
proof -
  obtain out g f where m: "client_main sample_world sample_fs [''sailor'', ''delete''] = ((Returns 1, out, g), f)"
    using sample_login_ok
    by (cases "cli_login sample_world") (simp add: client_main_def cmd_delete_def usage_def)
  with client_main_exit [OF m] sample_login_ok show ?thesis
    by auto
qed

end
