(* ===== verification/Startup.thy ===== *)
theory Startup
  imports Server Client
begin

text \<open>
  How the two programs start: the searches for a file in \<open>tls/tls_client.cpp\<close>, \<open>tls/tls_server.cpp\<close>,
  \<open>auth/user_store.cpp\<close> and \<open>filesystem/file_service.cpp\<close>, the TLS contexts, the construction and
  \<open>start\<close> of \<open>TcpServer\<close>, and \<open>server/main.cpp\<close>.  \<open>cwd\<close> is the working directory, \<open>exe\<close> the location
  of the executable (\<open>None\<close> when \<open>canonical("/proc/self/exe")\<close> throws).
\<close>

section \<open>Searching for a file\<close>

text \<open>\<open>fs::exists(path)\<close> without an error code throws when the status cannot be determined.\<close>

definition exists_or_throw :: "fs \<Rightarrow> apath \<Rightarrow> string \<Rightarrow> errno + bool" where
  "exists_or_throw f cwd path =
     (if path = [] then Inr False
      else case status f (local_path cwd path) of
        Found q n \<Rightarrow> Inr True
      | NotFound \<Rightarrow> Inr False
      | StatusError e \<Rightarrow> Inl e)"

definition resolveFilePath :: "fs \<Rightarrow> apath \<Rightarrow> apath option \<Rightarrow> string \<Rightarrow> errno + string" where
  "resolveFilePath f cwd exe path =
     (if path = [] then Inr path
      else case exists_or_throw f cwd path of
        Inl e \<Rightarrow> Inl e
      | Inr True \<Rightarrow> Inr path
      | Inr False \<Rightarrow>
          (case exists_or_throw f cwd (''../'' @ path) of
             Inl e \<Rightarrow> Inl e
           | Inr True \<Rightarrow> Inr (''../'' @ path)
           | Inr False \<Rightarrow>
               (case exe of
                  None \<Rightarrow> Inr path
                | Some x \<Rightarrow>
                    (let exe_dir = parent_path x;
                         here = path_append exe_dir (path_of path);
                         above = path_append (parent_path exe_dir) (path_of path)
                     in case status f here of
                          Found q n \<Rightarrow> Inr (path_string here)
                        | StatusError e \<Rightarrow> Inr path
                        | NotFound \<Rightarrow>
                            (case status f above of
                               Found q n \<Rightarrow> Inr (path_string above)
                             | _ \<Rightarrow> Inr path)))))"

text \<open>The server's TLS context and the user store have copies of the same function.\<close>

definition server_resolveFilePath :: "fs \<Rightarrow> apath \<Rightarrow> apath option \<Rightarrow> string \<Rightarrow> errno + string" where
  "server_resolveFilePath = resolveFilePath"

definition resolveDbPath :: "fs \<Rightarrow> apath \<Rightarrow> apath option \<Rightarrow> string \<Rightarrow> errno + string" where
  "resolveDbPath = resolveFilePath"

text \<open>\<open>canonical\<close> throws when the path does not exist.\<close>

definition canonical :: "fs \<Rightarrow> apath \<Rightarrow> errno + apath" where
  "canonical f p =
     (case status f p of Found q n \<Rightarrow> Inr q | NotFound \<Rightarrow> Inl ENOENT | StatusError e \<Rightarrow> Inl e)"

definition create_root :: "fs \<Rightarrow> apath \<Rightarrow> string \<Rightarrow> (errno + apath) \<times> fs" where
  "create_root f cwd path =
     (if path = [] then (Inl ENOENT, f)
      else case create_directories f (local_path cwd path) of
        (created, Some e, f') \<Rightarrow> (Inl e, f')
      | (created, None, f') \<Rightarrow> (canonical f' (local_path cwd path), f'))"

definition resolveStorageRoot :: "fs \<Rightarrow> apath \<Rightarrow> apath option \<Rightarrow> string \<Rightarrow> (errno + apath) \<times> fs" where
  "resolveStorageRoot f cwd exe path =
     (case exists_or_throw f cwd path of
        Inl e \<Rightarrow> (Inl e, f)
      | Inr True \<Rightarrow> (canonical f (local_path cwd path), f)
      | Inr False \<Rightarrow>
          (case exists_or_throw f cwd (''../'' @ path) of
             Inl e \<Rightarrow> (Inl e, f)
           | Inr True \<Rightarrow> (canonical f (local_path cwd (''../'' @ path)), f)
           | Inr False \<Rightarrow>
               (case exe of
                  None \<Rightarrow> create_root f cwd path
                | Some x \<Rightarrow>
                    (let exe_dir = parent_path x;
                         here = path_append exe_dir (path_of path);
                         above = path_append (parent_path exe_dir) (path_of path)
                     in case status f here of
                          Found q n \<Rightarrow> (Inr q, f)
                        | StatusError e \<Rightarrow> create_root f cwd path
                        | NotFound \<Rightarrow>
                            (case status f above of
                               Found q n \<Rightarrow> (Inr q, f)
                             | _ \<Rightarrow> create_root f cwd path)))))"

section \<open>TLS contexts\<close>

text \<open>What the OpenSSL calls return, and what they have set on a context.\<close>

record openssl =
  ssl_ctx_new :: bool
  load_verify_locations :: "string \<Rightarrow> bool"
  use_certificate_file :: "string \<Rightarrow> bool"
  use_private_key_file :: "string \<Rightarrow> bool"
  check_private_key :: "string \<Rightarrow> string \<Rightarrow> bool"

datatype verify_mode = VERIFY_NONE | VERIFY_PEER | VERIFY_PEER_REQUIRED

record tls_ctx =
  ctx_verify :: verify_mode
  ctx_trusted :: "string option"
  ctx_identity :: "(string \<times> string) option"

text \<open>\<open>initialize\<close>: an exception, or its result with the context.\<close>

definition client_initialize ::
  "openssl \<Rightarrow> fs \<Rightarrow> apath \<Rightarrow> apath option \<Rightarrow> string \<Rightarrow> string \<Rightarrow> string \<Rightarrow> errno + (bool \<times> tls_ctx option)" where
  "client_initialize ssl f cwd exe ca_cert_path client_cert_path client_key_path =
     (if \<not> ssl_ctx_new ssl then Inr (False, None)
      else case resolveFilePath f cwd exe ca_cert_path of
        Inl e \<Rightarrow> Inl e
      | Inr resolved_ca \<Rightarrow>
          (case (if resolved_ca = [] then Inr False else exists_or_throw f cwd resolved_ca) of
             Inl e \<Rightarrow> Inl e
           | Inr found \<Rightarrow>
               let ctx = \<lparr>ctx_verify = (if found then VERIFY_PEER else VERIFY_NONE),
                          ctx_trusted = (if found \<and> load_verify_locations ssl resolved_ca
                                         then Some resolved_ca else None),
                          ctx_identity = None\<rparr>
               in if found \<and> \<not> load_verify_locations ssl resolved_ca then Inr (False, Some ctx)
                  else case (resolveFilePath f cwd exe client_cert_path,
                             resolveFilePath f cwd exe client_key_path) of
                    (Inr cert, Inr key) \<Rightarrow>
                      (case exists_or_throw f cwd cert of
                         Inl e \<Rightarrow> Inl e
                       | Inr False \<Rightarrow> Inr (True, Some ctx)
                       | Inr True \<Rightarrow>
                           (case exists_or_throw f cwd key of
                              Inl e \<Rightarrow> Inl e
                            | Inr False \<Rightarrow> Inr (True, Some ctx)
                            | Inr True \<Rightarrow>
                                if \<not> use_certificate_file ssl cert \<or> \<not> use_private_key_file ssl key \<or>
                                   \<not> check_private_key ssl cert key
                                then Inr (False, Some ctx)
                                else Inr (True, Some (ctx\<lparr>ctx_identity := Some (cert, key)\<rparr>))))
                  | (Inl e, _) \<Rightarrow> Inl e
                  | (_, Inl e) \<Rightarrow> Inl e))"

definition server_initialize ::
  "openssl \<Rightarrow> fs \<Rightarrow> apath \<Rightarrow> apath option \<Rightarrow> string \<Rightarrow> string \<Rightarrow> string \<Rightarrow> errno + (bool \<times> tls_ctx option)" where
  "server_initialize ssl f cwd exe cert_path key_path client_ca_path =
     (if \<not> ssl_ctx_new ssl then Inr (False, None)
      else case (server_resolveFilePath f cwd exe cert_path, server_resolveFilePath f cwd exe key_path) of
        (Inr cert, Inr key) \<Rightarrow>
          (let ctx = \<lparr>ctx_verify = VERIFY_NONE, ctx_trusted = None, ctx_identity = None\<rparr> in
           if \<not> use_certificate_file ssl cert \<or> \<not> use_private_key_file ssl key \<or>
              \<not> check_private_key ssl cert key
           then Inr (False, Some ctx)
           else
             (let ctx = ctx\<lparr>ctx_identity := Some (cert, key), ctx_verify := VERIFY_PEER_REQUIRED\<rparr> in
              case server_resolveFilePath f cwd exe client_ca_path of
                Inl e \<Rightarrow> Inl e
              | Inr trusted \<Rightarrow>
                  if \<not> load_verify_locations ssl trusted then Inr (False, Some ctx)
                  else Inr (True, Some (ctx\<lparr>ctx_trusted := Some trusted\<rparr>))))
      | (Inl e, _) \<Rightarrow> Inl e
      | (_, Inl e) \<Rightarrow> Inl e)"

section \<open>The server program\<close>

text \<open>\<open>UserStore::load\<close> on the file that the search finds; \<open>sqlite\<close> gives the output of the
  \<open>sqlite3\<close> command for a file name.\<close>

definition load_users ::
  "fs \<Rightarrow> apath \<Rightarrow> apath option \<Rightarrow> (string \<Rightarrow> string option) \<Rightarrow> string \<Rightarrow> errno + (bool \<times> users)" where
  "load_users f cwd exe sqlite db_path =
     (case resolveDbPath f cwd exe db_path of
        Inl e \<Rightarrow> Inl e
      | Inr resolved \<Rightarrow>
          Inr (load Map.empty
            (if resolved = [] then None
             else case open_read f (local_path cwd resolved) of Inl e \<Rightarrow> None | Inr d \<Rightarrow> Some (string_of d))
            (sqlite resolved)))"

text \<open>\<open>std::stoi\<close>: leading white space, a sign, digits up to the first other character; it throws
  without digits and outside the range of \<open>int\<close>.\<close>

definition is_digit :: "char \<Rightarrow> bool" where
  "is_digit c \<longleftrightarrow> (of_char c :: nat) \<in> {48..57}"

definition stoi :: "string \<Rightarrow> int option" where
  "stoi s =
     (let s = dropWhile (\<lambda>c. c = CHR '' '' \<or> (of_char c :: nat) \<in> {9..13}) s;
          neg = (s \<noteq> [] \<and> hd s = CHR ''-'');
          s = (if s \<noteq> [] \<and> (hd s = CHR ''-'' \<or> hd s = CHR ''+'') then tl s else s);
          ds = takeWhile is_digit s;
          v = foldl (\<lambda>a c. a * 10 + (int (of_char c) - 48)) 0 ds;
          v = (if neg then - v else v)
      in if ds = [] \<or> v < - (2 ^ 31) \<or> 2 ^ 31 \<le> v then None else Some v)"

text \<open>The socket calls of \<open>start\<close>, by the port they are made for.\<close>

record sockets =
  sock_create :: bool
  sock_bind :: "u16 \<Rightarrow> bool"
  sock_listen :: bool

definition tcp_start ::
  "sockets \<Rightarrow> openssl \<Rightarrow> fs \<Rightarrow> apath \<Rightarrow> apath option \<Rightarrow> int \<Rightarrow> string \<Rightarrow> string \<Rightarrow> errno + (bool \<times> tls_ctx option)" where
  "tcp_start sk ssl f cwd exe port cert_path key_path =
     (case server_initialize ssl f cwd exe cert_path key_path ''certs/client-cert.pem'' of
        Inl e \<Rightarrow> Inl e
      | Inr (False, ctx) \<Rightarrow> Inr (False, ctx)
      | Inr (True, ctx) \<Rightarrow>
          if \<not> sock_create sk then Inr (False, ctx)
          else if \<not> sock_bind sk (word_of_int port) then Inr (False, ctx)
          else if \<not> sock_listen sk then Inr (False, ctx)
          else Inr (True, ctx))"

text \<open>What the constructor of \<open>TcpServer\<close> does to the disk once the storage root is found: its services
  make the directory of the audit log, one after the other.\<close>

definition construct_services :: "fs \<Rightarrow> apath \<Rightarrow> fs" where
  "construct_services f cwd =
     (let f = delete_service f cwd ''logs/audit.log'';
          f = rename_service f cwd ''logs/audit.log''
      in directory_service f cwd ''logs/audit.log'')"

text \<open>How \<open>main\<close> gets to \<open>run\<close>: an exception ends the process, \<open>start\<close> failing makes it exit with 1.\<close>

datatype 'a boot = BootCrash | BootExit nat | Booted 'a

definition argument :: "string list \<Rightarrow> nat \<Rightarrow> string \<Rightarrow> string" where
  "argument argv i dflt = (if i < length argv then argv ! i else dflt)"

definition server_main ::
  "sockets \<Rightarrow> openssl \<Rightarrow> (string \<Rightarrow> string option) \<Rightarrow> apath \<Rightarrow> apath option \<Rightarrow> fs \<Rightarrow> string list \<Rightarrow>
   ('c server \<times> apath \<times> tls_ctx option) boot" where
  "server_main sk ssl sqlite cwd exe f argv =
     (case (if 3 < length argv then stoi (argv ! 3) else Some 9000) of
        None \<Rightarrow> BootCrash
      | Some port \<Rightarrow>
          (case load_users f cwd exe sqlite (argument argv 4 ''data/users.db'') of
             Inl e \<Rightarrow> BootCrash
           | Inr (loaded, users) \<Rightarrow>
               (case resolveStorageRoot f cwd exe (argument argv 5 ''server_storage'') of
                  (Inl e, f) \<Rightarrow> BootCrash
                | (Inr rt, f) \<Rightarrow>
                    (let f = construct_services f cwd in
                     case tcp_start sk ssl f cwd exe port (argument argv 1 ''certs/cert.pem'')
                            (argument argv 2 ''certs/key.pem'') of
                       Inl e \<Rightarrow> BootCrash
                     | Inr (False, ctx) \<Rightarrow> BootExit 1
                     | Inr (True, ctx) \<Rightarrow>
                         Booted
                           (\<lparr>srv_store = \<lparr>disk = f, audit = []\<rparr>, srv_uploads = Map.empty,
                             srv_users = users, srv_draws = 0\<rparr>, rt, ctx)))))"

end
