(* ===== verification/Startup_Safety.thy ===== *)
theory Startup_Safety
  imports Startup Client_Download
begin

text \<open>
  What the server has when it starts to accept clients, and when the client verifies its server.
\<close>

section \<open>What the server starts with\<close>

lemma local_path_no_slash: "list_all no_slash cwd \<Longrightarrow> list_all no_slash (local_path cwd s)"
  by (simp add: local_path_def path_append_no_slash path_of_no_slash)

lemma canonical_Inr: "wf_fs f \<Longrightarrow> canonical f p = Inr q \<Longrightarrow> canonical_at f q"
  by (auto simp: canonical_def dest: status_Found split: file_status.splits)

lemma create_root_Inr:
  assumes "wf_fs f" and "list_all no_slash cwd" and "create_root f cwd path = (Inr r, f')"
  shows "wf_fs f' \<and> dirs_added f f' \<and> canonical_at f' r"
proof -
  obtain created e f1 where c: "create_directories f (local_path cwd path) = (created, e, f1)"
    by (metis prod_cases3)
  have "wf_fs f1 \<and> dirs_added f f1"
    using create_directories_dirs [OF assms(1) local_path_no_slash [OF assms(2)], of path] c by simp
  with assms(3) c show ?thesis
    by (auto simp: create_root_def dest: canonical_Inr split: if_splits option.splits)
qed

lemma resolveStorageRoot_Inr:
  assumes "wf_fs f" and "list_all no_slash cwd" and "resolveStorageRoot f cwd exe path = (Inr r, f')"
  shows "wf_fs f' \<and> dirs_added f f' \<and> canonical_at f' r"
  using assms
  by (auto simp: resolveStorageRoot_def Let_def dest: canonical_Inr create_root_Inr status_Found
      split: sum.splits bool.splits option.splits file_status.splits)

text \<open>Added directories keep what is canonical.\<close>

lemma dirs_added_canonical: "dirs_added f f' \<Longrightarrow> canonical_at f q \<Longrightarrow> canonical_at f' q"
  by (auto simp: canonical_at_def dirs_added_node) (simp add: dirs_added_def)

lemma audit_parent_dirs:
  assumes "wf_fs f" and "list_all no_slash cwd"
  shows "wf_fs (audit_parent f cwd p) \<and> dirs_added f (audit_parent f cwd p)"
proof -
  have "list_all no_slash (path_append cwd (Path b (butlast (elements (path_of p)))))" for b
    using path_of_no_slash [of p]
    by (intro path_append_no_slash [OF assms(2)]) (auto simp: list_all_iff dest: in_set_butlastD)
  then show ?thesis
    using create_directories_dirs [OF assms(1)] assms(1) by (simp add: audit_parent_def Let_def)
qed

lemma construct_services_dirs:
  assumes "wf_fs f" and "list_all no_slash cwd"
  shows "wf_fs (construct_services f cwd) \<and> dirs_added f (construct_services f cwd)"
proof -
  define g where "g f = audit_parent f cwd ''logs/audit.log''" for f
  have "wf_fs (g f) \<and> dirs_added f (g f)" if "wf_fs f" for f
    unfolding g_def by (rule audit_parent_dirs [OF that assms(2)])
  then have "wf_fs (g (g (g f))) \<and> dirs_added f (g (g (g f)))"
    using assms(1) dirs_added_trans by meson
  then show ?thesis
    by (simp add: construct_services_def Let_def delete_service_def rename_service_def directory_service_def g_def)
qed

lemma server_initialize_ok:
  "server_initialize ssl f cwd exe cert key ca = Inr (True, ctx) \<Longrightarrow>
    \<exists>c. ctx = Some c \<and> ctx_verify c = VERIFY_PEER_REQUIRED \<and> ctx_trusted c \<noteq> None \<and> ctx_identity c \<noteq> None"
  by (auto simp: server_initialize_def Let_def split: if_splits sum.splits)

lemma booted:
  assumes "wf_fs f" and "list_all no_slash cwd" and "server_main sk ssl sqlite cwd exe f argv = Booted (s, rt, ctx)"
  shows "wf_fs (disk (srv_store s)) \<and> dirs_added f (disk (srv_store s)) \<and>
    canonical_at (disk (srv_store s)) rt \<and> list_all no_slash rt \<and> lexically_normal rt = rt \<and>
    srv_uploads s = Map.empty \<and>
    (\<exists>c. ctx = Some c \<and> ctx_verify c = VERIFY_PEER_REQUIRED \<and> ctx_trusted c \<noteq> None \<and> ctx_identity c \<noteq> None)"
proof -
  obtain f' port where r: "resolveStorageRoot f cwd exe (argument argv 5 ''server_storage'') = (Inr rt, f')"
    "tcp_start sk ssl (construct_services f' cwd) cwd exe port (argument argv 1 ''certs/cert.pem'')
      (argument argv 2 ''certs/key.pem'') = Inr (True, ctx)"
    "disk (srv_store s) = construct_services f' cwd" "srv_uploads s = Map.empty"
    using assms(3) by (auto simp: server_main_def Let_def split: option.splits sum.splits prod.splits bool.splits if_splits)
  note found = resolveStorageRoot_Inr [OF assms(1,2) r(1)]
  note logs = construct_services_dirs [OF _ assms(2), of f']
  have root: "wf_fs (disk (srv_store s))" "dirs_added f (disk (srv_store s))" "canonical_at (disk (srv_store s)) rt"
    using found logs r(3) dirs_added_trans dirs_added_canonical by metis+
  have "list_all valid_name rt"
    using root wf_fs_valid by (auto simp: canonical_at_def)
  then have "list_all no_slash rt" "lexically_normal rt = rt"
    by (auto simp: list_all_iff intro: valid_name_no_slash, simp add: lexically_normal_id normal_path_def list_all_iff)
  moreover have "\<exists>c. ctx = Some c \<and> ctx_verify c = VERIFY_PEER_REQUIRED \<and> ctx_trusted c \<noteq> None \<and> ctx_identity c \<noteq> None"
    using r(2) by (intro server_initialize_ok) (auto simp: tcp_start_def split: sum.splits prod.splits bool.splits if_splits)
  ultimately show ?thesis
    using root r(4) by simp
qed

text \<open>C11. What the server starts with: when main reaches run(), the disk is well formed and differs from
  the one found only by added directories, the storage root is canonical and normal, there is no
  upload session, and the TLS context has an identity and requires client certificates under a
  loaded trust anchor.\<close>

theorem boot_establishes_invariant:
  assumes "wf_fs f" and "list_all no_slash cwd" and "server_main sk ssl sqlite cwd exe f argv = Booted (s, rt, ctx)"
  shows "wf_fs (disk (srv_store s)) \<and> dirs_added f (disk (srv_store s)) \<and>
    canonical_at (disk (srv_store s)) rt \<and> list_all no_slash rt \<and> lexically_normal rt = rt \<and>
    srv_uploads s = Map.empty \<and>
    (\<exists>c. ctx = Some c \<and> ctx_verify c = VERIFY_PEER_REQUIRED \<and> ctx_trusted c \<noteq> None \<and> ctx_identity c \<noteq> None)"
  by (rule booted [OF assms])

section \<open>Whom the client trusts\<close>

lemma exists_or_throw_guard:
  "(if p = [] then Inr False else exists_or_throw f cwd p) = exists_or_throw f cwd p"
  by (simp add: exists_or_throw_def)

text \<open>C12. When the client's TLS context is ready, it verifies the server's certificate exactly when the
  search for the CA file ends at an existing file, which is then the trust anchor; without such a
  file the server is not verified at all.\<close>

theorem client_verification:
  assumes "client_initialize ssl f cwd exe ca cert key = Inr (True, Some c)"
  shows "\<exists>p found. resolveFilePath f cwd exe ca = Inr p \<and> exists_or_throw f cwd p = Inr found \<and>
    ctx_verify c = (if found then VERIFY_PEER else VERIFY_NONE) \<and>
    ctx_trusted c = (if found then Some p else None)"
proof (cases "resolveFilePath f cwd exe ca")
  case (Inl e)
  with assms show ?thesis
    by (simp add: client_initialize_def split: if_splits)
next
  case (Inr p)
  note p = this
  show ?thesis
  proof (cases "exists_or_throw f cwd p")
    case (Inl e)
    with assms p show ?thesis
      by (simp add: client_initialize_def exists_or_throw_guard split: if_splits)
  next
    case (Inr found)
    with assms p have "ctx_verify c = (if found then VERIFY_PEER else VERIFY_NONE) \<and>
      ctx_trusted c = (if found then Some p else None)"
      by (cases found)
        (simp_all add: client_initialize_def exists_or_throw_guard Let_def split: if_splits sum.splits bool.splits,
          auto)
    with p Inr show ?thesis by simp
  qed
qed

definition sample_ssl :: openssl where
  "sample_ssl = \<lparr>ssl_ctx_new = True, load_verify_locations = (\<lambda>p. True), use_certificate_file = (\<lambda>p. True),
     use_private_key_file = (\<lambda>p. True), check_private_key = (\<lambda>c k. True)\<rparr>"

definition sample_sockets :: sockets where
  "sample_sockets = \<lparr>sock_create = True, sock_bind = (\<lambda>p. p = 9000), sock_listen = True\<rparr>"

lemma sample_missing:
  "exists_or_throw sample_fs sample_root ''ca.pem'' = Inr False"
  "exists_or_throw sample_fs sample_root ''../ca.pem'' = Inr False"
  by (simp_all add: exists_or_throw_def local_path_def sample_eval)

lemma client_verification_witness:
  "\<exists>c. client_initialize sample_ssl sample_fs sample_root None ''ca.pem'' ''ca.pem'' ''ca.pem'' = Inr (True, Some c) \<and>
    ctx_verify c = VERIFY_NONE"
proof -
  have r: "resolveFilePath sample_fs sample_root None ''ca.pem'' = Inr ''ca.pem''"
    using sample_missing by (simp add: resolveFilePath_def)
  obtain c where c: "client_initialize sample_ssl sample_fs sample_root None ''ca.pem'' ''ca.pem'' ''ca.pem'' = Inr (True, Some c)"
    using sample_missing r by (simp add: client_initialize_def sample_ssl_def)
  with client_verification [OF c] sample_missing r show ?thesis by auto
qed

lemma sample_present:
  "exists_or_throw sample_fs [''srv''] ''data/a'' = Inr True"
  "exists_or_throw sample_fs [''srv''] ''none'' = Inr False"
  "exists_or_throw sample_fs [''srv''] ''../none'' = Inr False"
  "exists_or_throw sample_fs [''srv''] ''data'' = Inr True"
  by (simp_all add: exists_or_throw_def local_path_def sample_eval)

lemma sample_canonical: "canonical sample_fs (local_path [''srv''] ''data'') = Inr sample_root"
  by (simp add: canonical_def local_path_def sample_eval)

text \<open>The sample disk once the services have made the directory of the audit log.\<close>

definition sample_fs_logs :: fs where
  "sample_fs_logs = sample_fs\<lparr>tree := ([''srv'', ''logs''], Dir) # tree sample_fs\<rparr>"

lemma sample_services: "construct_services sample_fs [''srv''] = sample_fs_logs"
  by (simp add: construct_services_def delete_service_def rename_service_def directory_service_def audit_parent_def
      sample_fs_logs_def create_directories_def fs_mkdir_def add_entry_def sample_eval)

lemma sample_logs_present:
  "exists_or_throw sample_fs_logs [''srv''] ''data/a'' = Inr True"
  by (simp add: exists_or_throw_def local_path_def sample_fs_logs_def sample_eval)

lemma sample_logs_root: "good_root sample_fs_logs sample_root" "wf_fs sample_fs_logs"
  by (simp_all add: sample_fs_logs_def sample_fs_def sample_root_def wf_fs_def node_at_def valid_name_def good_root_def
      canonical_at_def)

lemma sample_booted:
  "\<exists>s ctx. server_main sample_sockets sample_ssl (\<lambda>p. None) [''srv''] None sample_fs
      [''server'', ''data/a'', ''data/a'', ''9000'', ''none'', ''data''] = Booted (s :: bytes server, sample_root, ctx) \<and>
    disk (srv_store s) = sample_fs_logs"
proof -
  have port: "stoi ''9000'' = Some 9000"
    by (simp add: stoi_def is_digit_def Let_def)
  have cert: "resolveFilePath sample_fs_logs [''srv''] None ''data/a'' = Inr ''data/a''"
    using sample_logs_present by (simp add: resolveFilePath_def)
  have db: "resolveFilePath sample_fs [''srv''] None ''none'' = Inr ''none''"
    using sample_present by (simp add: resolveFilePath_def)
  obtain loaded users where users: "load_users sample_fs [''srv''] None (\<lambda>p. None) ''none'' = Inr (loaded, users)"
    using db by (simp add: load_users_def resolveDbPath_def) (metis surj_pair)
  have root: "resolveStorageRoot sample_fs [''srv''] None ''data'' = (Inr sample_root, sample_fs)"
    using sample_present sample_canonical by (simp add: resolveStorageRoot_def)
  obtain ca where ca: "resolveFilePath sample_fs_logs [''srv''] None ''certs/client-cert.pem'' = Inr ca"
    by (simp add: resolveFilePath_def exists_or_throw_def local_path_def sample_fs_logs_def sample_eval)
  obtain ctx where tls: "tcp_start sample_sockets sample_ssl sample_fs_logs [''srv''] None 9000 ''data/a'' ''data/a'' = Inr (True, ctx)"
    using cert ca by (simp add: tcp_start_def server_initialize_def server_resolveFilePath_def sample_ssl_def sample_sockets_def)
  show ?thesis
    using port users root tls sample_services by (simp add: server_main_def argument_def)
qed

lemma boot_establishes_invariant_witness:
  "\<exists>s ctx. server_main sample_sockets sample_ssl (\<lambda>p. None) [''srv''] None sample_fs
      [''server'', ''data/a'', ''data/a'', ''9000'', ''none'', ''data''] = Booted (s :: bytes server, sample_root, ctx) \<and>
    canonical_at (disk (srv_store s)) sample_root"
proof -
  obtain s ctx where b: "server_main sample_sockets sample_ssl (\<lambda>p. None) [''srv''] None sample_fs
      [''server'', ''data/a'', ''data/a'', ''9000'', ''none'', ''data''] = Booted (s :: bytes server, sample_root, ctx)"
    using sample_booted by blast
  from boot_establishes_invariant [OF sample_fs_wf _ b] b show ?thesis
    by (auto simp: no_slash_def)
qed

end
