(* ===== verification/Confinement.thy ===== *)
theory Confinement
  imports Server_Invariant Storage_Operations
begin

text \<open>
  What a server can do to the disk around its storage.  The prefix test of \<open>resolvePath\<close> compares
  strings, so that what it protects is not the storage root but an area: the root, its siblings whose
  names extend the root's name, and everything below them.  If no symbolic link lies in this area and
  no file in it is also linked from outside, no sequence of clients changes anything outside: each
  operation on the file system, each service and each upload session keeps to the area, and the
  contract \<open>storage_invariant\<close> carries this over to whole runs.
\<close>

section \<open>The storage area\<close>

fun in_area :: "apath \<Rightarrow> apath \<Rightarrow> bool" where
  "in_area [] p = True"
| "in_area [c] (d # p) = prefix c d"
| "in_area (c # e # cs) (d # p) = (c = d \<and> in_area (e # cs) p)"
| "in_area (c # cs) [] = False"

lemma in_area_iff:
  "rt \<noteq> [] \<Longrightarrow> in_area rt p \<longleftrightarrow> (\<exists>ext rest. p = butlast rt @ (last rt @ ext) # rest)"
proof (induction rt p rule: in_area.induct)
  case (2 c d p)
  then show ?case by (auto simp: prefix_def)
next
  case (3 c e cs d p)
  then show ?case by (cases p) auto
qed auto

lemma in_area_append: "in_area rt p \<Longrightarrow> in_area rt (p @ q)"
  by (induction rt p rule: in_area.induct) auto

lemma in_area_prefix: "in_area rt p \<Longrightarrow> prefix p q \<Longrightarrow> in_area rt q"
  by (auto simp: prefix_def in_area_append)

lemma in_area_parent: "rt \<noteq> [] \<Longrightarrow> \<not> in_area rt (butlast rt)"
proof
  assume "rt \<noteq> []" "in_area rt (butlast rt)"
  then obtain ext rest where "butlast rt = butlast rt @ (last rt @ ext) # rest"
    by (auto simp: in_area_iff)
  then show False by (metis list.distinct(1) self_append_conv)
qed

lemma in_area_cases:
  assumes "in_area rt p" and "prefix q p" and "rt \<noteq> []"
  shows "in_area rt q \<or> prefix q (butlast rt)"
proof -
  obtain ext rest where "p = butlast rt @ (last rt @ ext) # rest"
    using assms(1,3) by (auto simp: in_area_iff)
  then have "prefix q (butlast rt) \<or> (\<exists>r. q = butlast rt @ r \<and> prefix r ((last rt @ ext) # rest))"
    using assms(2) by (metis prefix_append)
  then show ?thesis
  proof
    assume "\<exists>r. q = butlast rt @ r \<and> prefix r ((last rt @ ext) # rest)"
    then obtain r where r: "q = butlast rt @ r" "prefix r ((last rt @ ext) # rest)" by blast
    then show ?thesis
      using assms(3) by (cases r) (auto simp: in_area_iff)
  qed simp
qed

lemma in_area_no_trailing:
  assumes "in_area rt p" and "rt \<noteq> []" and "last rt \<noteq> []"
  shows "in_area rt (no_trailing p)"
proof -
  obtain ext rest where "p = butlast rt @ (last rt @ ext) # rest"
    using assms(1,2) by (auto simp: in_area_iff)
  then show ?thesis
    using assms(2,3) by (cases "rest = []") (auto simp: in_area_iff no_trailing_def butlast_append)
qed

section \<open>A disk whose storage area is closed\<close>

definition area_ok :: "apath \<Rightarrow> fs \<Rightarrow> bool" where
  "area_ok rt f \<longleftrightarrow> rt \<noteq> [] \<and> list_all valid_name rt \<and> wf_fs f \<and> node_at f (butlast rt) = Some Dir \<and>
     (\<forall>p t. in_area rt p \<longrightarrow> node_at f p \<noteq> Some (Symlink t)) \<and>
     (\<forall>p q i. in_area rt p \<longrightarrow> \<not> in_area rt q \<longrightarrow> node_at f p = Some (File i) \<longrightarrow> node_at f q \<noteq> Some (File i))"

lemma area_okD:
  assumes "area_ok rt f"
  shows "rt \<noteq> []" "list_all valid_name rt" "list_all no_slash rt" "wf_fs f" "last rt \<noteq> []"
    "node_at f (butlast rt) = Some Dir" "in_area rt p \<Longrightarrow> node_at f p \<noteq> Some (Symlink t)"
    "in_area rt p \<Longrightarrow> \<not> in_area rt q \<Longrightarrow> node_at f p = Some (File i) \<Longrightarrow> node_at f q \<noteq> Some (File i)"
proof -
  show *: "rt \<noteq> []" "list_all valid_name rt" "wf_fs f" "node_at f (butlast rt) = Some Dir"
    "in_area rt p \<Longrightarrow> node_at f p \<noteq> Some (Symlink t)"
    "in_area rt p \<Longrightarrow> \<not> in_area rt q \<Longrightarrow> node_at f p = Some (File i) \<Longrightarrow> node_at f q \<noteq> Some (File i)"
    using assms unfolding area_ok_def by blast+
  then show "list_all no_slash rt" "last rt \<noteq> []"
    using last_in_set [of rt] by (auto simp: list_all_iff valid_name_no_slash) (auto simp: valid_name_def)
qed

definition stays :: "apath \<Rightarrow> fs \<Rightarrow> fs \<Rightarrow> bool" where
  "stays rt f f' \<longleftrightarrow> wf_fs f' \<and> next_inode f \<le> next_inode f' \<and>
     (\<forall>p. \<not> in_area rt p \<longrightarrow> node_at f' p = node_at f p) \<and>
     (\<forall>p i. \<not> in_area rt p \<longrightarrow> node_at f p = Some (File i) \<longrightarrow> content f' i = content f i) \<and>
     (\<forall>p n. in_area rt p \<longrightarrow> node_at f' p = Some n \<longrightarrow>
        n = Dir \<or> (\<exists>i. n = File i \<and> next_inode f \<le> i) \<or> (\<exists>q. in_area rt q \<and> node_at f q = Some n))"

lemma staysI:
  assumes "wf_fs f'" and "next_inode f \<le> next_inode f'"
    and "\<And>p. \<not> in_area rt p \<Longrightarrow> node_at f' p = node_at f p"
    and "\<And>p i. \<not> in_area rt p \<Longrightarrow> node_at f p = Some (File i) \<Longrightarrow> content f' i = content f i"
    and "\<And>p n. in_area rt p \<Longrightarrow> node_at f' p = Some n \<Longrightarrow>
      n = Dir \<or> (\<exists>i. n = File i \<and> next_inode f \<le> i) \<or> (\<exists>q. in_area rt q \<and> node_at f q = Some n)"
  shows "stays rt f f'"
  using assms unfolding stays_def by blast

lemma staysD:
  assumes "stays rt f f'"
  shows "wf_fs f'" "next_inode f \<le> next_inode f'" "\<not> in_area rt p \<Longrightarrow> node_at f' p = node_at f p"
    "\<not> in_area rt p \<Longrightarrow> node_at f p = Some (File i) \<Longrightarrow> content f' i = content f i"
    "in_area rt p \<Longrightarrow> node_at f' p = Some n \<Longrightarrow>
      n = Dir \<or> (\<exists>i. n = File i \<and> next_inode f \<le> i) \<or> (\<exists>q. in_area rt q \<and> node_at f q = Some n)"
  using assms unfolding stays_def by blast+

lemma stays_refl: "wf_fs f \<Longrightarrow> stays rt f f"
  by (rule staysI) auto

lemma stays_trans:
  assumes "stays rt f g" and "stays rt g h"
  shows "stays rt f h"
proof (rule staysI)
  show "wf_fs h" "next_inode f \<le> next_inode h" "\<And>p. \<not> in_area rt p \<Longrightarrow> node_at h p = node_at f p"
    using staysD(1-3) [OF assms(1)] staysD(1-3) [OF assms(2)] by auto
  show "\<And>p i. \<not> in_area rt p \<Longrightarrow> node_at f p = Some (File i) \<Longrightarrow> content h i = content f i"
    using staysD(3,4) [OF assms(1)] staysD(4) [OF assms(2)] by metis
  fix p n assume "in_area rt p" "node_at h p = Some n"
  with staysD(5) [OF assms(2)] consider "n = Dir" | i where "n = File i" "next_inode g \<le> i"
    | q where "in_area rt q" "node_at g q = Some n" by blast
  then show "n = Dir \<or> (\<exists>i. n = File i \<and> next_inode f \<le> i) \<or> (\<exists>q. in_area rt q \<and> node_at f q = Some n)"
    using staysD(2) [OF assms(1)] staysD(5) [OF assms(1)] by cases (auto intro: order_trans)
qed

lemma stays_area_ok:
  assumes "area_ok rt f" and "stays rt f f'"
  shows "area_ok rt f'"
proof -
  note a = area_okD [OF assms(1)] and s = staysD [OF assms(2)]
  have "node_at f' p \<noteq> Some (Symlink t)" if "in_area rt p" for p t
    using s(5) [OF that] a(7) by blast
  moreover have "node_at f' q \<noteq> Some (File i)" if "in_area rt p" "\<not> in_area rt q" "node_at f' p = Some (File i)" for p q i
  proof
    assume "node_at f' q = Some (File i)"
    then have q: "node_at f q = Some (File i)"
      using s(3) that(2) by simp
    then have "i < next_inode f"
      using wf_fs_entryD(3) [OF a(4) q] by (cases "q = []") auto
    with s(5) [OF that(1,3)] obtain r where "in_area rt r" "node_at f r = Some (File i)" by auto
    then show False
      using a(8) that(2) q by blast
  qed
  moreover have "node_at f' (butlast rt) = Some Dir"
    using s(3) in_area_parent [OF a(1)] a(6) by simp
  ultimately show ?thesis
    using a(1,2) s(1) unfolding area_ok_def by blast
qed

section \<open>Names in the area\<close>

lemma walk_straight:
  assumes "walk k f cur cs = Inr q" and "list_all valid_name cs"
    and "\<And>p t. prefix p (cur @ cs) \<Longrightarrow> node_at f p \<noteq> Some (Symlink t)"
  shows "q = cur @ cs"
  using assms
proof (induction cs arbitrary: cur)
  case (Cons c cs)
  have c: "c \<noteq> []" "c \<noteq> ''.''" "c \<noteq> ''..''" "denied f SearchDir cur = None"
    using Cons.prems(1,2) by (auto simp: valid_name_def split: option.splits)
  have "node_at f (cur @ [c]) \<noteq> Some (Symlink t)" for t
    by (rule Cons.prems(3)) simp
  then show ?case
    using Cons.IH [of "cur @ [c]"] Cons.prems c by (auto split: option.splits node.splits if_splits)
qed simp

lemma area_straight:
  assumes "area_ok rt f" and "in_area rt p" and "prefix q p"
  shows "node_at f q \<noteq> Some (Symlink t)"
proof (cases "in_area rt q")
  case False
  then obtain r where r: "butlast rt = q @ r"
    using in_area_cases [OF assms(2,3) area_okD(1) [OF assms(1)]] by (auto simp: prefix_def)
  have "node_at f q = Some Dir"
    using wf_fs_prefix_dir [OF area_okD(4) [OF assms(1)], of q r Dir] area_okD(6) [OF assms(1)] r
    by (cases "r = []") auto
  then show ?thesis by simp
qed (rule area_okD(7) [OF assms(1)])

lemma locate_entry_area:
  assumes "area_ok rt f" and "in_area rt p" and "list_all valid_name (butlast p)" and "locate_entry f p = Inr q"
  shows "q = p"
proof -
  obtain d where d: "q = d @ [last p]" "p \<noteq> []" "walk max_links f [] (butlast p) = Inr d"
    using locate_entry_Inr [OF area_okD(4) [OF assms(1)] assms(4)] by auto
  have "d = [] @ butlast p"
    using walk_straight [OF d(3) assms(3)] area_straight [OF assms(1,2)] prefix_order.trans [OF _ prefixeq_butlast [of p]]
    by auto
  then show ?thesis
    using d by simp
qed

lemma locate_area:
  assumes "area_ok rt f" and "in_area rt p" and "list_all valid_name (butlast (no_trailing p))"
    and "locate f p = Inr (q, b)"
  shows "q = no_trailing p" and "in_area rt q"
proof -
  have a: "in_area rt (no_trailing p)"
    using in_area_no_trailing [OF assms(2)] area_okD(1,5) [OF assms(1)] by simp
  have "locate_entry f (no_trailing p) = Inr q"
    using assms(4) by (auto simp: locate_def no_trailing_def split: if_splits sum.splits)
  then show "q = no_trailing p"
    by (rule locate_entry_area [OF assms(1) a assms(3)])
  with a show "in_area rt q"
    by simp
qed

lemma resolvePath_area:
  assumes "area_ok rt f" and "resolvePath rt f s = Inr r"
  shows "normal_path r \<and> in_area rt r \<and> list_all no_slash r"
proof -
  note a = area_okD [OF assms(1)]
  have n: "normal_path r" "list_all no_slash r"
    using resolvePath_normal [OF a(4,3) assms(2)] by simp_all
  have "lexically_normal rt = rt"
    using a(2) by (simp add: lexically_normal_id normal_path_def)
  then have "prefix (path_string rt) (path_string r)"
    using assms(2) lexically_normal_id [OF n(1)]
    by (auto simp: resolvePath_def Let_def split: sum.splits if_splits)
  then show ?thesis
    using n prefix_path_string [OF a(3) n(2) a(1,5)] in_area_iff [OF a(1)] by simp
qed

lemma normal_locate_area:
  assumes "area_ok rt f" and "normal_path r" and "in_area rt r" and "locate f r = Inr (q, b)"
  shows "in_area rt q"
  using locate_area(2) [OF assms(1,3) list_all_butlast [OF normal_path_no_trailing [OF assms(2)]] assms(4)] .

section \<open>The operations of the file system stay in the area\<close>

lemma stays_writes:
  assumes "wf_fs f" and "writes_inode i f f'" and "\<And>q. \<not> in_area rt q \<Longrightarrow> node_at f q \<noteq> Some (File i)"
  shows "stays rt f f'"
proof -
  note w = writes_inodeD [OF assms(2)]
  show ?thesis
    using assms(1,3) w(1-4,8) by (intro staysI) (auto intro!: w(7))
qed

lemma stays_del:
  assumes "wf_fs (del_entry q f)" and "in_area rt q" and "q \<noteq> []"
  shows "stays rt f (del_entry q f)"
  using assms by (intro staysI) (auto simp: node_at_del_entry split: if_splits)

lemma stays_remove:
  assumes "area_ok rt f" and "in_area rt p" and "list_all valid_name (butlast (no_trailing p))" and "list_all no_slash p"
  shows "stays rt f (snd (snd (fs_remove f p)))"
proof -
  obtain ok ec f' where r: "fs_remove f p = (ok, ec, f')"
    by (metis prod.collapse)
  note wf = area_okD(4) [OF assms(1)]
  show ?thesis
  proof (cases ok)
    case True
    then obtain q b where q: "locate f p = Inr (q, b)" "f' = del_entry q f"
      using fs_remove_result [OF r] by auto
    have "wf_fs f'"
      using wf_fs_remove [OF wf assms(4)] r by simp
    then have "stays rt f f'"
      using locate_area(2) [OF assms(1-3) q(1)] locate_valid(1) [OF wf q(1) assms(4)] stays_del q(2) by blast
    with r show ?thesis by simp
  next
    case False
    then show ?thesis
      using fs_remove_result [OF r] r stays_refl [OF wf] by simp
  qed
qed

lemma stays_add_dir:
  assumes "wf_fs (add_entry q Dir f)" and "in_area rt q" and "q \<noteq> []"
  shows "stays rt f (add_entry q Dir f)"
  using assms by (intro staysI) (auto simp: node_at_add_entry split: if_splits)

lemma stays_mkdir:
  assumes "area_ok rt f" and "list_all valid_name p" and "in_area rt p \<or> prefix p (butlast rt)"
    and "fs_mkdir f p = Inr f'"
  shows "stays rt f f'"
  using assms(4)
proof (cases rule: fs_mkdir_cases)
  case (1 q b)
  note a = area_okD [OF assms(1)]
  have ns: "list_all no_slash p"
    using assms(2) by (auto simp: list_all_iff valid_name_no_slash)
  note v = locate_valid [OF a(4) 1(1) ns]
  have wf: "wf_fs f'"
    by (rule wf_fs_mkdir [OF a(4) ns assms(4)])
  have "p \<noteq> [] \<Longrightarrow> valid_name (last p)"
    using assms(2) by (simp add: list_all_iff)
  then have nt: "no_trailing p = p"
    by (auto simp: no_trailing_def valid_name_def)
  show ?thesis
  proof (cases "in_area rt p")
    case True
    then show ?thesis
      using locate_area(2) [OF assms(1) True _ 1(1)] list_all_butlast [OF assms(2)] nt 1(3) v(1) wf
        stays_add_dir [of q f rt] by simp
  next
    case False
    then obtain r where r: "butlast rt = p @ r"
      using assms(3) by (auto simp: prefix_def)
    have above: "node_at f u = Some Dir" if u: "prefix u p" for u
    proof -
      obtain w where "p = u @ w" using u by (auto simp: prefix_def)
      then show ?thesis
        using wf_fs_prefix_dir [OF a(4), of u "w @ r" Dir] a(6) r by (cases "w @ r = []") auto
    qed
    have "locate_entry f p = Inr q"
      using 1(1) nt by (auto simp: locate_def no_trailing_def split: if_splits sum.splits)
    then obtain d where d: "q = d @ [last p]" "p \<noteq> []" "walk max_links f [] (butlast p) = Inr d"
      using locate_entry_Inr [OF a(4)] by blast
    have "prefix u p" if "prefix u ([] @ butlast p)" for u
      using that prefix_order.trans [OF _ prefixeq_butlast [of p]] by simp
    then have "d = [] @ butlast p"
      using above list_all_butlast [OF assms(2)] by (intro walk_straight [OF d(3)]) auto
    then have "node_at f q = Some Dir"
      using d above [of p] by simp
    then show ?thesis
      using 1(2) by simp
  qed
qed

lemma stays_mkdirs:
  assumes "area_ok rt f" and "list_all valid_name (pre @ cs)" and "in_area rt (pre @ cs)"
  shows "stays rt f (snd (snd (mkdirs f pre cs b)))"
  using assms
proof (induction f pre cs b rule: mkdirs.induct)
  case (1 f pre b)
  then show ?case by (simp add: stays_refl area_okD(4))
next
  case (2 f pre c cs b)
  have here: "list_all valid_name (pre @ [c])" "in_area rt (pre @ [c]) \<or> prefix (pre @ [c]) (butlast rt)"
    using "2.prems"(2) in_area_cases [OF "2.prems"(3), of "pre @ [c]"] area_okD(1) [OF "2.prems"(1)] by auto
  show ?case
  proof (cases "status f (pre @ [c])")
    case (Found q n)
    then show ?thesis
      using 2 by (simp add: stays_refl area_okD(4))
  next
    case NotFound
    show ?thesis
    proof (cases "fs_mkdir f (pre @ [c])")
      case (Inr f1)
      have s: "stays rt f f1"
        by (rule stays_mkdir [OF "2.prems"(1) here Inr])
      with "2.IH"(2) [OF NotFound Inr stays_area_ok [OF "2.prems"(1) s]] "2.prems" NotFound Inr show ?thesis
        by (auto intro: stays_trans [OF s])
    qed (use NotFound "2.prems" in \<open>simp add: stays_refl area_okD(4)\<close>)
  qed (use "2.prems" in \<open>simp add: stays_refl area_okD(4)\<close>)
qed

lemma stays_create_directories:
  assumes "area_ok rt f" and "normal_path p" and "in_area rt p"
  shows "stays rt f (snd (snd (create_directories f p)))"
  using stays_mkdirs [OF assms(1), of "[]" "no_trailing p" False] normal_path_no_trailing [OF assms(2)]
    in_area_no_trailing [OF assms(3)] area_okD(1,5) [OF assms(1)]
  by (simp add: create_directories_def no_trailing_def)

lemma stays_rename:
  assumes "area_ok rt f" and "normal_path p" "in_area rt p" and "normal_path q" "in_area rt q"
    and "fs_rename f p q = Inr f'"
  shows "stays rt f f'"
proof -
  note a = area_okD [OF assms(1)]
  have ns: "list_all no_slash p" "list_all no_slash q"
    using assms(2,4) by (auto dest: normal_path_no_slash)
  show ?thesis
    using a(4) ns(2) assms(6) ns(1)
  proof (cases rule: fs_rename_cases)
    case same
    then show ?thesis using stays_refl [OF a(4)] by simp
  next
    case (moved src dst n b b')
    have src: "in_area rt src" and dst: "in_area rt dst"
      using normal_locate_area [OF assms(1-3) moved(1)] normal_locate_area [OF assms(1,4,5) moved(2)] .
    note m = node_at_moved [OF a(4) moved(5)]
    have below: "in_area rt r" if "prefix src r \<or> prefix dst r" for r
      using that src dst in_area_prefix by blast
    show ?thesis
    proof (rule staysI)
      show "wf_fs f'"
        by (rule wf_fs_rename [OF a(4) ns assms(6)])
      show "next_inode f \<le> next_inode f'"
        using fs_rename_next_inode [OF assms(6)] by simp
      show "node_at f' r = node_at f r" if "\<not> in_area rt r" for r
        using that below m moved(6) by auto
      show "content f' i = content f i" for i
        using moved(6) by (simp add: move_entries_def)
      show "k = Dir \<or> (\<exists>i. k = File i \<and> next_inode f \<le> i) \<or> (\<exists>q. in_area rt q \<and> node_at f q = Some k)"
        if "in_area rt r" "node_at f' r = Some k" for r k
        using that m moved(6) in_area_append [OF src] by (auto split: if_splits)
    qed
  qed
qed

text \<open>An opened file is one of the area, or a new one.\<close>

lemma stays_open_trunc:
  assumes "area_ok rt f" and "in_area rt p" and "list_all valid_name (butlast (no_trailing p))" and "list_all no_slash p"
    and "open_trunc k f p = Inr (i, f')"
  shows "stays rt f f' \<and> (\<forall>q. \<not> in_area rt q \<longrightarrow> node_at f' q \<noteq> Some (File i))"
proof -
  note a = area_okD [OF assms(1)]
  obtain q b where q: "locate f p = Inr (q, b)" "\<not> b"
    using assms(5) by (auto split: sum.splits bool.splits)
  have area: "in_area rt q"
    by (rule locate_area(2) [OF assms(1-3) q(1)])
  note v = locate_valid [OF a(4) q(1) assms(4)]
  have wf: "wf_fs f'"
    by (rule wf_open_trunc [OF a(4) assms(4,5)])
  have out: "node_at f r \<noteq> Some (File j)" if "\<not> in_area rt r" "j = next_inode f \<or> node_at f q = Some (File j)" for r j
    using that wf_fs_entryD(3) [OF a(4), of r "File j"] a(8) [OF area] by (cases "r = []") auto
  have *: "f' = snd (create_file q f) \<and> i = next_inode f \<and> node_at f q = None \<or>
      f' = f\<lparr>content := (content f)(i := [])\<rparr> \<and> node_at f q = Some (File i)"
    using assms(5) q a(7) [OF area]
    by (auto simp: create_file_def split: option.splits node.splits)
  then have n: "node_at f' r = (if r = q then Some (File i) else node_at f r)" for r
    using v(1) by (auto simp: create_file_def node_at_add_entry)
  have "stays rt f f'"
  proof (rule staysI)
    show "wf_fs f'" by (rule wf)
    show "next_inode f \<le> next_inode f'"
      using * by (auto simp: create_file_def)
    show "node_at f' r = node_at f r" if "\<not> in_area rt r" for r
      using that area n by auto
    show "content f' j = content f j" if "\<not> in_area rt r" "node_at f r = Some (File j)" for r j
    proof -
      have "j \<noteq> i"
        using out [OF that(1)] that(2) * by auto
      then show ?thesis
        using * by (auto simp: create_file_def)
    qed
    show "m = Dir \<or> (\<exists>i. m = File i \<and> next_inode f \<le> i) \<or> (\<exists>q. in_area rt q \<and> node_at f q = Some m)"
      if "in_area rt r" "node_at f' r = Some m" for r m
      using that * n by (auto split: if_splits)
  qed
  moreover have "node_at f' r \<noteq> Some (File i)" if "\<not> in_area rt r" for r
    using that area n out [OF that, of i] * by auto
  ultimately show ?thesis by blast
qed

section \<open>What is read\<close>

lemma walk_straight_trailing:
  assumes "walk k f cur cs = Inr q" and "list_all (\<lambda>c. valid_name c \<or> c = []) cs"
    and "\<And>p t. prefix p (cur @ filter (\<lambda>c. c \<noteq> []) cs) \<Longrightarrow> node_at f p \<noteq> Some (Symlink t)"
  shows "q = cur @ filter (\<lambda>c. c \<noteq> []) cs"
  using assms
proof (induction cs arbitrary: cur)
  case (Cons c cs)
  have d: "denied f SearchDir cur = None"
    using Cons.prems(1) by (auto split: option.splits)
  show ?case
  proof (cases "c = []")
    case False
    then have c: "c \<noteq> ''.''" "c \<noteq> ''..''"
      using Cons.prems(2) by (auto simp: valid_name_def)
    have "node_at f (cur @ [c]) \<noteq> Some (Symlink t)" for t
      by (rule Cons.prems(3)) (use False in simp)
    then show ?thesis
      using Cons.IH [of "cur @ [c]"] Cons.prems c d False by (auto split: option.splits node.splits if_splits)
  qed (use Cons d in auto)
qed simp

lemma normal_path_elements:
  assumes "normal_path r"
  shows "list_all (\<lambda>c. valid_name c \<or> c = []) r" and "filter (\<lambda>c. c \<noteq> []) r = no_trailing r"
proof -
  have *: "filter (\<lambda>c. c \<noteq> []) q = q \<and> (q \<noteq> [] \<longrightarrow> last q \<noteq> [])" if "list_all valid_name q" for q
    using that by (auto simp: list_all_iff valid_name_def filter_id_conv dest: last_in_set)
  show "list_all (\<lambda>c. valid_name c \<or> c = []) r"
    using assms by (auto simp: normal_path_def list_all_iff)
  show "filter (\<lambda>c. c \<noteq> []) r = no_trailing r"
    using assms * by (auto simp: normal_path_def no_trailing_def)
qed

lemma status_area:
  assumes "area_ok rt f" and "normal_path r" and "in_area rt r" and "status f r = Found q n"
  shows "in_area rt q \<and> node_at f q = Some n"
proof -
  have w: "walk max_links f [] r = Inr q" "node_at f q = Some n"
    using assms(4) by (auto simp: status_def split: sum.splits option.splits if_splits)
  have a: "in_area rt (no_trailing r)"
    using in_area_no_trailing [OF assms(3)] area_okD(1,5) [OF assms(1)] by simp
  have "q = [] @ filter (\<lambda>c. c \<noteq> []) r"
    using area_straight [OF assms(1) a] normal_path_elements [OF assms(2)]
    by (intro walk_straight_trailing [OF w(1)]) simp_all
  with a w(2) show ?thesis
    by (simp add: normal_path_elements [OF assms(2)])
qed

lemma download_area:
  assumes "area_ok rt f" and "prepareDownload E rt f i s = Inr m"
  shows "\<exists>p j. in_area rt p \<and> node_at f p = Some (File j) \<and>
    (\<forall>d. open_read f (dm_full_path m) = Inr d \<longrightarrow> d = content f j)"
proof -
  obtain r q j where r: "resolvePath rt f s = Inr r" "status f r = Found q (File j)" "dm_full_path m = r"
    using assms(2)
    by (auto simp: prepareDownload_def file_size_def Let_def split: sum.splits if_splits file_status.splits node.splits)
  have "in_area rt q \<and> node_at f q = Some (File j)"
    using resolvePath_area [OF assms(1) r(1)] status_area [OF assms(1) _ _ r(2)] by blast
  with r show ?thesis
    by (intro exI [of _ q] exI [of _ j]) (auto simp: open_read_def split: option.splits)
qed

lemma listing_area:
  assumes "area_ok rt f" and "listDirectory rt f s = Inr es"
  shows "\<exists>p. in_area rt p \<and> node_at f p = Some Dir \<and> entry_name ` set es \<subseteq> set (children f p)"
proof -
  obtain r q where r: "resolvePath rt f s = Inr r" "status f r = Found q Dir"
    using assms(2) by (auto simp: listDirectory_def is_directory_iff split: sum.splits if_splits)
  then have "entry_name ` set es \<subseteq> set (children f q)"
    using assms(2)
    by (auto simp: listDirectory_def list_dir_def fs_exists_def is_directory_def entry_of_def Let_def
        split: option.splits)
  moreover have "in_area rt q \<and> node_at f q = Some Dir"
    using resolvePath_area [OF assms(1) r(1)] status_area [OF assms(1) _ _ r(2)] by blast
  ultimately show ?thesis by blast
qed

section \<open>The services\<close>

lemma deletePath_stays:
  assumes "area_ok (root env) (disk s)"
  shows "stays (root env) (disk s) (disk (snd (deletePath env s p u)))"
proof -
  note wf = area_okD(4) [OF assms]
  have "stays (root env) (disk s) (snd (snd (fs_remove (disk s) r)))"
    if "resolvePath (root env) (disk s) p = Inr r" for r
    using resolvePath_area [OF assms that] normal_path_no_trailing [of r]
    by (intro stays_remove [OF assms]) (simp_all add: list_all_butlast)
  then show ?thesis
    using stays_refl [OF wf]
    by (auto simp: deletePath_def Let_def delete_failed_def delete_logAudit_def
        split: sum.splits prod.splits bool.splits)
qed

lemma removeDirectory_stays:
  assumes "area_ok (root env) (disk s)"
  shows "stays (root env) (disk s) (disk (snd (removeDirectory env s p u)))"
proof -
  note wf = area_okD(4) [OF assms]
  have "stays (root env) (disk s) (snd (snd (fs_remove (disk s) r)))"
    if "resolvePath (root env) (disk s) p = Inr r" for r
    using resolvePath_area [OF assms that] normal_path_no_trailing [of r]
    by (intro stays_remove [OF assms]) (simp_all add: list_all_butlast)
  then show ?thesis
    using stays_refl [OF wf]
    by (auto simp: removeDirectory_def Let_def directory_failed_def directory_logAudit_def
        split: sum.splits prod.splits bool.splits)
qed

lemma createDirectory_stays:
  assumes "area_ok (root env) (disk s)"
  shows "stays (root env) (disk s) (disk (snd (createDirectory env s p u)))"
proof -
  note wf = area_okD(4) [OF assms]
  have "stays (root env) (disk s) (snd (snd (create_directories (disk s) r)))"
    if "resolvePath (root env) (disk s) p = Inr r" for r
    using resolvePath_area [OF assms that] by (intro stays_create_directories [OF assms]) simp_all
  then show ?thesis
    using stays_refl [OF wf]
    by (auto simp: createDirectory_def Let_def directory_failed_def directory_logAudit_def
        split: sum.splits prod.splits bool.splits option.splits)
qed

lemma renamePath_stays:
  assumes "area_ok (root env) (disk s)"
  shows "stays (root env) (disk s) (disk (snd (renamePath env s p q u)))"
proof -
  note wf = area_okD(4) [OF assms]
  have "stays (root env) (disk s) f'" if "resolvePath (root env) (disk s) x = Inr a"
    "resolvePath (root env) (disk s) y = Inr b" "fs_rename (disk s) a b = Inr f'" for x y a b f'
    using resolvePath_area [OF assms that(1)] resolvePath_area [OF assms that(2)]
      stays_rename [OF assms _ _ _ _ that(3)] by blast
  then show ?thesis
    using stays_refl [OF wf]
    by (auto simp: renamePath_def Let_def rename_failed_def rename_logAudit_def split: sum.splits)
qed

section \<open>Uploads\<close>

text \<open>A pending upload has a target in the area and writes to an inode that no entry outside has.\<close>

definition session_inside :: "apath \<Rightarrow> fs \<Rightarrow> 'c upload_session \<Rightarrow> bool" where
  "session_inside rt f se \<longleftrightarrow>
     in_area rt (us_target_path se) \<and> list_all no_slash (us_target_path se) \<and>
     list_all valid_name (butlast (no_trailing (us_target_path se))) \<and>
     (\<forall>q. \<not> in_area rt q \<longrightarrow> node_at f q \<noteq> Some (File (us_inode se)))"

definition uploads_inside :: "apath \<Rightarrow> fs \<Rightarrow> 'c sessions \<Rightarrow> bool" where
  "uploads_inside rt f ss \<longleftrightarrow> (\<forall>uid se. ss uid = Some se \<longrightarrow> session_inside rt f se)"

lemma session_inside_stays: "session_inside rt f se \<Longrightarrow> stays rt f f' \<Longrightarrow> session_inside rt f' se"
  using staysD(3) by (auto simp: session_inside_def)

lemma uploads_inside_stays: "uploads_inside rt f ss \<Longrightarrow> stays rt f f' \<Longrightarrow> uploads_inside rt f' ss"
  using session_inside_stays by (fastforce simp: uploads_inside_def)

lemma uploads_inside_upd:
  "uploads_inside rt f ss \<Longrightarrow> session_inside rt f se \<Longrightarrow> uploads_inside rt f (ss(uid \<mapsto> se))"
  "uploads_inside rt f ss \<Longrightarrow> uploads_inside rt f (ss(uid := None))"
  by (auto simp: uploads_inside_def)

lemma session_inside_cong:
  "us_target_path se' = us_target_path se \<Longrightarrow> us_inode se' = us_inode se \<Longrightarrow>
    session_inside rt f se \<Longrightarrow> session_inside rt f se'"
  by (simp add: session_inside_def)

definition upload_stays :: "apath \<Rightarrow> fs \<Rightarrow> 'c sessions \<times> fs \<Rightarrow> bool" where
  "upload_stays rt f r \<longleftrightarrow> stays rt f (snd r) \<and> uploads_inside rt (snd r) (fst r)"

lemma upload_target:
  assumes "normal_path dir" and "in_area rt dir" and "rt \<noteq> []" and "last rt \<noteq> []" and "valid_filename nm"
  shows "path_append dir (path_of nm) = no_trailing dir @ [nm]"
    and "in_area rt (no_trailing dir @ [nm])" and "list_all valid_name (butlast (no_trailing (no_trailing dir @ [nm])))"
    and "list_all no_slash (no_trailing dir @ [nm])"
proof -
  have nm: "no_slash nm" "nm \<noteq> []"
    using assms(5) by (auto simp: valid_filename_def no_slash_def)
  then show "path_append dir (path_of nm) = no_trailing dir @ [nm]"
    by (simp add: path_of_name path_append_def no_trailing_def)
  show "in_area rt (no_trailing dir @ [nm])"
    by (rule in_area_append) (rule in_area_no_trailing [OF assms(2-4)])
  show "list_all valid_name (butlast (no_trailing (no_trailing dir @ [nm])))"
    using nm normal_path_no_trailing [OF assms(1)] by (simp add: no_trailing_def [of "no_trailing dir @ [nm]"])
  show "list_all no_slash (no_trailing dir @ [nm])"
    using nm normal_path_no_trailing [OF assms(1)] by (auto simp: list_all_iff valid_name_no_slash)
qed

lemma beginUpload_stays:
  assumes "area_ok rt f" and "uploads_inside rt f ss"
  shows "upload_stays rt f (snd (beginUpload E rt ss f uid rd nm sz h))"
proof -
  note a = area_okD [OF assms(1)]
  have same: "upload_stays rt f (ss, f)"
    using assms(2) stays_refl [OF a(4)] by (simp add: upload_stays_def)
  show ?thesis
  proof (cases "ss uid = None \<and> valid_filename nm")
    case True
    show ?thesis
    proof (cases "resolvePath rt f rd")
      case (Inr dir)
      define f1 where "f1 = (if \<not> fs_exists f dir then snd (snd (create_directories f dir)) else f)"
      have dir: "normal_path dir" "in_area rt dir"
        using resolvePath_area [OF assms(1) Inr] by simp_all
      have s1: "stays rt f f1"
        using stays_create_directories [OF assms(1) dir] stays_refl [OF a(4)] by (simp add: f1_def)
      define target where "target = path_append dir (path_of nm)"
      note t0 = upload_target [OF dir a(1,5), of nm]
      have t: "in_area rt target" "list_all valid_name (butlast (no_trailing target))" "list_all no_slash target"
        using t0(2-4) True unfolding target_def t0(1) [OF conjunct2 [OF True]] by blast+
      have eq: "beginUpload E rt ss f uid rd nm sz h =
        (case open_trunc max_links f1 target of
           Inl e \<Rightarrow> (UploadError ''Could not open target file for writing'', ss, f1)
         | Inr (i, f) \<Rightarrow>
             (case evp_new E of
                None \<Rightarrow> (UploadError ''Failed to initialize digest context'', ss, f)
              | Some ctx \<Rightarrow>
                  (UploadOk,
                   ss(uid \<mapsto>
                     \<lparr>us_upload_id = uid, us_filename = nm,
                      us_target_path = target, us_expected_size = sz,
                      us_received_bytes = 0, us_expected_sha256 = h,
                      us_file_stream = os_opened i, us_md_ctx = ctx, us_active = True\<rparr>),
                   f)))"
        unfolding beginUpload_def f1_def target_def Let_def
        using True Inr by (simp del: open_trunc.simps)
      show ?thesis
      proof (cases "open_trunc max_links f1 target")
        case (Inl e)
        then show ?thesis
          using s1 uploads_inside_stays [OF assms(2) s1] by (simp add: eq upload_stays_def)
      next
        case (Inr x)
        obtain i f2 where x: "x = (i, f2)" by force
        have o: "stays rt f1 f2" "\<forall>q. \<not> in_area rt q \<longrightarrow> node_at f2 q \<noteq> Some (File i)"
          using stays_open_trunc [OF stays_area_ok [OF assms(1) s1] t] Inr x by blast+
        then have s2: "stays rt f f2"
          using stays_trans [OF s1] by blast
        then show ?thesis
          using uploads_inside_stays [OF assms(2) s2] o t True Inr x
          by (cases "evp_new E")
            (auto simp: eq upload_stays_def session_inside_def os_opened_def intro!: uploads_inside_upd)
      qed
    qed (use True same in \<open>simp add: beginUpload_def\<close>)
  qed (use same in \<open>auto simp: beginUpload_def\<close>)
qed

lemma writeChunk_stays:
  assumes "area_ok rt f" and "uploads_inside rt f ss"
  shows "upload_stays rt f (snd (writeChunk E ss f uid off d))"
proof -
  have same: "upload_stays rt f (ss, f)"
    using assms stays_refl area_okD(4) by (auto simp: upload_stays_def)
  show ?thesis
  proof (cases "ss uid")
    case (Some se)
    obtain st f' where w: "os_write (us_file_stream se) d f = (st, f')" by force
    have se: "session_inside rt f se"
      using assms(2) Some by (simp add: uploads_inside_def)
    have s: "stays rt f f'"
      using os_write_writes [OF w] se by (intro stays_writes [OF area_okD(4) [OF assms(1)]]) (auto simp: session_inside_def)
    have ins: "upload_stays rt f (ss(uid \<mapsto> se'), f')"
      if "us_target_path se' = us_target_path se" "us_inode se' = us_inode se" for se'
      using s uploads_inside_upd(1) [OF uploads_inside_stays [OF assms(2) s]]
        session_inside_cong [OF that session_inside_stays [OF se s]] by (simp add: upload_stays_def)
    show ?thesis
      using Some w same os_write_writes [OF w]
      by (auto simp: writeChunk_def Let_def intro!: ins split: option.splits)
  qed (use same in \<open>simp add: writeChunk_def\<close>)
qed

lemma abortUpload_stays:
  assumes "area_ok rt f" and "uploads_inside rt f ss"
  shows "upload_stays rt f (abortUpload ss f uid)"
proof (cases "ss uid")
  case (Some se)
  have se: "session_inside rt f se"
    using assms(2) Some by (simp add: uploads_inside_def)
  define f1 where "f1 = (if os_open (us_file_stream se) then snd (os_close (us_file_stream se) f) else f)"
  have "writes_inode (us_inode se) f f1"
    using os_close_writes [of "us_file_stream se" f "fst (os_close (us_file_stream se) f)"
        "snd (os_close (us_file_stream se) f)"] by (simp add: f1_def)
  then have s1: "stays rt f f1"
    using se by (intro stays_writes [OF area_okD(4) [OF assms(1)]]) (auto simp: session_inside_def)
  have "stays rt f1 (snd (snd (fs_remove f1 (us_target_path se))))"
    using se by (intro stays_remove [OF stays_area_ok [OF assms(1) s1]]) (auto simp: session_inside_def)
  then have s2: "stays rt f (snd (snd (fs_remove f1 (us_target_path se))))"
    by (rule stays_trans [OF s1])
  then show ?thesis
    using Some uploads_inside_upd(2) [OF uploads_inside_stays [OF assms(2) s2]]
    by (simp add: abortUpload_def upload_stays_def Let_def f1_def [symmetric])
qed (use assms stays_refl area_okD(4) in \<open>auto simp: abortUpload_def upload_stays_def\<close>)

lemma finishUpload_stays:
  assumes "area_ok rt f" and "uploads_inside rt f ss"
  shows "upload_stays rt f (snd (finishUpload E ss f uid))"
proof -
  have same: "upload_stays rt f (ss, f)"
    using assms stays_refl area_okD(4) by (auto simp: upload_stays_def)
  show ?thesis
  proof (cases "ss uid")
    case (Some se)
    obtain st f' where w: "os_close (us_file_stream se) f = (st, f')" by force
    have se: "session_inside rt f se"
      using assms(2) Some by (simp add: uploads_inside_def)
    have s: "stays rt f f'"
      using os_close_writes [OF w] se by (intro stays_writes [OF area_okD(4) [OF assms(1)]]) (auto simp: session_inside_def)
    let ?ss = "ss(uid \<mapsto> se\<lparr>us_file_stream := st\<rparr>)"
    have "session_inside rt f' (se\<lparr>us_file_stream := st\<rparr>)"
      by (rule session_inside_cong [OF _ _ session_inside_stays [OF se s]])
        (use os_close_writes [OF w] in simp_all)
    then have ins: "uploads_inside rt f' ?ss"
      by (rule uploads_inside_upd(1) [OF uploads_inside_stays [OF assms(2) s]])
    then have "upload_stays rt f' (abortUpload ?ss f' uid)"
      by (rule abortUpload_stays [OF stays_area_ok [OF assms(1) s]])
    then have ab: "upload_stays rt f (abortUpload ?ss f' uid)"
      using stays_trans [OF s] by (simp add: upload_stays_def)
    have "upload_stays rt f (?ss, f')" "upload_stays rt f (ss(uid := None), f')"
      using ins s uploads_inside_upd(2) [OF ins, of uid] by (simp_all add: upload_stays_def)
    with same ab Some w show ?thesis
      by (auto simp: finishUpload_def Let_def split: option.splits parse.splits bool.splits)
  qed (use same in \<open>simp add: finishUpload_def\<close>)
qed

section \<open>The server\<close>

text \<open>What is asked of the disk: no symbolic link in the area, and no file of it linked from outside.\<close>

definition area_closed :: "apath \<Rightarrow> fs \<Rightarrow> bool" where
  "area_closed rt f \<longleftrightarrow>
     (\<forall>(p, n) \<in> set (tree f). in_area rt p \<longrightarrow>
        (\<forall>t. n \<noteq> Symlink t) \<and> (\<forall>(q, m) \<in> set (tree f). m = n \<and> m \<noteq> Dir \<longrightarrow> in_area rt q))"

lemma area_closedD:
  assumes "area_closed rt f" and "(p, n) \<in> set (tree f)" and "in_area rt p"
  shows "n \<noteq> Symlink t" and "(q, n) \<in> set (tree f) \<Longrightarrow> n \<noteq> Dir \<Longrightarrow> in_area rt q"
  using assms unfolding area_closed_def by fastforce+

lemma area_okI:
  assumes "wf_fs f" and "good_root f rt" and "area_closed rt f"
  shows "area_ok rt f"
proof -
  note g = good_rootD [OF assms(1,2)]
  have "node_at f p \<noteq> Some (Symlink t)" if "in_area rt p" for p t
    using area_closedD(1) [OF assms(3) node_at_in_tree that] by (cases "p = []") auto
  moreover have "node_at f q \<noteq> Some (File i)"
    if "in_area rt p" "\<not> in_area rt q" "node_at f p = Some (File i)" for p q i
    using area_closedD(2) [OF assms(3) node_at_in_tree [OF that(3)] that(1) node_at_in_tree [of f q]] that
    by (cases "p = []"; cases "q = []") auto
  ultimately show ?thesis
    using g wf_fs_entryD(2) [OF assms(1) g(3,1)] assms(1) by (simp add: area_ok_def)
qed

definition confined :: "'c config \<Rightarrow> fs \<Rightarrow> fs \<Rightarrow> 'c sessions \<Rightarrow> bool" where
  "confined cfg f0 f ss \<longleftrightarrow>
     (let rt = root (cfg_env cfg) in area_ok rt f \<and> stays rt f0 f \<and> uploads_inside rt f ss)"

lemma confined_uploads:
  "confined cfg f0 f ss \<Longrightarrow> upload_stays (root (cfg_env cfg)) f r \<Longrightarrow> confined cfg f0 (snd r) (fst r)"
  using stays_trans stays_area_ok by (auto simp: confined_def upload_stays_def Let_def)

lemma confined_store:
  "confined cfg f0 f ss \<Longrightarrow> stays (root (cfg_env cfg)) f f' \<Longrightarrow> confined cfg f0 f' ss"
  using stays_trans stays_area_ok uploads_inside_stays by (auto simp: confined_def Let_def)

lemma confinedD:
  "confined cfg f0 f ss \<Longrightarrow> area_ok (root (cfg_env cfg)) f" "confined cfg f0 f ss \<Longrightarrow> uploads_inside (root (cfg_env cfg)) f ss"
  by (simp_all add: confined_def Let_def)

interpretation confined_storage: storage_invariant cfg "confined cfg f0" for cfg :: "'c config" and f0
proof (unfold_locales, goal_cases)
  case (1 f ss i rd nm sz h x r)
  then show ?case
    using confined_uploads [OF 1(1) beginUpload_stays [OF confinedD [OF 1(1)]]] by (metis snd_conv)
next
  case (2 f ss i off d x r)
  then show ?case
    using confined_uploads [OF 2(1) writeChunk_stays [OF confinedD [OF 2(1)]]] by (metis snd_conv)
next
  case (3 f ss i x r)
  then show ?case
    using confined_uploads [OF 3(1) finishUpload_stays [OF confinedD [OF 3(1)]]] by (metis snd_conv)
next
  case (4 st ss a u v st')
  then show ?case
    using confined_store [OF 4(1) deletePath_stays [OF confinedD(1) [OF 4(1)]]] by (metis snd_conv)
next
  case (5 st ss a b u v st')
  then show ?case
    using confined_store [OF 5(1) renamePath_stays [OF confinedD(1) [OF 5(1)]]] by (metis snd_conv)
next
  case (6 st ss a u v st')
  then show ?case
    using confined_store [OF 6(1) createDirectory_stays [OF confinedD(1) [OF 6(1)]]] by (metis snd_conv)
next
  case (7 st ss a u v st')
  then show ?case
    using confined_store [OF 7(1) removeDirectory_stays [OF confinedD(1) [OF 7(1)]]] by (metis snd_conv)
qed

text \<open>Every disk that a run leads to keeps the area closed and everything outside it.\<close>

lemma run_stays:
  assumes "run fuel cfg T clients s = Some s'" and "srv_uploads s = Map.empty"
    and "wf_fs (disk (srv_store s))" and "good_root (disk (srv_store s)) (root (cfg_env cfg))"
    and "area_closed (root (cfg_env cfg)) (disk (srv_store s))"
  shows "area_ok (root (cfg_env cfg)) (disk (srv_store s')) \<and>
    stays (root (cfg_env cfg)) (disk (srv_store s)) (disk (srv_store s'))"
proof -
  let ?f = "disk (srv_store s)"
  have "confined cfg ?f ?f (srv_uploads s)"
    using area_okI [OF assms(3-5)] stays_refl [OF assms(3)] assms(2)
    by (simp add: confined_def uploads_inside_def Let_def)
  from confined_storage.run_keeps [OF assms(1) this] show ?thesis
    by (simp add: confined_def Let_def)
qed


text \<open>C34. Confinement of what is read. After any run, under the same conditions on the disk, whatever path
  a download names, the bytes that it reads are those of a file in the storage area, and a listing
  names only entries of a directory in the area.\<close>

theorem run_reads_confined:
  assumes "run fuel cfg T clients s = Some s'" and "srv_uploads s = Map.empty"
    and "wf_fs (disk (srv_store s))" and "good_root (disk (srv_store s)) (root (cfg_env cfg))"
    and "area_closed (root (cfg_env cfg)) (disk (srv_store s))"
  shows "(\<forall>E i q m. prepareDownload E (root (cfg_env cfg)) (disk (srv_store s')) i q = Inr m \<longrightarrow>
      (\<exists>p j. in_area (root (cfg_env cfg)) p \<and> node_at (disk (srv_store s')) p = Some (File j) \<and>
        (\<forall>d. open_read (disk (srv_store s')) (dm_full_path m) = Inr d \<longrightarrow> d = content (disk (srv_store s')) j))) \<and>
    (\<forall>q es. listDirectory (root (cfg_env cfg)) (disk (srv_store s')) q = Inr es \<longrightarrow>
      (\<exists>p. in_area (root (cfg_env cfg)) p \<and> node_at (disk (srv_store s')) p = Some Dir \<and>
        entry_name ` set es \<subseteq> set (children (disk (srv_store s')) p)))"
  using download_area listing_area run_stays [OF assms] by blast

section \<open>Instances\<close>

text \<open>A client that logs in and creates a directory, on a disk with a file beside the storage.\<close>

definition busy_fs :: fs where
  "busy_fs = sample_fs\<lparr>tree := ([''key''], File 2) # tree sample_fs, next_inode := 3\<rparr>"

definition busy_server :: "bytes server" where
  "busy_server = sample_server\<lparr>srv_store := \<lparr>disk = busy_fs, audit = []\<rparr>\<rparr>"

lemma busy_fs_ok: "wf_fs busy_fs" "good_root busy_fs sample_root" "area_closed sample_root busy_fs"
  by (simp_all add: busy_fs_def sample_fs_def sample_root_def wf_fs_def node_at_def valid_name_def good_root_def
      canonical_at_def area_closed_def)

lemma busy_mkdir:
  "createDirectory sample_env (srv_store busy_server) ''n'' ''u'' =
     ((True, ''Directory created''), snd (createDirectory sample_env (srv_store busy_server) ''n'' ''u'')) \<and>
   node_at (disk (snd (createDirectory sample_env (srv_store busy_server) ''n'' ''u''))) [''srv'', ''data'', ''n''] = Some Dir \<and>
   audit (snd (createDirectory sample_env (srv_store busy_server) ''n'' ''u'')) =
     [audit_line sample_env ''u'' ''MKDIR'' ''n'' ''SUCCESS'' []]"
  by (simp add: createDirectory_def sample_eval create_directories_def fs_mkdir_def add_entry_def
      busy_fs_def busy_server_def directory_logAudit_def)

lemma busy_run:
  "\<exists>s'. run 3 sample_cfg sample_link
      [Some (Verified, (serialize (authRequest ''u'' ''p'') @ serialize (mkdirRequest ''n''), []))] busy_server = Some s' \<and>
    node_at (disk (srv_store s')) [''srv'', ''data'', ''n''] = Some Dir \<and>
    audit (srv_store s') = [audit_line sample_env ''u'' ''MKDIR'' ''n'' ''SUCCESS'' []]"
proof -
  let ?a = "authRequest ''u'' ''p''" and ?m = "mkdirRequest ''n''" and ?x = "authResponse True 7 ''Authentication successful''"
  have a: "packet_kind ?a = Some AUTH_REQUEST" "parseAuthRequest ?a = Parsed (''u'', ''p'')" "consistent ?a"
    "length (payload ?a) \<le> 4096"
    using auth_request.build_kind [of "(''u'', ''p'')"] auth_request.parse_build [of "(''u'', ''p'')"]
      auth_request.build_consistent [of "(''u'', ''p'')"] by simp_all (simp add: codec_simps)
  have m: "packet_kind ?m = Some MKDIR_REQUEST" "parseMkdirRequest ?m = Parsed ''n''" "consistent ?m"
    "length (payload ?m) \<le> 4096"
    using mkdir_request.build_kind [of "''n''"] mkdir_request.parse_build [of "''n''"]
      mkdir_request.build_consistent [of "''n''"] by simp_all (simp add: codec_simps prefixed_def)
  have au: "authenticate sample_evp (srv_users busy_server) ''u'' ''p''"
    by (simp add: authenticate_def userExists_def getPasswordHash_def busy_server_def sample_server_def sha256_def
        sample_evp_def sample_digest_def)
  define c1 where "c1 = reply sample_link ?x ((new_conn (serialize ?m, []))\<lparr>sess := \<lparr>session_id = 7,
      session_username = ''u'', session_authenticated = True\<rparr>, cstate := AUTHENTICATED\<rparr>)"
  have cfg: "cfg_alloc sample_cfg = 4096" "cfg_env sample_cfg = sample_env" "cfg_evp sample_cfg = sample_evp" "cfg_rng sample_cfg = (\<lambda>n. 7)"
    by (simp_all add: sample_cfg_def)
  have h1: "handle_packet sample_cfg sample_link ?a (new_conn (serialize ?m, [])) busy_server =
      Running (c1, busy_server\<lparr>srv_draws := 1\<rparr>)"
    using a(1,2) au by (simp add: handle_packet_def handle_auth_def generateSessionId_def cfg c1_def busy_server_def sample_server_def)
  obtain st where st: "createDirectory sample_env (srv_store busy_server) ''n'' ''u'' = ((True, ''Directory created''), st)"
    "node_at (disk st) [''srv'', ''data'', ''n''] = Some Dir" "audit st = [audit_line sample_env ''u'' ''MKDIR'' ''n'' ''SUCCESS'' []]"
    using busy_mkdir by (metis prod.exhaust_sel snd_conv)
  have c1: "chan c1 = (serialize ?m, serialize ?x)" "session_username (sess c1) = ''u''" "session_authenticated (sess c1)"
    by (simp_all add: c1_def reply_def new_conn_def sendPacket_def sample_link_def)
  define c2 where "c2 = reply sample_link (mkdirResponse True ''Directory created'') (c1\<lparr>chan := ([], serialize ?x)\<rparr>)"
  define s2 where "s2 = busy_server\<lparr>srv_draws := 1, srv_store := st\<rparr>"
  have h2: "handle_packet sample_cfg sample_link ?m (c1\<lparr>chan := ([], serialize ?x)\<rparr>) (busy_server\<lparr>srv_draws := 1\<rparr>) =
      Running (c2, s2)"
    using m(1,2) c1 st by (simp add: handle_packet_def handle_mkdir_def cfg c2_def s2_def)
  have "\<exists>c3. serve_loop 1 sample_cfg sample_link c2 s2 = Disconnected c3 s2"
    by (simp add: c2_def reply_def sendPacket_def sample_link_def receivePacket_def header_len_def)
  then obtain c3 where e: "serve_loop 1 sample_cfg sample_link c2 s2 = Disconnected c3 s2" by blast
  have "serve_loop 2 sample_cfg sample_link c1 (busy_server\<lparr>srv_draws := 1\<rparr>) = serve_loop 1 sample_cfg sample_link c2 s2"
    using sample_receive [OF m(3,4), of "[]" "serialize ?x"] h2 c1(1) by (simp add: numeral_2_eq_2 cfg)
  moreover have "serve_loop 3 sample_cfg sample_link (new_conn (serialize ?a @ serialize ?m, [])) busy_server =
      serve_loop 2 sample_cfg sample_link c1 (busy_server\<lparr>srv_draws := 1\<rparr>)"
    using sample_receive [OF a(3,4), of "serialize ?m" "[]"] h1 by (simp add: numeral_3_eq_3 numeral_2_eq_2 cfg new_conn_def)
  ultimately have "run 3 sample_cfg sample_link [Some (Verified, (serialize ?a @ serialize ?m, []))] busy_server = Some s2"
    using e by (simp add: handleClient_def new_conn_def)
  then show ?thesis
    using st(2,3) by (auto simp: s2_def)
qed


lemma run_reads_confined_witness:
  "\<exists>s'. run 3 sample_cfg sample_link
      [Some (Verified, (serialize (authRequest ''u'' ''p'') @ serialize (mkdirRequest ''n''), []))] busy_server = Some s' \<and>
    node_at (disk (srv_store s')) [''srv'', ''data'', ''n''] = Some Dir \<and>
    (\<forall>q es. listDirectory sample_root (disk (srv_store s')) q = Inr es \<longrightarrow>
      (\<exists>p. in_area sample_root p \<and> entry_name ` set es \<subseteq> set (children (disk (srv_store s')) p)))"
proof -
  obtain s' where s': "run 3 sample_cfg sample_link
      [Some (Verified, (serialize (authRequest ''u'' ''p'') @ serialize (mkdirRequest ''n''), []))] busy_server = Some s'"
    "node_at (disk (srv_store s')) [''srv'', ''data'', ''n''] = Some Dir"
    using busy_run by blast
  have "\<exists>p. in_area sample_root p \<and> entry_name ` set es \<subseteq> set (children (disk (srv_store s')) p)"
    if "listDirectory sample_root (disk (srv_store s')) q = Inr es" for q es
    using run_reads_confined [OF s'(1)] busy_fs_ok that
    by (simp add: busy_server_def sample_cfg_def sample_server_def) blast
  with s' show ?thesis by blast
qed

end
