(* ===== verification/Hostile_Server.thy ===== *)
theory Hostile_Server
  imports Client_Download
begin

text \<open>
  The client's \<open>download\<close> against a server that need not keep the protocol: the loop ends, a reported
  success means that the stored file has the announced digest, and the server chooses the file.
\<close>

section \<open>The loop ends\<close>

context itransport
begin

lemma download_loop_ends:
  "length (inq t) div 12 < fuel \<Longrightarrow>
    fst (download_loop fuel T alloc_max i n k st f t c) \<noteq> Unfinished"
proof (induction fuel arbitrary: k st f t c)
  case (Suc fuel)
  obtain r t1 where r: "receivePacket T alloc_max t = (r, t1)"
    by fastforce
  show ?case
  proof (cases r)
    case (Received p)
    have "length (inq t1) + 12 \<le> length (inq t)"
      using receivePacket_exact [of alloc_max t p t1] r Received by simp
    then have less: "length (inq t1) div 12 < fuel"
      using Suc.prems by simp
    show ?thesis
      using r Received Suc.IH [OF less] by (simp add: Let_def split: parse.splits prod.splits)
  qed (use r in \<open>simp_all split: prod.splits\<close>)
qed simp

end

lemma download_loop_writes:
  "download_loop fuel T alloc_max i n k st f t c = (v, st', f', t', c') \<Longrightarrow>
    writes_inode (os_inode st) f f' \<and> (v \<noteq> Raised \<longrightarrow> os_inode st' = os_inode st)"
proof (induction fuel arbitrary: k st f t c)
  case (Suc fuel)
  obtain r t1 where r: "receivePacket T alloc_max t = (r, t1)"
    by fastforce
  show ?case
  proof (cases r)
    case (Received p)
    show ?thesis
    proof (cases "packet_kind p = Some DOWNLOAD_CHUNK")
      case True
      show ?thesis
      proof (cases "parseDownloadChunk p")
        case (Parsed x)
        obtain ci off d where x: "x = (ci, off, d)"
          by (metis prod_cases3)
        obtain st1 f1 where w: "os_write st d f = (st1, f1)"
          by fastforce
        note ws = os_write_writes [OF w]
        show ?thesis
        proof (cases "ci = i \<and> off = k \<and> d \<noteq> []")
          case True
          then have "download_loop fuel T alloc_max i n (k + size64 (length d)) st1 f1 t1
              (progress (k + size64 (length d)) n c) = (v, st', f', t', c')"
            using Suc.prems r Received \<open>packet_kind p = Some DOWNLOAD_CHUNK\<close> Parsed x w by (simp add: Let_def)
          from Suc.IH [OF this] ws show ?thesis
            by (auto intro: writes_inode_trans)
        next
          case False
          then show ?thesis
            using Suc.prems Suc.IH r Received \<open>packet_kind p = Some DOWNLOAD_CHUNK\<close> Parsed x by (auto split: if_splits)
        qed
      qed (use Suc.prems r Received True in auto)
    qed (use Suc.prems r Received in \<open>auto split: if_splits\<close>)
  qed (use Suc.prems r os_close_writes in \<open>auto split: prod.splits\<close>)
qed simp

section \<open>A download from any server\<close>

lemma fs_remove_content: "content (snd (snd (fs_remove f p))) = content f"
proof -
  obtain ok ec f' where r: "fs_remove f p = (ok, ec, f')"
    by (metis prod.collapse)
  show ?thesis
    using fs_remove_result [OF r] r by (cases ok) auto
qed

lemma receive_file_any:
  assumes "receive_file fuel T alloc_max E p i n h j f t c = (v, f', c')" and "wf_fs f" and "list_all no_slash p"
  shows "wf_fs f' \<and> (\<forall>l. l \<noteq> j \<longrightarrow> content f' l = content f l) \<and>
    (v = Returns SAILOR_OK \<longrightarrow> sha256File E f' p = h)"
proof -
  obtain lv st f1 t1 c1 where l: "download_loop fuel T alloc_max i n 0 (os_opened j) f t c = (lv, st, f1, t1, c1)"
    by (metis prod_cases5)
  note w = download_loop_writes [OF l]
  define f2 where "f2 = snd (os_close st f1)"
  have wf1: "wf_fs f1" "\<forall>l. l \<noteq> j \<longrightarrow> content f1 l = content f l"
    using w writes_inodeD(7,8) [of j f f1] assms(2) by (simp_all add: os_opened_def)
  have c2: "writes_inode j f1 f2" if "lv \<noteq> Raised"
    using w that os_close_writes [of st f1 "fst (os_close st f1)" f2] by (simp add: f2_def os_opened_def)
  have wf2: "wf_fs f2 \<and> (\<forall>l. l \<noteq> j \<longrightarrow> content f2 l = content f l)" if "lv \<noteq> Raised"
    using writes_inodeD(7,8) [OF c2 [OF that]] wf1 by simp
  have rm: "wf_fs (snd (snd (fs_remove f2 p))) \<and> content (snd (snd (fs_remove f2 p))) = content f2" if "lv \<noteq> Raised"
    using wf_fs_remove [OF _ assms(3), of f2] wf2 [OF that] fs_remove_content [of f2 p] by simp
  show ?thesis
    using assms(1) l wf1 wf2 rm
    by (cases lv) (auto simp: receive_file_def Let_def f2_def [symmetric] split: if_splits)
qed

lemma receive_file_ends:
  assumes "itransport T inq outq" and "length (inq t) div 12 < fuel"
  shows "fst (receive_file fuel T alloc_max E p i n h j f t c) \<noteq> Unfinished"
proof -
  obtain v st f1 t1 c1 where l: "download_loop fuel T alloc_max i n 0 (os_opened j) f t c = (v, st, f1, t1, c1)"
    by (metis prod_cases5)
  have "v \<noteq> Unfinished"
    using itransport.download_loop_ends [OF assms, of alloc_max i n 0 "os_opened j" f c] l by simp
  then show ?thesis
    using l by (cases v) (auto simp: receive_file_def Let_def)
qed

text \<open>The ways through \<open>download\<close>: it stops before a file is opened, or a file is received.\<close>

lemma download_cases:
  assumes "download fuel T A E cwd f rf ld c = (v, f', c')"
  obtains (early) "v \<noteq> Unfinished" "v \<noteq> Returns SAILOR_OK" "f' = f \<or> (\<exists>nm p. download_target cwd f ld nm = (p, f'))"
  | (received) t t1 t2 q i n nm h p g j g' where "cl_transport c = Some t"
      "sendPacket T t (downloadRequest rf) = (True, t1)" "receivePacket T A t1 = (Received q, t2)"
      "parseDownloadBegin q = Parsed (i, n, nm, h)" "download_target cwd f ld nm = (p, g)"
      "open_trunc max_links g p = Inr (j, g')" "receive_file fuel T A E p i n h j g' t2 c = (v, f', c')"
proof (cases "\<exists>t t1 t2 q i n nm h p g j g'. cl_transport c = Some t \<and>
      sendPacket T t (downloadRequest rf) = (True, t1) \<and> receivePacket T A t1 = (Received q, t2) \<and>
      parseDownloadBegin q = Parsed (i, n, nm, h) \<and> download_target cwd f ld nm = (p, g) \<and>
      open_trunc max_links g p = Inr (j, g') \<and> receive_file fuel T A E p i n h j g' t2 c = (v, f', c')")
  case True
  then show ?thesis using received by blast
next
  case False
  show ?thesis
    using assms False
    by (intro early)
      (auto simp: download_def simp del: open_trunc.simps split: option.splits bool.splits receive.splits parse.splits prod.splits sum.splits if_splits)
qed

text \<open>C22. A download against any server, whatever it sends. InternalClient::download ends (one more unit
  of fuel than the 12-byte headers in the pending input is enough), keeps the local tree well
  formed, changes the content of at most one file, and reports SAILOR_OK only if the stored file
  has the SHA-256 digest that the DOWNLOAD_BEGIN announced.\<close>

theorem download_any_server:
  assumes "itransport T inq outq" and "wf_fs f" and "list_all no_slash cwd"
    and "\<And>t. cl_transport c = Some t \<Longrightarrow> length (inq t) div 12 < fuel"
    and "download fuel T A E cwd f rf ld c = (v, f', c')"
  shows "v \<noteq> Unfinished \<and> wf_fs f' \<and> (\<exists>j. \<forall>l. l \<noteq> j \<longrightarrow> content f' l = content f l) \<and>
    (v = Returns SAILOR_OK \<longrightarrow>
      (\<exists>t t1 t2 q i n nm h. cl_transport c = Some t \<and> sendPacket T t (downloadRequest rf) = (True, t1) \<and>
        receivePacket T A t1 = (Received q, t2) \<and> parseDownloadBegin q = Parsed (i, n, nm, h) \<and>
        sha256File E f' (fst (download_target cwd f ld nm)) = h))"
  using assms(5)
proof (cases rule: download_cases)
  case early
  then show ?thesis
    using assms(2) download_target_dirs [OF assms(2,3)] by (auto simp: dirs_added_def)
next
  case (received t t1 t2 q i n nm h p g j g')
  have g: "wf_fs g" "dirs_added f g" "list_all no_slash p"
    using download_target_dirs [OF assms(2,3) received(5)] by simp_all
  have g': "wf_fs g'" "\<forall>l. l \<noteq> j \<longrightarrow> content g' l = content g l"
    using wf_open_trunc [OF g(1,3) received(6)] open_trunc_result [OF g(1,3) received(6)] by blast+
  note r = receive_file_any [OF received(7) g'(1) g(3)]
  have "inq t1 = inq t"
    using itransport.sendPacket_ok [OF assms(1) received(2)] by simp
  moreover have "length (inq t2) \<le> length (inq t1)"
    using itransport.receivePacket_exact [OF assms(1) received(3)] by simp
  ultimately have "length (inq t2) div 12 < fuel"
    using assms(4) [OF received(1)] div_le_mono [of "length (inq t2)" "length (inq t)" 12] by simp
  from receive_file_ends [OF assms(1) this, of A E p i n h j g' c] received(7)
  have "v \<noteq> Unfinished" by simp
  with r g g' received(1-5) show ?thesis
    by (auto simp: dirs_added_def intro!: exI [of _ j])
qed

section \<open>The server chooses the file\<close>


lemma download_any_server_witness:
  "fst (download 1 sample_link 4096 sample_evp [''srv''] sample_fs ''a'' ''x'' (sample_client [1, 2, 3])) \<noteq> Unfinished"
proof -
  obtain v f' c' where d: "download 1 sample_link 4096 sample_evp [''srv''] sample_fs ''a'' ''x'' (sample_client [1, 2, 3]) = (v, f', c')"
    by (metis prod_cases3)
  have "v \<noteq> Unfinished"
    using download_any_server [OF sample_link.itransport_axioms sample_fs_wf _ _ d]
    by (simp add: sample_client_def no_slash_def)
  with d show ?thesis by simp
qed


end
