(* ===== verification/Audit_Safety.thy ===== *)
theory Audit_Safety
  imports Confinement Client_Requests
begin

text \<open>
  The audit log of the delete, rename and directory services over whole runs: which packets leave a
  line, whose name it carries, how it agrees with the reply, and what the text of the file proves.
\<close>

section \<open>What a request leaves in the log\<close>

text \<open>The action and the path that a packet asks the server to log.\<close>

definition audit_request :: "packet \<Rightarrow> (string \<times> string) option" where
  "audit_request p =
     (case packet_kind p of
        Some DELETE_REQUEST \<Rightarrow> (case parseDeleteRequest p of Parsed x \<Rightarrow> Some (''DELETE'', x) | _ \<Rightarrow> None)
      | Some RENAME_REQUEST \<Rightarrow>
          (case parseRenameRequest p of Parsed (x, y) \<Rightarrow> Some (''RENAME'', x @ '' -> '' @ y) | _ \<Rightarrow> None)
      | Some MKDIR_REQUEST \<Rightarrow> (case parseMkdirRequest p of Parsed x \<Rightarrow> Some (''MKDIR'', x) | _ \<Rightarrow> None)
      | Some RMDIR_REQUEST \<Rightarrow> (case parseRmdirRequest p of Parsed x \<Rightarrow> Some (''RMDIR'', x) | _ \<Rightarrow> None)
      | _ \<Rightarrow> None)"

definition outcome_line :: "service_env \<Rightarrow> string \<Rightarrow> string \<Rightarrow> string \<Rightarrow> bool \<Rightarrow> string \<Rightarrow> string" where
  "outcome_line env user action path ok msg =
     (if ok then audit_line env user action path ''SUCCESS'' [] else audit_line env user action path ''FAILED'' msg)"

definition audit_reply :: "string \<Rightarrow> bool \<Rightarrow> string \<Rightarrow> packet" where
  "audit_reply action =
     (if action = ''DELETE'' then deleteResponse else if action = ''RENAME'' then renameResponse
      else if action = ''MKDIR'' then mkdirResponse else rmdirResponse)"

text \<open>Each service logs exactly one line, and changes nothing when it fails, except that a failed creation
  of nested directories may leave some of them.\<close>

lemma deletePath_logs:
  "deletePath env s p u = ((ok, msg), s') \<Longrightarrow>
    logged env (outcome_line env u ''DELETE'' p ok msg) s s' \<and> (\<not> ok \<longrightarrow> disk s' = disk s)"
  by (auto simp: deletePath_def Let_def delete_failed_def delete_logAudit_def logged_def outcome_line_def
      dest!: fs_remove_result split: if_splits sum.splits prod.splits bool.splits)

lemma renamePath_logs:
  "renamePath env s p q u = ((ok, msg), s') \<Longrightarrow>
    logged env (outcome_line env u ''RENAME'' (p @ '' -> '' @ q) ok msg) s s' \<and> (\<not> ok \<longrightarrow> disk s' = disk s)"
  by (auto simp: renamePath_def Let_def rename_failed_def rename_logAudit_def logged_def outcome_line_def
      split: if_splits sum.splits)

lemma createDirectory_logs:
  "createDirectory env s p u = ((ok, msg), s') \<Longrightarrow> logged env (outcome_line env u ''MKDIR'' p ok msg) s s'"
  by (auto simp: createDirectory_def Let_def directory_failed_def directory_logAudit_def logged_def outcome_line_def
      split: if_splits sum.splits prod.splits bool.splits option.splits)

lemma removeDirectory_logs:
  "removeDirectory env s p u = ((ok, msg), s') \<Longrightarrow>
    logged env (outcome_line env u ''RMDIR'' p ok msg) s s' \<and> (\<not> ok \<longrightarrow> disk s' = disk s)"
  by (auto simp: removeDirectory_def Let_def directory_failed_def directory_logAudit_def logged_def outcome_line_def
      dest!: fs_remove_result split: if_splits sum.splits prod.splits bool.splits)

definition uploading :: "packet \<Rightarrow> bool" where
  "uploading p \<longleftrightarrow> packet_kind p \<in> {Some UPLOAD_BEGIN, Some UPLOAD_CHUNK, Some UPLOAD_END}"

text \<open>How a packet, the reply to it and the log agree.\<close>

definition audited :: "'c config \<Rightarrow> 't transport \<Rightarrow> packet \<Rightarrow> 't conn \<Rightarrow> 'c server \<Rightarrow> 't conn \<Rightarrow> 'c server \<Rightarrow> bool" where
  "audited cfg T p c s c' s' \<longleftrightarrow>
     (case (if session_authenticated (sess c) then audit_request p else None) of
        None \<Rightarrow> audit (srv_store s') = audit (srv_store s) \<and>
          (uploading p \<or> disk (srv_store s') = disk (srv_store s))
      | Some (action, path) \<Rightarrow>
          (\<exists>ok msg. c' = reply T (audit_reply action ok msg) c \<and>
             logged (cfg_env cfg) (outcome_line (cfg_env cfg) (session_username (sess c)) action path ok msg)
               (srv_store s) (srv_store s') \<and>
             (\<not> ok \<and> action \<noteq> ''MKDIR'' \<longrightarrow> disk (srv_store s') = disk (srv_store s))))"

lemma put_uploads_audit [simp]: "audit (srv_store (put_uploads r s)) = audit (srv_store s)"
  by (simp add: put_uploads_def)

lemma store_handlers:
  "handle_ping cfg T p c s = Running (c', s') \<Longrightarrow> srv_store s' = srv_store s"
  "handle_auth cfg T p c s = Running (c', s') \<Longrightarrow> srv_store s' = srv_store s"
  "handle_list cfg T p c s = Running (c', s') \<Longrightarrow> srv_store s' = srv_store s"
  "handle_download cfg T p c s = Running (c', s') \<Longrightarrow> srv_store s' = srv_store s"
  "handle_legacy cfg T p c s = Running (c', s') \<Longrightarrow> srv_store s' = srv_store s"
  by (auto simp: handle_ping_def handle_list_def handle_download_def handle_legacy_def Let_def
      elim!: handle_auth_cases split: if_splits parse.splits sum.splits)

lemma audit_upload_handlers:
  "handle_upload_begin cfg T p c s = Running (c', s') \<Longrightarrow> audit (srv_store s') = audit (srv_store s)"
  "handle_upload_chunk cfg T p c s = Running (c', s') \<Longrightarrow> audit (srv_store s') = audit (srv_store s)"
  "handle_upload_end cfg T p c s = Running (c', s') \<Longrightarrow> audit (srv_store s') = audit (srv_store s)"
  by (auto simp: handle_upload_begin_def handle_upload_chunk_def handle_upload_end_def
      split: if_splits parse.splits upload_result.splits prod.splits)

lemma auditedI:
  assumes "session_authenticated (sess c)" and "audit_request p = Some (action, path)"
    and "c' = reply T (audit_reply action ok msg) c"
    and "logged (cfg_env cfg) (outcome_line (cfg_env cfg) (session_username (sess c)) action path ok msg)
      (srv_store s) (srv_store s')"
    and "\<not> ok \<Longrightarrow> action \<noteq> ''MKDIR'' \<Longrightarrow> disk (srv_store s') = disk (srv_store s)"
  shows "audited cfg T p c s c' s'"
  using assms by (auto simp: audited_def)

lemma unauditedI:
  "audit_request p = None \<Longrightarrow> audit (srv_store s') = audit (srv_store s) \<Longrightarrow>
    uploading p \<or> disk (srv_store s') = disk (srv_store s) \<Longrightarrow> audited cfg T p c s c' s'"
  by (simp add: audited_def)

lemma delete_audited:
  assumes "packet_kind p = Some DELETE_REQUEST" and "handle_delete cfg T p c s = Running (c', s')"
    and "session_authenticated (sess c)"
  shows "audited cfg T p c s c' s'"
proof (cases "parseDeleteRequest p")
  case (Parsed x)
  obtain ok msg st where r: "deletePath (cfg_env cfg) (srv_store s) x (session_username (sess c)) = ((ok, msg), st)"
    by (metis prod.collapse)
  show ?thesis
    using assms Parsed r deletePath_logs [OF r]
    by (intro auditedI [of c p "''DELETE''" x c' T ok msg]) (auto simp: handle_delete_def audit_request_def audit_reply_def)
qed (use assms in \<open>auto simp: handle_delete_def audit_request_def intro!: unauditedI\<close>)

lemma rename_audited:
  assumes "packet_kind p = Some RENAME_REQUEST" and "handle_rename cfg T p c s = Running (c', s')"
    and "session_authenticated (sess c)"
  shows "audited cfg T p c s c' s'"
proof (cases "parseRenameRequest p")
  case (Parsed z)
  obtain x y where z: "z = (x, y)" by force
  obtain ok msg st where r: "renamePath (cfg_env cfg) (srv_store s) x y (session_username (sess c)) = ((ok, msg), st)"
    by (metis prod.collapse)
  show ?thesis
    using assms Parsed z r renamePath_logs [OF r]
    by (intro auditedI [of c p "''RENAME''" "x @ '' -> '' @ y" c' T ok msg])
      (auto simp: handle_rename_def audit_request_def audit_reply_def)
qed (use assms in \<open>auto simp: handle_rename_def audit_request_def intro!: unauditedI\<close>)

lemma mkdir_audited:
  assumes "packet_kind p = Some MKDIR_REQUEST" and "handle_mkdir cfg T p c s = Running (c', s')"
    and "session_authenticated (sess c)"
  shows "audited cfg T p c s c' s'"
proof (cases "parseMkdirRequest p")
  case (Parsed x)
  obtain ok msg st where r: "createDirectory (cfg_env cfg) (srv_store s) x (session_username (sess c)) = ((ok, msg), st)"
    by (metis prod.collapse)
  show ?thesis
    using assms Parsed r createDirectory_logs [OF r]
    by (intro auditedI [of c p "''MKDIR''" x c' T ok msg]) (auto simp: handle_mkdir_def audit_request_def audit_reply_def)
qed (use assms in \<open>auto simp: handle_mkdir_def audit_request_def intro!: unauditedI\<close>)

lemma rmdir_audited:
  assumes "packet_kind p = Some RMDIR_REQUEST" and "handle_rmdir cfg T p c s = Running (c', s')"
    and "session_authenticated (sess c)"
  shows "audited cfg T p c s c' s'"
proof (cases "parseRmdirRequest p")
  case (Parsed x)
  obtain ok msg st where r: "removeDirectory (cfg_env cfg) (srv_store s) x (session_username (sess c)) = ((ok, msg), st)"
    by (metis prod.collapse)
  show ?thesis
    using assms Parsed r removeDirectory_logs [OF r]
    by (intro auditedI [of c p "''RMDIR''" x c' T ok msg]) (auto simp: handle_rmdir_def audit_request_def audit_reply_def)
qed (use assms in \<open>auto simp: handle_rmdir_def audit_request_def intro!: unauditedI\<close>)

lemma packet_audited:
  assumes "handle_packet cfg T p c s = Running (c', s')"
  shows "audited cfg T p c s c' s'"
proof (cases "session_authenticated (sess c)")
  case False
  have "srv_store s' = srv_store s"
    using assms
  proof (cases rule: handle_packet_cases)
    case auth
    then show ?thesis by (simp add: store_handlers)
  qed (use False in simp)
  with False show ?thesis by (simp add: audited_def)
next
  case True
  show ?thesis
  proof (cases "packet_kind p")
    case None
    then show ?thesis
      using assms by (intro unauditedI) (auto simp: handle_packet_def audit_request_def)
  next
    case (Some k)
    note kept = unauditedI audit_request_def uploading_def
    note moved = delete_audited [OF _ _ True] rename_audited [OF _ _ True] mkdir_audited [OF _ _ True]
      rmdir_audited [OF _ _ True]
    from assms Some show ?thesis
      by (cases k)
        (simp_all add: handle_packet_def kept moved store_handlers audit_upload_handlers)
  qed
qed

section \<open>Who is in the log\<close>

definition accountable :: "service_env \<Rightarrow> (string \<rightharpoonup> string) \<Rightarrow> string \<Rightarrow> bool" where
  "accountable env users line \<longleftrightarrow> log_opens env \<and>
     (\<exists>u action path ok msg. u \<in> dom users \<and> action \<in> {''DELETE'', ''RENAME'', ''MKDIR'', ''RMDIR''} \<and>
        line = outcome_line env u action path ok msg)"

definition log_extends :: "'c config \<Rightarrow> 'c server \<Rightarrow> 'c server \<Rightarrow> bool" where
  "log_extends cfg s s' \<longleftrightarrow>
     (\<exists>lines. audit (srv_store s') = audit (srv_store s) @ lines \<and>
        list_all (accountable (cfg_env cfg) (srv_users s)) lines)"

lemma log_extends_refl: "log_extends cfg s s"
  by (simp add: log_extends_def)

lemma log_extends_trans:
  "log_extends cfg s s' \<Longrightarrow> log_extends cfg s' s'' \<Longrightarrow> srv_users s' = srv_users s \<Longrightarrow> log_extends cfg s s''"
  unfolding log_extends_def by (metis append.assoc list_all_append)

lemma audit_request_action:
  "audit_request p = Some (action, path) \<Longrightarrow> action \<in> {''DELETE'', ''RENAME'', ''MKDIR'', ''RMDIR''}"
  by (auto simp: audit_request_def split: option.splits packet_type.splits parse.splits)

lemma audited_extends:
  assumes "audited cfg T p c s c' s'" and "conn_inv (c, s)"
  shows "log_extends cfg s s'"
proof (cases "session_authenticated (sess c) \<and> audit_request p \<noteq> None")
  case True
  then obtain action path where r: "audit_request p = Some (action, path)"
    by auto
  obtain ok msg where l: "logged (cfg_env cfg) (outcome_line (cfg_env cfg) (session_username (sess c)) action path ok msg)
      (srv_store s) (srv_store s')"
    using assms(1) True r by (auto simp: audited_def)
  have "log_opens (cfg_env cfg) \<Longrightarrow> accountable (cfg_env cfg) (srv_users s) (outcome_line (cfg_env cfg) (session_username (sess c)) action path ok msg)"
    using True assms(2) audit_request_action [OF r] unfolding accountable_def by (fastforce simp: conn_inv_def)
  with l show ?thesis
    by (auto simp: logged_def log_extends_def)
qed (use assms(1) in \<open>auto simp: audited_def log_extends_def split: if_splits option.splits\<close>)

lemma connection_log:
  assumes "conn_reach cfg T a b" and "conn_inv a"
  shows "conn_inv b \<and> srv_users (snd b) = srv_users (snd a) \<and> log_extends cfg (snd a) (snd b)"
  using assms
proof (induction rule: conn_reach.induct)
  case (step b d)
  from step(2) show ?case
  proof cases
    case (turn c p t s c' s')
    have "conn_inv (c\<lparr>chan := t\<rparr>, s)"
      using step.IH [OF step.prems] turn(1) by (auto simp: conn_inv_def)
    from audited_extends [OF packet_audited [OF turn(4)] this] show ?thesis
      using step turn conn_step_inv [OF step(2)] log_extends_trans by fastforce
  qed
qed (simp add: log_extends_refl)

lemma new_conn_inv: "conn_inv (new_conn t, s)"
  by (simp add: conn_inv_def new_conn_def new_session_def)

lemma run_log:
  assumes "run fuel cfg T clients s = Some s'"
  shows "srv_users s' = srv_users s \<and> log_extends cfg s s'"
proof (rule run_by_connections [OF assms, where P = "\<lambda>x. srv_users x = srv_users s \<and> log_extends cfg s x"])
  fix t sa c' sb
  assume a: "srv_users sa = srv_users s \<and> log_extends cfg s sa" "conn_reach cfg T (new_conn t, sa) (c', sb)"
  show "srv_users sb = srv_users s \<and> log_extends cfg s sb"
    using connection_log [OF a(2) new_conn_inv] a(1) log_extends_trans [of cfg s sa sb] by simp
qed (simp add: log_extends_refl)

text \<open>C6. The audit trail of a packet. An authenticated DELETE, RENAME, MKDIR or RMDIR request that parses
  adds exactly one line, in the name of the session's user and with the verdict that the reply to
  the client carries (none when the log file cannot be opened), and one that failed has not
  changed the disk, except for a creation of nested directories that stopped half way; every other
  packet adds no line, and of those only the packets of an upload can change the disk.\<close>

theorem packet_audit_trail:
  assumes "handle_packet cfg T p c s = Running (c', s')"
  shows "case (if session_authenticated (sess c) then audit_request p else None) of
      None \<Rightarrow> audit (srv_store s') = audit (srv_store s) \<and>
        (uploading p \<or> disk (srv_store s') = disk (srv_store s))
    | Some (action, path) \<Rightarrow>
        \<exists>ok msg. c' = reply T (audit_reply action ok msg) c \<and>
          audit (srv_store s') = audit (srv_store s) @
            (if log_opens (cfg_env cfg)
             then [outcome_line (cfg_env cfg) (session_username (sess c)) action path ok msg] else []) \<and>
          (\<not> ok \<and> action \<noteq> ''MKDIR'' \<longrightarrow> disk (srv_store s') = disk (srv_store s))"
  using packet_audited [OF assms] unfolding audited_def logged_def .

text \<open>Over a whole run the log only grows, and every new line names a user of the table.\<close>

theorem run_audit_accountable:
  assumes "run fuel cfg T clients s = Some s'"
  shows "\<exists>lines. audit (srv_store s') = audit (srv_store s) @ lines \<and>
    (\<forall>line\<in>set lines. log_opens (cfg_env cfg) \<and> (\<exists>u action path ok msg. u \<in> dom (srv_users s) \<and>
       action \<in> {''DELETE'', ''RENAME'', ''MKDIR'', ''RMDIR''} \<and>
       line = outcome_line (cfg_env cfg) u action path ok msg))"
  using run_log [OF assms] by (simp add: log_extends_def accountable_def list_all_iff)

section \<open>The text of the log\<close>

text \<open>What the lines are in the file: each ends in a newline.\<close>

definition log_text :: "string list \<Rightarrow> string" where
  "log_text lines = concat (map (\<lambda>l. l @ [CHR 0x0A]) lines)"

text \<open>A path that carries the rest of its own line and the start of another one.\<close>

definition forging_path :: "string \<Rightarrow> string \<Rightarrow> string \<Rightarrow> string \<Rightarrow> string \<Rightarrow> string" where
  "forging_path path time user action other =
     path @ '' | SUCCESS'' @ [CHR 0x0A] @ time @ '' | '' @ user @ '' | '' @ action @ '' | '' @ other"

lemma log_text_simps [simp]:
  "log_text [] = []" "log_text (l # ls) = l @ CHR 0x0A # log_text ls" "log_text (ls @ ms) = log_text ls @ log_text ms"
  by (simp_all add: log_text_def)

lemma forged_line:
  "log_text [audit_line env u act (forging_path path t v a q) st d] =
    log_text [audit_line env u act path ''SUCCESS'' [], audit_line (env\<lparr>time_str := t\<rparr>) v a q st d]"
  by (simp add: audit_line_def forging_path_def)

text \<open>C21. The audit log can be forged. Names and paths are written as they are, so a logged-in client that
  asks to delete a path with a newline in it leaves the text of two complete lines, its own and
  one that names any other user, action, path and time.\<close>

theorem audit_forgery:
  assumes "session_authenticated (sess c)" and "log_opens (cfg_env cfg)"
    and "length (forging_path path time victim action other) < 2 ^ 16"
  shows "\<exists>c' s' st detail.
    handle_packet cfg T (deleteRequest (forging_path path time victim action other)) c s = Running (c', s') \<and>
    log_text (audit (srv_store s')) = log_text (audit (srv_store s) @
      [audit_line (cfg_env cfg) (session_username (sess c)) ''DELETE'' path ''SUCCESS'' [],
       audit_line ((cfg_env cfg)\<lparr>time_str := time\<rparr>) victim action other st detail])"
proof -
  let ?x = "forging_path path time victim action other"
  let ?p = "deleteRequest ?x"
  obtain ok msg st where r: "deletePath (cfg_env cfg) (srv_store s) ?x (session_username (sess c)) = ((ok, msg), st)"
    by (metis prod.collapse)
  have "handle_packet cfg T ?p c s = Running (reply T (deleteResponse ok msg) c, s\<lparr>srv_store := st\<rparr>)"
    using delete_operation.handled [of ?x c cfg T s] assms(1,3) r by simp
  moreover have "audit st = audit (srv_store s) @
      [outcome_line (cfg_env cfg) (session_username (sess c)) ''DELETE'' ?x ok msg]"
    using deletePath_logs [OF r] assms(2) by (simp add: logged_def)
  ultimately show ?thesis
    using forged_line [of "cfg_env cfg" "session_username (sess c)" "''DELETE''" path time victim action other]
    by (cases ok) (fastforce simp: outcome_line_def)+
qed

section \<open>Instances\<close>

lemma packet_audit_trail_witness:
  "\<exists>c' s' ok msg. handle_packet sample_cfg sample_link (deleteRequest ''a'') sample_conn sample_server = Running (c', s') \<and>
    audit (srv_store s') = [outcome_line sample_env ''u'' ''DELETE'' ''a'' ok msg]"
proof -
  have p: "packet_kind (deleteRequest ''a'') = Some DELETE_REQUEST" "parseDeleteRequest (deleteRequest ''a'') = Parsed ''a''"
    using delete_request.build_kind [of "''a''"] delete_request.parse_build [of "''a''"] by simp_all
  have "\<exists>c' s'. handle_packet sample_cfg sample_link (deleteRequest ''a'') sample_conn sample_server = Running (c', s')"
    using p by (simp add: handle_packet_def handle_delete_def split: prod.split)
  then obtain c' s' where h:
    "handle_packet sample_cfg sample_link (deleteRequest ''a'') sample_conn sample_server = Running (c', s')"
    by blast
  show ?thesis
    using packet_audit_trail [OF h] h p sample_authenticated(1)
    by (auto simp: sample_fields audit_request_def)
qed

lemma run_audit_accountable_witness:
  "\<exists>s'. run 3 sample_cfg sample_link
      [Some (Verified, (serialize (authRequest ''u'' ''p'') @ serialize (mkdirRequest ''n''), []))] busy_server = Some s' \<and>
    audit (srv_store s') \<noteq> [] \<and>
    (\<forall>line\<in>set (audit (srv_store s')). \<exists>action path ok msg. line = outcome_line sample_env ''u'' action path ok msg)"
proof -
  obtain s' where s': "run 3 sample_cfg sample_link
      [Some (Verified, (serialize (authRequest ''u'' ''p'') @ serialize (mkdirRequest ''n''), []))] busy_server = Some s'"
    "audit (srv_store s') = [audit_line sample_env ''u'' ''MKDIR'' ''n'' ''SUCCESS'' []]"
    using busy_run by blast
  have "dom (srv_users busy_server) = {''u''}" "audit (srv_store busy_server) = []" "cfg_env sample_cfg = sample_env"
    by (simp_all add: busy_server_def sample_server_def sample_cfg_def)
  then show ?thesis
    using run_audit_accountable [OF s'(1)] s' by fastforce
qed

lemma audit_forgery_witness:
  "\<exists>c' s' st detail.
    handle_packet sample_cfg sample_link (deleteRequest (forging_path ''x'' ''2026'' ''admin'' ''DELETE'' ''y'')) sample_conn
      sample_server = Running (c', s') \<and>
    log_text (audit (srv_store s')) = log_text
      [audit_line sample_env ''u'' ''DELETE'' ''x'' ''SUCCESS'' [],
       audit_line (sample_env\<lparr>time_str := ''2026''\<rparr>) ''admin'' ''DELETE'' ''y'' st detail]"
  using audit_forgery [of sample_conn sample_cfg "''x''" "''2026''" "''admin''" "''DELETE''" "''y''" sample_link sample_server]
  by (simp add: sample_authenticated sample_fields forging_path_def)

end
