(* ===== verification/Resources.thy ===== *)
theory Resources
  imports Startup_Safety Client_Safety "HOL-Library.Monad_Syntax"
begin

text \<open>
  Who owns the descriptors and the OpenSSL objects, and when they are given back:
  \<open>TcpServer::handleClient\<close> and \<open>run\<close>, \<open>InternalClient::connect\<close> and \<open>disconnect\<close>, and the destructors of
  \<open>TlsTransport\<close>, \<open>TcpServer\<close>, \<open>InternalClient\<close> and the TLS contexts.  Every object has an identifier that is
  never reused, so that closing a descriptor twice shows as an error, whatever number the kernel
  would give the next one.
\<close>

section \<open>The ledger\<close>

text \<open>What the two programs acquire and must give back, each object with an identifier of its own.\<close>

datatype resource = Fd nat | SslObj nat | SslCtx nat | X509Cert nat

fun res_id :: "resource \<Rightarrow> nat" where
  "res_id (Fd n) = n"
| "res_id (SslObj n) = n"
| "res_id (SslCtx n) = n"
| "res_id (X509Cert n) = n"

text \<open>What is held, what has been released, the descriptor an SSL object was given by \<open>SSL_set_fd\<close>, and
  for each \<open>SSL_shutdown\<close> whether that descriptor was still open.\<close>

record ledger =
  held :: "resource list"
  released :: "resource list"
  next_id :: nat
  ssl_fd :: "nat \<rightharpoonup> nat"
  shutdowns :: "(nat \<times> bool) list"

definition no_resources :: ledger where
  "no_resources = \<lparr>held = [], released = [], next_id = 0, ssl_fd = Map.empty, shutdowns = []\<rparr>"

definition acquire :: "(nat \<Rightarrow> resource) \<Rightarrow> ledger \<Rightarrow> nat \<times> ledger" where
  "acquire k w = (next_id w, w\<lparr>held := k (next_id w) # held w, next_id := Suc (next_id w)\<rparr>)"

text \<open>Releasing what is not held, a double close or a double free, is \<open>None\<close>.\<close>

definition release :: "resource \<Rightarrow> ledger \<Rightarrow> ledger option" where
  "release r w =
     (if r \<in> set (held w) then Some (w\<lparr>held := remove1 r (held w), released := released w @ [r]\<rparr>) else None)"

definition ssl_new_fd :: "nat \<Rightarrow> ledger \<Rightarrow> nat \<times> ledger" where
  "ssl_new_fd fd w = (let (a, w) = acquire SslObj w in (a, w\<lparr>ssl_fd := (ssl_fd w)(a \<mapsto> fd)\<rparr>))"

definition ssl_shutdown :: "nat \<Rightarrow> ledger \<Rightarrow> ledger option" where
  "ssl_shutdown a w =
     (if SslObj a \<in> set (held w)
      then Some (w\<lparr>shutdowns := shutdowns w @
             [(a, case ssl_fd w a of None \<Rightarrow> False | Some fd \<Rightarrow> Fd fd \<in> set (held w))]\<rparr>)
      else None)"

definition ledger_ok :: "ledger \<Rightarrow> bool" where
  "ledger_ok w \<longleftrightarrow> distinct (held w @ released w) \<and> (\<forall>r\<in>set (held w @ released w). res_id r < next_id w)"

lemma fresh:
  "ledger_ok w \<Longrightarrow> next_id w \<le> res_id r \<Longrightarrow> r \<notin> set (held w)"
  "ledger_ok w \<Longrightarrow> next_id w \<le> res_id r \<Longrightarrow> r \<notin> set (released w)"
  unfolding ledger_ok_def using not_less by auto

lemma no_resources_ok [simp]: "ledger_ok no_resources"
  by (simp add: ledger_ok_def no_resources_def)

section \<open>Transports\<close>

record tls_object =
  to_fd :: nat
  to_ssl :: "nat option"
  take_ownership :: bool

definition tls_object :: "nat \<Rightarrow> nat option \<Rightarrow> bool \<Rightarrow> tls_object" where
  "tls_object fd ssl own = \<lparr>to_fd = fd, to_ssl = ssl, take_ownership = own\<rparr>"

text \<open>The destructor of \<open>TlsTransport\<close>.\<close>

definition destroy_tls :: "tls_object \<Rightarrow> ledger \<Rightarrow> ledger option" where
  "destroy_tls x w =
     (case to_ssl x of
        Some a \<Rightarrow> if take_ownership x then do { w \<leftarrow> ssl_shutdown a w; release (SslObj a) w } else Some w
      | None \<Rightarrow> Some w)"

section \<open>The server\<close>

text \<open>The end of a connection: \<open>close\<close>, and then the destructor of the local \<open>transport\<close>.\<close>

definition end_connection :: "nat \<Rightarrow> tls_object \<Rightarrow> ledger \<Rightarrow> ledger option" where
  "end_connection client_fd transport w = do { w \<leftarrow> release (Fd client_fd) w; destroy_tls transport w }"

text \<open>The resources of \<open>handleClient\<close> for an accepted descriptor.  When the loop of the connection does
  not return, the process is gone and nothing is released.\<close>

definition handleClient_owned :: "handshake \<Rightarrow> ('t, 'c) client_end \<Rightarrow> nat \<Rightarrow> ledger \<Rightarrow> ledger option" where
  "handleClient_owned hs result client_fd w =
     (case hs of
        NoSsl \<Rightarrow> release (Fd client_fd) w
      | HandshakeFailed \<Rightarrow>
          (let (ssl, w) = ssl_new_fd client_fd w
           in do { w \<leftarrow> release (SslObj ssl) w; release (Fd client_fd) w })
      | NoCertificate \<Rightarrow>
          (let (ssl, w) = ssl_new_fd client_fd w
           in do { w \<leftarrow> release (SslObj ssl) w; release (Fd client_fd) w })
      | Verified \<Rightarrow>
          (let (ssl, w) = ssl_new_fd client_fd w;
               (client_cert, w) = acquire X509Cert w
           in do {
                w \<leftarrow> release (X509Cert client_cert) w;
                let transport = tls_object client_fd (Some ssl) True;
                (case result of
                   Served (Disconnected c s) \<Rightarrow> end_connection client_fd transport w
                 | _ \<Rightarrow> Some w)
              }))"

text \<open>\<open>run\<close> with its resources: the server it leaves, \<open>None\<close> when the process has ended.\<close>

fun run_owned ::
  "nat \<Rightarrow> 'c config \<Rightarrow> 't transport \<Rightarrow> (handshake \<times> 't) option list \<Rightarrow> 'c server \<Rightarrow> ledger \<Rightarrow>
   ('c server option \<times> ledger) option" where
  "run_owned fuel cfg T [] s w = Some (Some s, w)"
| "run_owned fuel cfg T (None # clients) s w = run_owned fuel cfg T clients s w"
| "run_owned fuel cfg T (Some (hs, t) # clients) s w =
     (let (client_fd, w) = acquire Fd w; result = handleClient fuel cfg T hs t s
      in do {
           w \<leftarrow> handleClient_owned hs result client_fd w;
           (case result of
              Closed s' \<Rightarrow> run_owned fuel cfg T clients s' w
            | Served (Disconnected c s') \<Rightarrow> run_owned fuel cfg T clients s' w
            | Served _ \<Rightarrow> Some (None, w))
         })"

lemmas ledger_defs = acquire_def release_def ssl_new_fd_def ssl_shutdown_def destroy_tls_def tls_object_def end_connection_def

text \<open>What a client that has been served leaves in the ledger.\<close>

definition settled :: "resource list \<Rightarrow> (nat \<times> bool) list \<Rightarrow> ledger \<Rightarrow> ledger \<Rightarrow> bool" where
  "settled rs downs w w' \<longleftrightarrow>
     held w' = held w \<and> released w' = released w @ rs \<and> shutdowns w' = shutdowns w @ downs \<and>
     distinct (map res_id rs) \<and> res_id ` set rs = {next_id w ..< next_id w'} \<and> next_id w \<le> next_id w'"

lemma settled_refl: "settled [] [] w w"
  by (simp add: settled_def)

lemma settled_trans:
  assumes "settled rs ds w w'" and "settled rs' ds' w' w''"
  shows "settled (rs @ rs') (ds @ ds') w w''"
proof -
  note e = assms [unfolded settled_def]
  have "res_id ` set rs \<inter> res_id ` set rs' = {}"
    using e by (auto simp del: Int_iff)
  moreover have "{next_id w ..< next_id w''} = {next_id w ..< next_id w'} \<union> {next_id w' ..< next_id w''}"
    using e by auto
  ultimately show ?thesis
    using e by (simp add: settled_def image_Un)
qed

lemma settled_ok:
  assumes "ledger_ok w" and "settled rs ds w w'"
  shows "ledger_ok w'"
proof -
  have e: "held w' = held w" "released w' = released w @ rs" "next_id w \<le> next_id w'" "distinct rs"
    and ids: "res_id ` set rs = {next_id w ..< next_id w'}"
    using assms(2) by (simp_all add: settled_def distinct_map)
  have new: "r \<notin> set (held w) \<and> r \<notin> set (released w) \<and> res_id r < next_id w'" if "r \<in> set rs" for r
    using imageI [OF that, of res_id] assms(1) by (simp add: ids fresh)
  have all: "\<forall>r\<in>set (held w @ released w). res_id r < next_id w"
    using assms(1) unfolding ledger_ok_def by (rule conjunct2)
  have old: "res_id r < next_id w'" if "r \<in> set (held w @ released w)" for r
    using bspec [OF all that] e(3) by (rule less_le_trans)
  have "set (held w) \<inter> set rs = {}" "set (released w) \<inter> set rs = {}"
    using new by blast+
  then show ?thesis
    using assms(1) e(1,2,4) new old by (simp add: ledger_ok_def Int_Un_distrib ball_Un)
qed

lemma client_settled:
  assumes "ledger_ok w" and "acquire Fd w = (fd, w1)"
    and "result = Closed s' \<and> hs \<noteq> Verified \<or> hs = Verified \<and> result = Served (Disconnected c s')"
  shows "\<exists>rs ds w'. handleClient_owned hs result fd w1 = Some w' \<and> settled rs ds w w' \<and> (\<forall>d\<in>set ds. \<not> snd d)"
proof -
  let ?n = "next_id w"
  note e = settled_def handleClient_owned_def ledger_defs atLeastLessThanSuc insert_commute fresh
  have w1: "fd = ?n" "w1 = w\<lparr>held := Fd ?n # held w, next_id := Suc ?n\<rparr>"
    using assms(2) by (auto simp: acquire_def)
  show ?thesis
  proof (cases hs)
    case NoSsl
    with assms(1) w1 show ?thesis
      by (intro exI [of _ "[Fd ?n]"] exI [of _ "[]"]) (simp add: e)
  next
    case HandshakeFailed
    with assms(1) w1 show ?thesis
      by (intro exI [of _ "[SslObj (Suc ?n), Fd ?n]"] exI [of _ "[]"]) (simp add: e)
  next
    case NoCertificate
    with assms(1) w1 show ?thesis
      by (intro exI [of _ "[SslObj (Suc ?n), Fd ?n]"] exI [of _ "[]"]) (simp add: e)
  next
    case Verified
    with assms(1,3) w1 show ?thesis
      by (intro exI [of _ "[X509Cert (Suc (Suc ?n)), Fd ?n, SslObj (Suc ?n)]"] exI [of _ "[(Suc ?n, False)]"])
        (simp add: e)
  qed
qed

lemma client_lost:
  assumes "ledger_ok w" and "acquire Fd w = (fd, w1)" and "\<forall>c s'. result \<noteq> Served (Disconnected c s')"
  shows "\<exists>w'. handleClient_owned Verified result fd w1 = Some w' \<and>
    held w' = SslObj (Suc fd) # Fd fd # held w \<and> fd = next_id w"
  using assms
  by (auto simp: handleClient_owned_def ledger_defs split: client_end.split ended.split)

text \<open>One accepted client: its connection ends and the next one follows, or the process ends in it.\<close>

lemma accepted_client:
  assumes "ledger_ok w"
  obtains (served) s' w' rs ds where "settled rs ds w w'" "\<forall>d\<in>set ds. \<not> snd d"
      "run_owned fuel cfg T (Some (hs, t) # clients) s w = run_owned fuel cfg T clients s' w'"
      "run fuel cfg T (Some (hs, t) # clients) s = run fuel cfg T clients s'"
  | (lost) w' where "run fuel cfg T (Some (hs, t) # clients) s = None"
      "run_owned fuel cfg T (Some (hs, t) # clients) s w = Some (None, w')"
      "held w' = SslObj (Suc (next_id w)) # Fd (next_id w) # held w"
proof -
  let ?r = "handleClient fuel cfg T hs t s"
  obtain fd w1 where fd: "acquire Fd w = (fd, w1)" by force
  show thesis
  proof (cases "\<exists>c s'. ?r = Closed s' \<or> ?r = Served (Disconnected c s')")
    case False
    then have hs: "hs = Verified"
      by (cases hs) (auto simp: handleClient_def)
    obtain w' where "handleClient_owned Verified ?r fd w1 = Some w'" "held w' = SslObj (Suc fd) # Fd fd # held w"
      "fd = next_id w"
      using client_lost [OF assms fd] False by blast
    with False fd hs show thesis
      by (intro lost [of w']) (auto split: client_end.splits ended.splits)
  next
    case True
    then obtain s' c where r: "?r = Closed s' \<and> hs \<noteq> Verified \<or> hs = Verified \<and> ?r = Served (Disconnected c s')"
      by (cases hs) (auto simp: handleClient_def)
    obtain rs ds w' where "handleClient_owned hs ?r fd w1 = Some w'" "settled rs ds w w'" "\<forall>d\<in>set ds. \<not> snd d"
      using client_settled [OF assms fd r] by blast
    with r fd show thesis
      by (intro served [of rs ds w' s']) auto
  qed
qed

text \<open>C18. The resources of the server. Over any sequence of accepted clients nothing is closed or freed
  twice; as long as the process lives, every descriptor, SSL object and certificate acquired for a
  client has been released exactly once when the next one is accepted, and when the process ends
  inside a connection only that connection's descriptor and SSL object are left. Every
  SSL_shutdown comes after the close of its descriptor.\<close>

theorem run_resources:
  assumes "ledger_ok w"
  shows "\<exists>w' rs ds. run_owned fuel cfg T clients s w = Some (run fuel cfg T clients s, w') \<and>
    (\<forall>(a, open_fd)\<in>set ds. \<not> open_fd) \<and>
    (if run fuel cfg T clients s = None
     then \<exists>fd w1. settled rs ds w w1 \<and> held w' = SslObj (Suc fd) # Fd fd # held w \<and> next_id w1 = fd
     else settled rs ds w w')"
  using assms
proof (induction clients arbitrary: s w)
  case Nil
  then show ?case
    by (intro exI [of _ w] exI [of _ "[]"]) (simp add: settled_refl)
next
  case (Cons client clients)
  show ?case
  proof (cases client)
    case None
    with Cons show ?thesis by simp
  next
    case (Some x)
    obtain hs t where x: "client = Some (hs, t)" using Some by force
    from Cons.prems show ?thesis
    proof (cases rule: accepted_client
        [where fuel = fuel and cfg = cfg and T = T and hs = hs and t = t and clients = clients and s = s])
      case (served s' w2 rs ds)
      obtain w' rs' ds' where "run_owned fuel cfg T clients s' w2 = Some (run fuel cfg T clients s', w')"
        "\<forall>(a, open_fd)\<in>set ds'. \<not> open_fd"
        "if run fuel cfg T clients s' = None
         then \<exists>fd w1. settled rs' ds' w2 w1 \<and> held w' = SslObj (Suc fd) # Fd fd # held w2 \<and> next_id w1 = fd
         else settled rs' ds' w2 w'"
        using Cons.IH [OF settled_ok [OF Cons.prems served(1)]] by blast
      moreover have "held w2 = held w"
        using served(1) by (simp add: settled_def)
      ultimately show ?thesis
        using x served by (intro exI [of _ w'] exI [of _ "rs @ rs'"] exI [of _ "ds @ ds'"])
          (auto, (blast intro: settled_trans)+)
    next
      case (lost w')
      with x show ?thesis
        by (intro exI [of _ w'] exI [of _ "[]"]) (auto simp: settled_refl intro!: exI [of _ w])
    qed
  qed
qed

section \<open>Starting and leaving\<close>

text \<open>What \<open>server_fd_\<close> (\<open>None\<close>: negative) and \<open>ctx_\<close> of \<open>tls_context_\<close> name.\<close>

record server_handles =
  so_fd :: "nat option"
  so_ctx :: "nat option"

definition new_server_handles :: server_handles where
  "new_server_handles = \<lparr>so_fd = None, so_ctx = None\<rparr>"

text \<open>\<open>made\<close>: what \<open>SSL_CTX_new\<close> came to; \<open>configured\<close>: the rest of \<open>initialize\<close>.\<close>

definition tcp_start_owned ::
  "bool \<Rightarrow> bool \<Rightarrow> sockets \<Rightarrow> int \<Rightarrow> server_handles \<Rightarrow> ledger \<Rightarrow> bool \<times> server_handles \<times> ledger" where
  "tcp_start_owned made configured sk port h w =
     (let (h, w) = (if made then let (a, w) = acquire SslCtx w in (h\<lparr>so_ctx := Some a\<rparr>, w)
                    else (h\<lparr>so_ctx := None\<rparr>, w))
      in if \<not> (made \<and> configured) then (False, h, w)
         else if \<not> sock_create sk then (False, h\<lparr>so_fd := None\<rparr>, w)
         else let (fd, w) = acquire Fd w; h = h\<lparr>so_fd := Some fd\<rparr>
              in (sock_bind sk (word_of_int port) \<and> sock_listen sk, h, w))"

definition opt_release :: "(nat \<Rightarrow> resource) \<Rightarrow> nat option \<Rightarrow> ledger \<Rightarrow> ledger option" where
  "opt_release k x w = (case x of None \<Rightarrow> Some w | Some a \<Rightarrow> release (k a) w)"

definition destroy_server_context :: "server_handles \<Rightarrow> ledger \<Rightarrow> ledger option" where
  "destroy_server_context h w = opt_release SslCtx (so_ctx h) w"

text \<open>\<open>~TcpServer\<close>, and after its body \<open>~TlsServerContext\<close>.\<close>

definition destroy_server :: "server_handles \<Rightarrow> ledger \<Rightarrow> ledger option" where
  "destroy_server h w = do { w \<leftarrow> opt_release Fd (so_fd h) w; destroy_server_context h w }"

text \<open>Whether the server starts or not, the destructor of the server releases each thing once.\<close>

lemma start_settled:
  assumes "ledger_ok w" and "tcp_start_owned made configured sk port new_server_handles w = (ok, h, w1)"
  shows "\<exists>rs w'. destroy_server h w1 = Some w' \<and> settled rs [] w w'"
proof -
  let ?n = "next_id w"
  note e = tcp_start_owned_def destroy_server_def destroy_server_context_def opt_release_def new_server_handles_def settled_def ledger_defs
    atLeastLessThanSuc insert_commute fresh Let_def
  consider (none) "\<not> made" | (ctx) "made" "\<not> (configured \<and> sock_create sk)" | (both) "made" "configured" "sock_create sk"
    by blast
  then show ?thesis
  proof cases
    case none
    with assms show ?thesis
      by (intro exI [of _ "[]"]) (auto simp: e)
  next
    case ctx
    with assms show ?thesis
      by (intro exI [of _ "[SslCtx ?n]"]) (auto simp: e split: if_splits)
  next
    case both
    with assms show ?thesis
      by (intro exI [of _ "[Fd (Suc ?n), SslCtx ?n]"]) (auto simp: e)
  qed
qed

section \<open>The client\<close>

text \<open>What \<open>socket_fd_\<close> (\<open>None\<close>: negative), \<open>transport_\<close> and \<open>ctx_\<close> of \<open>tls_context_\<close> of an
  \<open>InternalClient\<close> name.\<close>

record client_handles =
  ow_socket :: "nat option"
  ow_transport :: "tls_object option"
  ow_ctx :: "nat option"

definition new_client_handles :: client_handles where
  "new_client_handles = \<lparr>ow_socket = None, ow_transport = None, ow_ctx = None\<rparr>"

text \<open>Resetting or replacing the \<open>unique_ptr\<close> destroys the old transport.\<close>

definition destroy_transport :: "tls_object option \<Rightarrow> ledger \<Rightarrow> ledger option" where
  "destroy_transport x w = (case x of None \<Rightarrow> Some w | Some t \<Rightarrow> destroy_tls t w)"

definition disconnect_owned :: "client_handles \<Rightarrow> ledger \<Rightarrow> (client_handles \<times> ledger) option" where
  "disconnect_owned h w = do {
     w \<leftarrow> destroy_transport (ow_transport h) w;
     w \<leftarrow> opt_release Fd (ow_socket h) w;
     Some (h\<lparr>ow_transport := None, ow_socket := None\<rparr>, w)
   }"

text \<open>\<open>initialize\<close> stores the new context over the old one.\<close>

definition initialize_owned :: "bool \<Rightarrow> client_handles \<Rightarrow> ledger \<Rightarrow> client_handles \<times> ledger" where
  "initialize_owned made h w =
     (if made then let (a, w) = acquire SslCtx w in (h\<lparr>ow_ctx := Some a\<rparr>, w) else (h\<lparr>ow_ctx := None\<rparr>, w))"

definition connect_owned ::
  "bool \<Rightarrow> 't network \<Rightarrow> client_handles \<Rightarrow> ledger \<Rightarrow> (client_handles \<times> ledger) option" where
  "connect_owned made net h w =
     (let (h, w) = initialize_owned made h w
      in if \<not> (made \<and> net_tls net) then Some (h, w)
         else if \<not> net_socket net then Some (h\<lparr>ow_socket := None\<rparr>, w)
         else let (socket_fd, w) = acquire Fd w
              in if \<not> net_address net \<or> \<not> net_connect net \<or> \<not> net_ssl net
                 then do { w \<leftarrow> release (Fd socket_fd) w; Some (h\<lparr>ow_socket := None\<rparr>, w) }
                 else let (ssl, w) = ssl_new_fd socket_fd w
                      in case net_handshake net of
                           None \<Rightarrow> do {
                             w \<leftarrow> release (SslObj ssl) w;
                             w \<leftarrow> release (Fd socket_fd) w;
                             Some (h\<lparr>ow_socket := None\<rparr>, w)
                           }
                         | Some t \<Rightarrow> do {
                             w \<leftarrow> destroy_transport (ow_transport h) w;
                             Some (h\<lparr>ow_socket := Some socket_fd,
                                     ow_transport := Some (tls_object socket_fd (Some ssl) True)\<rparr>, w)
                           })"

definition destroy_client_context :: "client_handles \<Rightarrow> ledger \<Rightarrow> ledger option" where
  "destroy_client_context h w = opt_release SslCtx (ow_ctx h) w"

text \<open>\<open>~InternalClient\<close>, and after its body \<open>~TlsClientContext\<close>.\<close>

definition destroy_client :: "client_handles \<Rightarrow> ledger \<Rightarrow> ledger option" where
  "destroy_client h w = do { (h, w) \<leftarrow> disconnect_owned h w; destroy_client_context h w }"

text \<open>The calls of the client object that touch these; the others only use the transport.\<close>

datatype 't client_call = Connecting bool "'t network" string string | Disconnecting

fun client_calls_owned ::
  "'t client_call list \<Rightarrow> client_handles \<Rightarrow> ledger \<Rightarrow> (client_handles \<times> ledger) option" where
  "client_calls_owned [] h w = Some (h, w)"
| "client_calls_owned (Connecting made net user pass # rest) h w =
     do { (h, w) \<leftarrow> connect_owned made net h w; client_calls_owned rest h w }"
| "client_calls_owned (Disconnecting # rest) h w =
     do { (h, w) \<leftarrow> disconnect_owned h w; client_calls_owned rest h w }"

section \<open>What is lost\<close>

definition established :: "'t network \<Rightarrow> bool" where
  "established net \<longleftrightarrow> net_socket net \<and> net_address net \<and> net_connect net \<and> net_ssl net \<and> net_handshake net \<noteq> None"

text \<open>The descriptors that a connect overwrites while the client still has one, and the contexts that
  an \<open>initialize\<close> overwrites.\<close>

fun lost_descriptors :: "bool \<Rightarrow> 't client_call list \<Rightarrow> nat" where
  "lost_descriptors has [] = 0"
| "lost_descriptors has (Connecting made net user pass # rest) =
     (if made \<and> net_tls net then of_bool has + lost_descriptors (established net) rest
      else lost_descriptors has rest)"
| "lost_descriptors has (Disconnecting # rest) = lost_descriptors False rest"

fun lost_contexts :: "bool \<Rightarrow> 't client_call list \<Rightarrow> nat" where
  "lost_contexts has [] = 0"
| "lost_contexts has (Connecting made net user pass # rest) = of_bool has + lost_contexts made rest"
| "lost_contexts has (Disconnecting # rest) = lost_contexts has rest"

definition fds :: "ledger \<Rightarrow> nat set" where
  "fds w = {n. Fd n \<in> set (held w)}"

definition ssls :: "ledger \<Rightarrow> nat set" where
  "ssls w = {n. SslObj n \<in> set (held w)}"

definition ctxs :: "ledger \<Rightarrow> nat set" where
  "ctxs w = {n. SslCtx n \<in> set (held w)}"

lemma finite_held [simp]: "finite (fds w)" "finite (ssls w)" "finite (ctxs w)"
  unfolding fds_def ssls_def ctxs_def
  by (rule finite_vimageI [of "set (held w)" Fd, unfolded vimage_def], simp, simp add: inj_def,
      rule finite_vimageI [of "set (held w)" SslObj, unfolded vimage_def], simp, simp add: inj_def,
      rule finite_vimageI [of "set (held w)" SslCtx, unfolded vimage_def], simp, simp add: inj_def)

lemma acquire_result:
  assumes "acquire k w = (a, w')" and "ledger_ok w" and "res_id (k a) = a"
  shows "ledger_ok w' \<and> set (held w') = insert (k a) (set (held w)) \<and> k a \<notin> set (held w) \<and>
    ssl_fd w' = ssl_fd w \<and> shutdowns w' = shutdowns w"
proof -
  have w': "a = next_id w" "w' = w\<lparr>held := k a # held w, next_id := Suc a\<rparr>"
    using assms(1) by (auto simp: acquire_def)
  have "k a \<notin> set (held w)" "k a \<notin> set (released w)"
    using fresh [OF assms(2), of "k a"] assms(3) w' by simp_all
  with w' assms(2,3) show ?thesis
    by (auto simp: ledger_ok_def less_Suc_eq)
qed

lemma release_result:
  assumes "ledger_ok w" and "r \<in> set (held w)"
  obtains w' where "release r w = Some w'" "ledger_ok w'" "set (held w') = set (held w) - {r}"
    "ssl_fd w' = ssl_fd w" "shutdowns w' = shutdowns w"
  using assms by (auto simp: release_def ledger_ok_def)

definition handles_ok :: "client_handles \<Rightarrow> ledger \<Rightarrow> bool" where
  "handles_ok h w \<longleftrightarrow> ledger_ok w \<and>
     (\<forall>fd. ow_socket h = Some fd \<longrightarrow> fd \<in> fds w) \<and>
     (\<forall>a. ow_ctx h = Some a \<longrightarrow> a \<in> ctxs w) \<and>
     ssls w = (case ow_transport h of None \<Rightarrow> {} | Some x \<Rightarrow> set_option (to_ssl x)) \<and>
     (\<forall>x. ow_transport h = Some x \<longrightarrow> take_ownership x \<and> to_fd x \<in> fds w \<and>
        (\<exists>a. to_ssl x = Some a \<and> ssl_fd w a = Some (to_fd x))) \<and>
     (\<forall>d\<in>set (shutdowns w). snd d)"


lemmas held_sets = fds_def ssls_def ctxs_def

lemma destroy_transport_ok:
  assumes "handles_ok h w"
  obtains w' where "destroy_transport (ow_transport h) w = Some w'" "handles_ok (h\<lparr>ow_transport := None\<rparr>) w'"
    "fds w' = fds w" "ctxs w' = ctxs w" "ssl_fd w' = ssl_fd w"
proof (cases "ow_transport h")
  case None
  with assms show thesis
    by (intro that [of w]) (auto simp: destroy_transport_def handles_ok_def)
next
  case (Some x)
  obtain a where a: "to_ssl x = Some a" "take_ownership x" "ssl_fd w a = Some (to_fd x)" "to_fd x \<in> fds w"
    "ledger_ok w" "ssls w = {a}"
    using assms Some by (auto simp: handles_ok_def)
  define w1 where "w1 = w\<lparr>shutdowns := shutdowns w @ [(a, True)]\<rparr>"
  have sh: "ssl_shutdown a w = Some w1"
    using a by (auto simp: ssl_shutdown_def w1_def held_sets)
  have w1: "ledger_ok w1" "SslObj a \<in> set (held w1)"
    using a by (auto simp: ledger_ok_def w1_def held_sets)
  obtain w' where w': "release (SslObj a) w1 = Some w'" "ledger_ok w'" "set (held w') = set (held w1) - {SslObj a}"
    "ssl_fd w' = ssl_fd w1" "shutdowns w' = shutdowns w1"
    using release_result [OF w1] .
  show thesis
  proof (rule that)
    show "destroy_transport (ow_transport h) w = Some w'"
      using Some a sh w' by (simp add: destroy_transport_def destroy_tls_def)
    show "fds w' = fds w" "ctxs w' = ctxs w" "ssl_fd w' = ssl_fd w"
      using w' by (simp_all add: held_sets w1_def)
    then show "handles_ok (h\<lparr>ow_transport := None\<rparr>) w'"
      using assms w' a by (auto simp: handles_ok_def w1_def held_sets)
  qed
qed

lemma disconnect_ok:
  assumes "handles_ok h w"
  obtains w' where "disconnect_owned h w = Some (h\<lparr>ow_transport := None, ow_socket := None\<rparr>, w')"
    "handles_ok (h\<lparr>ow_transport := None, ow_socket := None\<rparr>) w'"
    "fds w' = fds w - set_option (ow_socket h)" "ctxs w' = ctxs w"
proof -
  obtain w1 where w1: "destroy_transport (ow_transport h) w = Some w1" "handles_ok (h\<lparr>ow_transport := None\<rparr>) w1"
    "fds w1 = fds w" "ctxs w1 = ctxs w"
    using destroy_transport_ok [OF assms] by metis
  show thesis
  proof (cases "ow_socket h")
    case None
    with w1 show thesis
      by (intro that [of w1]) (auto simp: disconnect_owned_def opt_release_def handles_ok_def)
  next
    case (Some fd)
    have "ledger_ok w1" "Fd fd \<in> set (held w1)"
      using w1 Some by (auto simp: handles_ok_def held_sets)
    then obtain w' where w': "release (Fd fd) w1 = Some w'" "ledger_ok w'" "set (held w') = set (held w1) - {Fd fd}"
      "ssl_fd w' = ssl_fd w1" "shutdowns w' = shutdowns w1"
      using release_result by metis
    with w1 Some show thesis
      by (intro that [of w']) (auto simp: disconnect_owned_def opt_release_def handles_ok_def held_sets)
  qed
qed

lemma initialize_ok:
  assumes "handles_ok h w" and "initialize_owned made h w = (h', w')"
  shows "handles_ok h' w' \<and> fds w' = fds w \<and> ow_socket h' = ow_socket h \<and> ow_transport h' = ow_transport h \<and>
    (ow_ctx h' \<noteq> None) = made \<and> card (ctxs w') = card (ctxs w) + of_bool made"
proof (cases made)
  case True
  then obtain a where a: "acquire SslCtx w = (a, w')" "h' = h\<lparr>ow_ctx := Some a\<rparr>"
    using assms(2) by (auto simp: initialize_owned_def split: prod.splits)
  have ok: "ledger_ok w'" "set (held w') = insert (SslCtx a) (set (held w))" "SslCtx a \<notin> set (held w)"
    "ssl_fd w' = ssl_fd w" "shutdowns w' = shutdowns w"
    using acquire_result [OF a(1)] assms(1) by (auto simp: handles_ok_def)
  have s: "fds w' = fds w" "ssls w' = ssls w" "ctxs w' = insert a (ctxs w)" "a \<notin> ctxs w"
    using ok by (auto simp: held_sets)
  with a ok assms(1) True show ?thesis
    by (auto simp: handles_ok_def)
qed (use assms in \<open>auto simp: initialize_owned_def handles_ok_def\<close>)

text \<open>A socket that is closed again on the way leaves the ledger as it was.\<close>

lemma handles_ok_same:
  assumes "handles_ok h w" and "ledger_ok w'" and "set (held w') = set (held w)" and "shutdowns w' = shutdowns w"
    and "\<And>a. SslObj a \<in> set (held w) \<Longrightarrow> ssl_fd w' a = ssl_fd w a"
  shows "handles_ok (h\<lparr>ow_socket := None\<rparr>) w' \<and> fds w' = fds w \<and> ctxs w' = ctxs w"
proof -
  have s: "fds w' = fds w" "ssls w' = ssls w" "ctxs w' = ctxs w"
    using assms(3) by (simp_all add: held_sets)
  have "ssl_fd w' a = ssl_fd w a" if "a \<in> ssls w" for a
    using assms(5) that by (simp add: held_sets)
  with s assms(1,2,4) show ?thesis
    by (auto simp: handles_ok_def)
qed

lemma socket_closed_again:
  assumes "handles_ok h w" and "acquire Fd w = (fd, w1)"
  obtains w' where "release (Fd fd) w1 = Some w'" "handles_ok (h\<lparr>ow_socket := None\<rparr>) w'" "fds w' = fds w" "ctxs w' = ctxs w"
proof -
  have w1: "ledger_ok w1" "set (held w1) = insert (Fd fd) (set (held w))" "Fd fd \<notin> set (held w)"
    "ssl_fd w1 = ssl_fd w" "shutdowns w1 = shutdowns w"
    using acquire_result [OF assms(2)] assms(1) by (auto simp: handles_ok_def)
  obtain w' where "release (Fd fd) w1 = Some w'" "ledger_ok w'" "set (held w') = set (held w1) - {Fd fd}"
    "ssl_fd w' = ssl_fd w1" "shutdowns w' = shutdowns w1"
    using release_result [OF w1(1), of "Fd fd"] w1(2) by auto
  with w1 handles_ok_same [OF assms(1), of w'] that show thesis by simp
qed

lemma ssl_new_result:
  assumes "ssl_new_fd fd w = (a, w')" and "ledger_ok w"
  shows "ledger_ok w' \<and> set (held w') = insert (SslObj a) (set (held w)) \<and> SslObj a \<notin> set (held w) \<and>
    ssl_fd w' = (ssl_fd w)(a \<mapsto> fd) \<and> shutdowns w' = shutdowns w"
proof -
  obtain w1 where w1: "acquire SslObj w = (a, w1)" "w' = w1\<lparr>ssl_fd := (ssl_fd w1)(a \<mapsto> fd)\<rparr>"
    using assms(1) by (auto simp: ssl_new_fd_def split: prod.splits)
  have "ledger_ok (w1\<lparr>ssl_fd := g\<rparr>) = ledger_ok w1" for g
    by (simp add: ledger_ok_def)
  with acquire_result [OF w1(1) assms(2)] w1(2) show ?thesis by simp
qed

lemma handshake_failed:
  assumes "handles_ok h w" and "acquire Fd w = (fd, w1)" and "ssl_new_fd fd w1 = (a, w2)"
  obtains w3 w' where "release (SslObj a) w2 = Some w3" "release (Fd fd) w3 = Some w'"
    "handles_ok (h\<lparr>ow_socket := None\<rparr>) w'" "fds w' = fds w" "ctxs w' = ctxs w"
proof -
  have w1: "ledger_ok w1" "set (held w1) = insert (Fd fd) (set (held w))" "Fd fd \<notin> set (held w)"
    "ssl_fd w1 = ssl_fd w" "shutdowns w1 = shutdowns w"
    using acquire_result [OF assms(2)] assms(1) by (auto simp: handles_ok_def)
  have w2: "ledger_ok w2" "set (held w2) = insert (SslObj a) (set (held w1))" "SslObj a \<notin> set (held w1)"
    "ssl_fd w2 = (ssl_fd w1)(a \<mapsto> fd)" "shutdowns w2 = shutdowns w1"
    using ssl_new_result [OF assms(3) w1(1)] by auto
  obtain w3 where w3: "release (SslObj a) w2 = Some w3" "ledger_ok w3" "set (held w3) = set (held w2) - {SslObj a}"
    "ssl_fd w3 = ssl_fd w2" "shutdowns w3 = shutdowns w2"
    using release_result [OF w2(1), of "SslObj a"] w2(2) by auto
  obtain w' where w': "release (Fd fd) w3 = Some w'" "ledger_ok w'" "set (held w') = set (held w3) - {Fd fd}"
    "ssl_fd w' = ssl_fd w3" "shutdowns w' = shutdowns w3"
    using release_result [OF w3(2), of "Fd fd"] w3(3) w2(2) w1(2) by auto
  have "handles_ok (h\<lparr>ow_socket := None\<rparr>) w' \<and> fds w' = fds w \<and> ctxs w' = ctxs w"
    using w1 w2 w3 w' by (intro handles_ok_same [OF assms(1)]) auto
  with w3(1) w'(1) that show thesis by blast
qed

lemma handshake_done:
  assumes "handles_ok h w" and "acquire Fd w = (fd, w1)" and "ssl_new_fd fd w1 = (a, w2)"
  obtains w' where "destroy_transport (ow_transport h) w2 = Some w'"
    "handles_ok (h\<lparr>ow_socket := Some fd, ow_transport := Some (tls_object fd (Some a) True)\<rparr>) w'"
    "card (fds w') = Suc (card (fds w))" "ctxs w' = ctxs w"
proof -
  have w1: "ledger_ok w1" "set (held w1) = insert (Fd fd) (set (held w))" "Fd fd \<notin> set (held w)"
    "ssl_fd w1 = ssl_fd w" "shutdowns w1 = shutdowns w"
    using acquire_result [OF assms(2)] assms(1) by (auto simp: handles_ok_def)
  have w2: "ledger_ok w2" "set (held w2) = insert (SslObj a) (set (held w1))" "SslObj a \<notin> set (held w1)"
    "ssl_fd w2 = (ssl_fd w1)(a \<mapsto> fd)" "shutdowns w2 = shutdowns w1"
    using ssl_new_result [OF assms(3) w1(1)] by auto
  show thesis
  proof (cases "ow_transport h")
    case None
    have s: "fds w2 = insert fd (fds w)" "fd \<notin> fds w" "ssls w2 = {a}" "ctxs w2 = ctxs w"
      using w1 w2 assms(1) None by (auto simp: held_sets handles_ok_def)
    with w1 w2 None assms(1) show thesis
      by (intro that [of w2]) (auto simp: destroy_transport_def handles_ok_def tls_object_def)
  next
    case (Some x)
    obtain b where b: "to_ssl x = Some b" "take_ownership x" "ssl_fd w b = Some (to_fd x)" "to_fd x \<in> fds w"
      "ssls w = {b}"
      using assms(1) Some by (auto simp: handles_ok_def)
    have ab: "a \<noteq> b"
      using b(5) w1 w2 by (auto simp: held_sets)
    define w3 where "w3 = w2\<lparr>shutdowns := shutdowns w2 @ [(b, True)]\<rparr>"
    have sh: "ssl_shutdown b w2 = Some w3"
      using b w1 w2 ab by (auto simp: ssl_shutdown_def w3_def held_sets)
    have w3: "ledger_ok w3" "SslObj b \<in> set (held w3)"
      using b w1 w2 by (auto simp: ledger_ok_def w3_def held_sets)
    obtain w' where w': "release (SslObj b) w3 = Some w'" "ledger_ok w'" "set (held w') = set (held w3) - {SslObj b}"
      "ssl_fd w' = ssl_fd w3" "shutdowns w' = shutdowns w3"
      using release_result [OF w3] .
    have s: "fds w' = insert fd (fds w)" "fd \<notin> fds w" "ssls w' = {a}" "ctxs w' = ctxs w"
      using w' w1 w2 ab b(5) by (auto simp: held_sets w3_def)
    show thesis
    proof (rule that)
      show "destroy_transport (ow_transport h) w2 = Some w'"
        using Some b sh w' by (simp add: destroy_transport_def destroy_tls_def)
      show "handles_ok (h\<lparr>ow_socket := Some fd, ow_transport := Some (tls_object fd (Some a) True)\<rparr>) w'"
        using assms(1) w' w1 w2 s by (auto simp: handles_ok_def w3_def tls_object_def)
    qed (use s in simp_all)
  qed
qed

lemma connect_ok:
  assumes "handles_ok h w"
  obtains h' w' where "connect_owned made net h w = Some (h', w')" "handles_ok h' w'"
    "card (fds w') = card (fds w) + of_bool (made \<and> net_tls net \<and> established net)"
    "(ow_socket h' \<noteq> None) = (if made \<and> net_tls net then established net else ow_socket h \<noteq> None)"
    "(ow_transport h' \<noteq> None) = (made \<and> net_tls net \<and> established net \<or> ow_transport h \<noteq> None)"
    "(ow_ctx h' \<noteq> None) = made" "card (ctxs w') = card (ctxs w) + of_bool made"
proof -
  obtain h1 w1 where i: "initialize_owned made h w = (h1, w1)" by force
  note I = initialize_ok [OF assms i]
  obtain fd w2 where fd: "acquire Fd w1 = (fd, w2)" by force
  obtain a w3 where ssl: "ssl_new_fd fd w2 = (a, w3)" by force
  note e = connect_owned_def i fd ssl established_def
  consider (tls) "\<not> (made \<and> net_tls net)"
    | (sock) "made" "net_tls net" "\<not> net_socket net"
    | (close) "made" "net_tls net" "net_socket net" "\<not> net_address net \<or> \<not> net_connect net \<or> \<not> net_ssl net"
    | (handshake) "made" "net_tls net" "net_socket net" "net_address net" "net_connect net" "net_ssl net"
        "net_handshake net = None"
    | (finished) t where "made" "net_tls net" "net_socket net" "net_address net" "net_connect net" "net_ssl net"
        "net_handshake net = Some t"
    by blast
  then show thesis
  proof cases
    case tls
    with I show thesis
      by (intro that [of h1 w1]) (auto simp: e)
  next
    case sock
    with I i show thesis
      by (intro that [of "h1\<lparr>ow_socket := None\<rparr>" w1]) (auto simp: e handles_ok_def)
  next
    case close
    obtain w' where "release (Fd fd) w2 = Some w'" "handles_ok (h1\<lparr>ow_socket := None\<rparr>) w'"
      "fds w' = fds w1" "ctxs w' = ctxs w1"
      using socket_closed_again [OF _ fd] I by metis
    with close I i show thesis
      by (intro that [of "h1\<lparr>ow_socket := None\<rparr>" w']) (auto simp: e)
  next
    case handshake
    obtain w4 w' where "release (SslObj a) w3 = Some w4" "release (Fd fd) w4 = Some w'"
      "handles_ok (h1\<lparr>ow_socket := None\<rparr>) w'" "fds w' = fds w1" "ctxs w' = ctxs w1"
      using handshake_failed [OF _ fd ssl] I by metis
    with handshake I i show thesis
      by (intro that [of "h1\<lparr>ow_socket := None\<rparr>" w']) (auto simp: e)
  next
    case finished
    obtain w' where "destroy_transport (ow_transport h1) w3 = Some w'"
      "handles_ok (h1\<lparr>ow_socket := Some fd, ow_transport := Some (tls_object fd (Some a) True)\<rparr>) w'"
      "card (fds w') = Suc (card (fds w1))" "ctxs w' = ctxs w1"
      using handshake_done [OF _ fd ssl] I by metis
    with finished I i show thesis
      by (intro that [of "h1\<lparr>ow_socket := Some fd, ow_transport := Some (tls_object fd (Some a) True)\<rparr>" w'])
        (auto simp: e)
  qed
qed

lemma client_calls_ok:
  assumes "handles_ok h w"
  shows "\<exists>h' w'. client_calls_owned cs h w = Some (h', w') \<and> handles_ok h' w' \<and>
    card (fds w') + of_bool (ow_socket h \<noteq> None) =
      card (fds w) + of_bool (ow_socket h' \<noteq> None) + lost_descriptors (ow_socket h \<noteq> None) cs \<and>
    card (ctxs w') + of_bool (ow_ctx h \<noteq> None) =
      card (ctxs w) + of_bool (ow_ctx h' \<noteq> None) + lost_contexts (ow_ctx h \<noteq> None) cs"
  using assms
proof (induction cs h w rule: client_calls_owned.induct)
  case (2 made net user pass rest h w)
  obtain h1 w1 where c: "connect_owned made net h w = Some (h1, w1)" "handles_ok h1 w1"
    "card (fds w1) = card (fds w) + of_bool (made \<and> net_tls net \<and> established net)"
    "(ow_socket h1 \<noteq> None) = (if made \<and> net_tls net then established net else ow_socket h \<noteq> None)"
    "(ow_ctx h1 \<noteq> None) = made" "card (ctxs w1) = card (ctxs w) + of_bool made"
    using connect_ok [OF 2(2)] by metis
  obtain h' w' where "client_calls_owned rest h1 w1 = Some (h', w')" "handles_ok h' w'"
    "card (fds w') + of_bool (ow_socket h1 \<noteq> None) =
      card (fds w1) + of_bool (ow_socket h' \<noteq> None) + lost_descriptors (ow_socket h1 \<noteq> None) rest"
    "card (ctxs w') + of_bool (ow_ctx h1 \<noteq> None) =
      card (ctxs w1) + of_bool (ow_ctx h' \<noteq> None) + lost_contexts (ow_ctx h1 \<noteq> None) rest"
    using 2(1) [OF c(1) refl c(2)] by blast
  with c show ?case
    by (intro exI [of _ h'] exI [of _ w']) (cases made; cases "net_tls net"; simp)
next
  case (3 rest h w)
  obtain w1 where d: "disconnect_owned h w = Some (h\<lparr>ow_transport := None, ow_socket := None\<rparr>, w1)"
    "handles_ok (h\<lparr>ow_transport := None, ow_socket := None\<rparr>) w1"
    "fds w1 = fds w - set_option (ow_socket h)" "ctxs w1 = ctxs w"
    using disconnect_ok [OF 3(2)] by metis
  have "card (fds w) = card (fds w1) + of_bool (ow_socket h \<noteq> None)"
    using d(3) 3(2) card_Suc_Diff1 [of "fds w"] by (cases "ow_socket h") (auto simp: handles_ok_def)
  with 3(1) [OF d(1) refl d(2)] d show ?case
    by force
qed auto

section \<open>The client and its resources\<close>

text \<open>The handles are the ones of the client object: it has a socket and a transport when they do.\<close>

definition agrees :: "'t client \<Rightarrow> client_handles \<Rightarrow> bool" where
  "agrees c h \<longleftrightarrow> cl_socket c = (ow_socket h \<noteq> None) \<and> (cl_transport c \<noteq> None) = (ow_transport h \<noteq> None)"

text \<open>The network that \<open>connect\<close> meets when \<open>SSL_CTX_new\<close> gives \<open>made\<close>.\<close>

definition with_ctx :: "bool \<Rightarrow> 't network \<Rightarrow> 't network" where
  "with_ctx made net = net\<lparr>net_tls := made \<and> net_tls net\<rparr>"

lemma log_msg_handles [simp]:
  "cl_socket (log_msg m c) = cl_socket c" "cl_transport (log_msg m c) = cl_transport c"
  by (simp_all add: log_msg_def)

lemma connect_handles:
  "cl_socket (snd (connect T A net u p c)) = (if net_tls net then established net else cl_socket c) \<and>
   (cl_transport (snd (connect T A net u p c)) \<noteq> None) = (net_tls net \<and> established net \<or> cl_transport c \<noteq> None)"
proof (cases "net_tls net \<and> established net")
  case True
  then obtain t where t: "net_handshake net = Some t" by (auto simp: established_def)
  obtain ok t1 where 1: "sendPacket T t (authRequest u p) = (ok, t1)" by force
  obtain r t2 where 2: "receivePacket T A t1 = (r, t2)" by force
  from True t 1 2 show ?thesis
    by (cases ok; cases r) (auto simp: connect_def established_def Let_def split: parse.split bool.split prod.split)
qed (auto simp: connect_def established_def split: option.split)

lemma connect_agrees:
  assumes "handles_ok h w" and "connect_owned made net h w = Some (h', w')" and "agrees c h"
  shows "agrees (snd (connect T A (with_ctx made net) u p c)) h'"
proof -
  obtain h1 w1 where "connect_owned made net h w = Some (h1, w1)"
    "(ow_socket h1 \<noteq> None) = (if made \<and> net_tls net then established net else ow_socket h \<noteq> None)"
    "(ow_transport h1 \<noteq> None) = (made \<and> net_tls net \<and> established net \<or> ow_transport h \<noteq> None)"
    using connect_ok [OF assms(1)] by metis
  moreover have "established (with_ctx made net) = established net" "net_tls (with_ctx made net) = (made \<and> net_tls net)"
    by (simp_all add: with_ctx_def established_def)
  ultimately show ?thesis
    using assms(2,3) connect_handles [of T A "with_ctx made net" u p c] by (auto simp: agrees_def)
qed

lemma disconnect_agrees:
  "disconnect_owned h w = Some (h', w') \<Longrightarrow> agrees (snd (disconnect c)) h'"
  by (auto simp: disconnect_owned_def disconnect_def agrees_def bind_eq_Some_conv)

fun client_calls :: "'t transport \<Rightarrow> nat \<Rightarrow> 't client_call list \<Rightarrow> 't client \<Rightarrow> 't client" where
  "client_calls T A [] c = c"
| "client_calls T A (Connecting made net user pass # rest) c =
     client_calls T A rest (snd (connect T A (with_ctx made net) user pass c))"
| "client_calls T A (Disconnecting # rest) c = client_calls T A rest (snd (disconnect c))"

lemma client_calls_agree:
  assumes "handles_ok h w" and "client_calls_owned cs h w = Some (h', w')" and "agrees c h"
  shows "agrees (client_calls T A cs c) h'"
  using assms
proof (induction cs h w arbitrary: c rule: client_calls_owned.induct)
  case (2 made net user pass rest h w)
  obtain h1 w1 where c: "connect_owned made net h w = Some (h1, w1)" "handles_ok h1 w1"
    using connect_ok [OF 2(2)] by metis
  show ?case
    using 2(1) [OF c(1) refl c(2)] 2(3) c(1) connect_agrees [OF 2(2) c(1) 2(4)] by simp
next
  case (3 rest h w)
  obtain h1 w1 where d: "disconnect_owned h w = Some (h1, w1)" "handles_ok h1 w1"
    using disconnect_ok [OF 3(2)] by metis
  show ?case
    using 3(1) [OF d(1) refl d(2)] 3(3) d(1) disconnect_agrees [OF d(1), of c] by simp
qed simp

lemma destroy_client_ok:
  assumes "handles_ok h w"
  obtains w' where "destroy_client h w = Some w'" "ledger_ok w'" "ssls w' = {}" "\<forall>d\<in>set (shutdowns w'). snd d"
    "card (fds w) = card (fds w') + of_bool (ow_socket h \<noteq> None)"
    "card (ctxs w) = card (ctxs w') + of_bool (ow_ctx h \<noteq> None)"
proof -
  obtain w1 where d: "disconnect_owned h w = Some (h\<lparr>ow_transport := None, ow_socket := None\<rparr>, w1)"
    "handles_ok (h\<lparr>ow_transport := None, ow_socket := None\<rparr>) w1"
    "fds w1 = fds w - set_option (ow_socket h)" "ctxs w1 = ctxs w"
    using disconnect_ok [OF assms] by metis
  have f: "card (fds w) = card (fds w1) + of_bool (ow_socket h \<noteq> None)"
    using d(3) assms card_Suc_Diff1 [of "fds w"] by (cases "ow_socket h") (auto simp: handles_ok_def)
  show thesis
  proof (cases "ow_ctx h")
    case None
    then show thesis
      using d f by (intro that [of w1]) (auto simp: destroy_client_def destroy_client_context_def opt_release_def handles_ok_def)
  next
    case (Some a)
    have "ledger_ok w1" "SslCtx a \<in> set (held w1)"
      using d(2) Some by (auto simp: handles_ok_def held_sets)
    then obtain w' where w': "release (SslCtx a) w1 = Some w'" "ledger_ok w'" "set (held w') = set (held w1) - {SslCtx a}"
      "shutdowns w' = shutdowns w1"
      using release_result by metis
    have s: "fds w' = fds w1" "ssls w' = ssls w1" "ctxs w' = ctxs w1 - {a}"
      using w'(3) by (auto simp: held_sets)
    have "a \<in> ctxs w1"
      using d(2) Some by (auto simp: handles_ok_def)
    then have "card (ctxs w) = card (ctxs w') + 1"
      using s(3) d(4) card_Suc_Diff1 [of "ctxs w1" a] by simp
    with w' s Some d f show thesis
      by (intro that [of w']) (auto simp: destroy_client_def destroy_client_context_def opt_release_def handles_ok_def)
  qed
qed


section \<open>Instances\<close>

lemma run_resources_witness:
  "\<exists>w'. run_owned 1 sample_cfg sample_link [None, Some (NoCertificate, ([], [])), Some (Verified, ([1, 2, 3], []))]
      sample_server no_resources = Some (Some sample_server, w') \<and> held w' = []"
proof -
  have r: "run 1 sample_cfg sample_link [None, Some (NoCertificate, ([], [])), Some (Verified, ([1, 2, 3], []))]
      sample_server = Some sample_server"
    by (simp add: handleClient_def receivePacket_def sample_link_def header_len_def)
  show ?thesis
    using run_resources [OF no_resources_ok, of 1 sample_cfg sample_link
        "[None, Some (NoCertificate, ([], [])), Some (Verified, ([1, 2, 3], []))]" sample_server] r
    by (auto simp: settled_def no_resources_def)
qed


text \<open>Disconnecting before every further connect loses no socket.\<close>

fun disconnects_between :: "bool \<Rightarrow> 't client_call list \<Rightarrow> bool" where
  "disconnects_between has [] = True"
| "disconnects_between has (Connecting made net user pass # rest) = (\<not> has \<and> disconnects_between True rest)"
| "disconnects_between has (Disconnecting # rest) = disconnects_between False rest"

lemma lost_descriptors_mono: "lost_descriptors False cs \<le> lost_descriptors True cs"
proof (induction cs)
  case (Cons a rest)
  then show ?case by (cases a) auto
qed simp

lemma careful_client_loses_no_socket:
  "disconnects_between has cs \<Longrightarrow> lost_descriptors has cs = 0"
proof (induction has cs rule: disconnects_between.induct)
  case (2 has made net user pass rest)
  then show ?case
    using lost_descriptors_mono [of rest] by (auto simp: of_bool_def) (metis (full_types) le_zero_eq)
qed auto

end
