(* ===== verification/Double.thy ===== *)
theory Double
  imports Complex_Main
begin

text \<open>
  The arithmetic on \<open>double\<close> that the command line client uses, on the rational values: conversion of an
  unsigned number, product and quotient, each rounded to the nearest value with a significand of 53
  bits, ties to the even one, as IEEE 754 does by default.  The values stay between \<open>2^(-64)\<close> and
  \<open>2^73\<close>, far from overflow and from the subnormal numbers.
\<close>

section \<open>Rounding to an integer\<close>

definition half_even :: "rat \<Rightarrow> int" where
  "half_even x =
     (let n = \<lfloor>x\<rfloor>; d = x - of_int n
      in if d < 1 / 2 \<or> (d = 1 / 2 \<and> even n) then n else n + 1)"

lemma half_even_bounds: "\<lfloor>x\<rfloor> \<le> half_even x \<and> half_even x \<le> \<lfloor>x\<rfloor> + 1"
  by (simp add: half_even_def Let_def)

lemma half_even_mono: "x \<le> y \<Longrightarrow> half_even x \<le> half_even y"
proof (cases "\<lfloor>x\<rfloor> = \<lfloor>y\<rfloor>")
  case True
  assume "x \<le> y"
  with True show ?thesis
    by (auto simp: half_even_def Let_def)
next
  case False
  assume "x \<le> y"
  then have "\<lfloor>x\<rfloor> + 1 \<le> \<lfloor>y\<rfloor>"
    using False floor_mono [of x y] by simp
  then show ?thesis
    using half_even_bounds [of x] half_even_bounds [of y] by linarith
qed

lemma half_even_of_int [simp]: "half_even (of_int n) = n"
  by (simp add: half_even_def)

section \<open>Rounding to 53 bits\<close>

text \<open>The power of two under a value: the first of the range that is not too small.\<close>

definition binade :: "rat \<Rightarrow> int" where
  "binade x = (case find (\<lambda>e. x < 2 powi (e + 1)) [- 128..128] of Some e \<Rightarrow> e | None \<Rightarrow> 128)"

definition rounded :: "rat \<Rightarrow> rat" where
  "rounded x = (let q = 2 powi (binade x - 52) in of_int (half_even (x / q)) * q)"

lemma find_upto_Some:
  "find P [i..j] = Some e \<Longrightarrow> i \<le> e \<and> P e \<and> (\<forall>k. i \<le> k \<and> k < e \<longrightarrow> \<not> P k)"
proof (induction i j rule: upto.induct)
  case (1 i j)
  show ?case
  proof (cases "i \<le> j \<and> \<not> P i")
    case True
    then have "find P [i + 1..j] = Some e"
      using 1(2) by (simp add: upto.simps [of i])
    with 1(1) True have "i + 1 \<le> e \<and> P e \<and> (\<forall>k. i + 1 \<le> k \<and> k < e \<longrightarrow> \<not> P k)"
      by blast
    with True show ?thesis
      by (metis add1_zle_eq order_le_less zle_add1_eq_le)
  next
    case False
    with 1(2) show ?thesis
      by (cases "i \<le> j") (auto simp: upto.simps [of i])
  qed
qed

lemma binade_bounds:
  assumes "x < 2 ^ 129"
  shows "x < 2 powi (binade x + 1) \<and> - 128 \<le> binade x \<and> (- 128 < binade x \<longrightarrow> 2 powi binade x \<le> x)"
proof (cases "find (\<lambda>e. x < 2 powi (e + 1)) [- 128..128]")
  case None
  then have "\<forall>e\<in>{- 128..128}. \<not> x < 2 powi (e + 1)"
    by (simp add: find_None_iff del: upto_rec_numeral)
  from bspec [OF this, of 128] have "\<not> x < 2 powi 129"
    by simp
  with assms show ?thesis by simp
next
  case (Some e)
  have e: "- 128 \<le> e" "x < 2 powi (e + 1)" "\<forall>k. - 128 \<le> k \<and> k < e \<longrightarrow> \<not> x < 2 powi (k + 1)"
    using find_upto_Some [OF Some] by simp_all
  have "2 powi e \<le> x" if "- 128 < e"
    using spec [OF e(3), of "e - 1"] that by (simp add: not_less)
  with e(1,2) show ?thesis by (simp add: binade_def Some del: upto_rec_numeral)
qed

lemma binade_mono:
  assumes "x \<le> y" and "y < 2 ^ 129"
  shows "binade x \<le> binade y"
proof (rule ccontr)
  assume "\<not> binade x \<le> binade y"
  then have l: "binade y + 1 \<le> binade x" "- 128 < binade x"
    using binade_bounds [OF assms(2)] by linarith+
  have "2 powi (binade y + 1) \<le> (2 :: rat) powi binade x"
    using l(1) by (simp add: power_int_increasing)
  then show False
    using binade_bounds [OF assms(2)] binade_bounds [of x] assms l(2) by force
qed

lemma unit_pos: "0 < (2 :: rat) powi k"
  by (simp add: zero_less_power_int)

lemma half_even_le: "x \<le> of_int n \<Longrightarrow> half_even x \<le> n"
  using half_even_mono [of x "of_int n"] by simp

lemma half_even_ge: "of_int n \<le> x \<Longrightarrow> n \<le> half_even x"
  using half_even_mono [of "of_int n" x] by simp

lemma powi_split: "(2 :: rat) powi (k - 52) * 2 ^ n = 2 powi (k - 52 + int n)"
  by (simp add: power_int_add)

lemma rounded_upper:
  assumes "x < 2 ^ 129"
  shows "rounded x \<le> 2 powi (binade x + 1)"
proof -
  let ?q = "(2 :: rat) powi (binade x - 52)"
  have e: "?q * 2 ^ 53 = 2 powi (binade x + 1)"
    using powi_split [of "binade x" 53] by (simp add: ac_simps)
  then have "x / ?q \<le> of_int (2 ^ 53)"
    using binade_bounds [OF assms] unit_pos [of "binade x - 52"] by (simp add: divide_le_eq mult.commute)
  then have "half_even (x / ?q) \<le> 2 ^ 53"
    by (rule half_even_le)
  then have "of_int (half_even (x / ?q)) \<le> (2 ^ 53 :: rat)"
    by (metis of_int_le_iff of_int_numeral of_int_power)
  then have "of_int (half_even (x / ?q)) * ?q \<le> 2 ^ 53 * ?q"
    using unit_pos [of "binade x - 52"] by (intro mult_right_mono) auto
  with e show ?thesis
    unfolding rounded_def Let_def by (metis mult.commute)
qed

lemma rounded_lower:
  assumes "x < 2 ^ 129" and "- 128 < binade x"
  shows "2 powi (binade x) \<le> rounded x"
proof -
  let ?q = "(2 :: rat) powi (binade x - 52)"
  have e: "?q * 2 ^ 52 = 2 powi binade x"
    using powi_split [of "binade x" 52] by simp
  then have "of_int (2 ^ 52) \<le> x / ?q"
    using binade_bounds [OF assms(1)] assms(2) unit_pos [of "binade x - 52"] by (simp add: le_divide_eq mult.commute)
  then have "2 ^ 52 \<le> half_even (x / ?q)"
    by (rule half_even_ge)
  then have "(2 ^ 52 :: rat) \<le> of_int (half_even (x / ?q))"
    by (metis of_int_le_iff of_int_numeral of_int_power)
  then have "2 ^ 52 * ?q \<le> of_int (half_even (x / ?q)) * ?q"
    using unit_pos [of "binade x - 52"] by (intro mult_right_mono) auto
  with e show ?thesis
    unfolding rounded_def Let_def by (metis mult.commute)
qed

lemma rounded_mono:
  assumes "x \<le> y" and "y < 2 ^ 129"
  shows "rounded x \<le> rounded y"
proof (cases "binade x = binade y")
  case True
  have "half_even (x / 2 powi (binade y - 52)) \<le> half_even (y / 2 powi (binade y - 52))"
    using unit_pos [of "binade y - 52"] assms(1) by (intro half_even_mono divide_right_mono) auto
  then show ?thesis
    using True unit_pos [of "binade y - 52"] by (simp add: rounded_def Let_def mult_right_mono)
next
  case False
  then have l: "binade x + 1 \<le> binade y"
    using binade_mono [OF assms] by simp
  have x: "x < 2 ^ 129" using assms by simp
  have "rounded x \<le> 2 powi (binade x + 1)"
    by (rule rounded_upper [OF x])
  also have "\<dots> \<le> 2 powi binade y"
    using l by (simp add: power_int_increasing)
  also have "\<dots> \<le> rounded y"
    using l binade_bounds [OF x] by (intro rounded_lower [OF assms(2)]) simp
  finally show ?thesis .
qed

lemma rounded_exact:
  assumes "x = of_int m * 2 powi (binade x - 52)"
  shows "rounded x = x"
proof -
  have "x / 2 powi (binade x - 52) = of_int m"
    by (subst assms) (simp add: unit_pos [THEN less_imp_neq, THEN not_sym])
  with assms show ?thesis by (simp add: rounded_def Let_def)
qed

text \<open>An integer of at most 53 bits is a value of the type.\<close>

lemma rounded_small:
  assumes "n < 2 ^ 53"
  shows "rounded (of_nat n) = of_nat n"
proof -
  have b: "binade (of_nat n) \<le> 52"
  proof (rule ccontr)
    assume "\<not> binade (of_nat n) \<le> 52"
    then have "2 powi 53 \<le> (2 :: rat) powi binade (of_nat n)" "- 128 < binade (of_nat n)"
      by (simp_all add: power_int_increasing del: power_int_numeral)
    moreover have "(of_nat n :: rat) < 2 ^ 53"
      using assms by (metis of_nat_less_iff of_nat_numeral of_nat_power)
    moreover have "(of_nat n :: rat) < 2 ^ 129"
      using calculation(3) by (rule less_trans) simp
    ultimately show False
      using binade_bounds [of "of_nat n"] by fastforce
  qed
  define k where "k = 52 - binade (of_nat n)"
  have k: "0 \<le> k" "binade (of_nat n) - 52 = - k"
    using b by (simp_all add: k_def)
  have "(2 :: rat) ^ nat k * 2 powi (- k) = 1"
    using k(1) by (simp add: power_int_def power_one_over)
  then have "(of_nat n :: rat) = of_int (int n * 2 ^ nat k) * 2 powi (binade (of_nat n) - 52)"
    unfolding k(2) by (simp add: mult.assoc)
  then show ?thesis by (rule rounded_exact)
qed

lemma rounded_numeral:
  "rounded 0 = 0" "rounded 1 = 1" "rounded 40 = 40" "rounded 100 = 100"
  using rounded_small [of 0] rounded_small [of 1] rounded_small [of 40] rounded_small [of 100] by simp_all

lemma rounded_nonneg: "0 \<le> x \<Longrightarrow> x < 2 ^ 129 \<Longrightarrow> 0 \<le> rounded x"
  using rounded_mono [of 0 x] by (simp add: rounded_numeral)

lemma rounded_double:
  assumes "1 \<le> x" and "x < 2 ^ 129"
  shows "rounded x \<le> 2 * x"
proof -
  have "binade 1 \<le> binade x"
    by (rule binade_mono [OF assms])
  moreover have "0 \<le> binade (1 :: rat)"
  proof (rule ccontr)
    assume "\<not> 0 \<le> binade (1 :: rat)"
    then have "(2 :: rat) powi (binade 1 + 1) \<le> 2 powi 0"
      by (intro power_int_increasing) simp_all
    then show False
      using binade_bounds [of 1] by simp
  qed
  ultimately have "2 powi binade x \<le> x"
    using binade_bounds [OF assms(2)] by simp
  moreover have "2 powi (binade x + 1) = 2 * (2 :: rat) powi binade x"
    by (simp add: power_int_add)
  ultimately show ?thesis
    using rounded_upper [OF assms(2)] by simp
qed

end
