(* ===== verification/Progress_Bar.thy ===== *)
theory Progress_Bar
  imports Double Hostile_Server
begin

text \<open>
  \<open>printProgressBar\<close> of \<open>client/main.cpp\<close>, the callback that the command line client registers: what it
  prints for a transfer that keeps to its announced size, and what a server can make of it.
\<close>

section \<open>The progress bar\<close>

text \<open>The conversion of a number that is not negative to \<open>int\<close>: outside its range, undefined (\<open>None\<close>).\<close>

definition to_int :: "rat \<Rightarrow> int option" where
  "to_int x = (if \<lfloor>x\<rfloor> < 2 ^ 31 then Some \<lfloor>x\<rfloor> else None)"

definition numerical :: "u64 \<Rightarrow> rat" where
  "numerical w = of_nat (unat w)"

definition progress_ratio :: "u64 \<Rightarrow> u64 \<Rightarrow> rat" where
  "progress_ratio sent n_total = rounded (rounded (numerical sent) / rounded (numerical n_total))"

definition bar_cell :: "int \<Rightarrow> nat \<Rightarrow> char" where
  "bar_cell pos i = (if int i < pos then CHR ''='' else if int i = pos then CHR ''>'' else CHR '' '')"

definition pad_left :: "nat \<Rightarrow> string \<Rightarrow> string" where
  "pad_left n s = replicate (n - length s) (CHR '' '') @ s"

definition printProgressBar :: "u64 \<Rightarrow> u64 \<Rightarrow> string call" where
  "printProgressBar sent n_total =
     (if n_total = 0 then Returns []
      else let ratio = progress_ratio sent n_total in
        case to_int (rounded (ratio * 100)) of
          None \<Rightarrow> UB
        | Some percent \<Rightarrow>
            (case to_int (rounded (40 * ratio)) of
               None \<Rightarrow> UB
             | Some pos \<Rightarrow>
                 Returns (CHR 0x0D # ''['' @ map (bar_cell pos) [0..<40] @ ''] '' @
                   pad_left 3 (to_string (nat percent)) @ ''% ('' @ to_string (unat (sent div 1024)) @ ''/'' @
                   to_string (unat (n_total div 1024)) @ '' KB)'')))"

lemma numerical_less: "numerical w < 2 ^ 64"
proof -
  have "unat w < 2 ^ 64"
    using unsigned_less [of w] by simp
  then show ?thesis
    unfolding numerical_def by (metis of_nat_less_iff of_nat_numeral of_nat_power)
qed

lemma u64_rat: "numerical w < 2 ^ 129"
  using numerical_less [of w] by simp

lemma numerical_simps [simp]: "0 \<le> numerical w" "numerical v \<le> numerical w \<longleftrightarrow> v \<le> w" "numerical 1 = 1"
  by (simp_all only: numerical_def of_nat_0_le_iff of_nat_le_iff word_le_nat_alt unsigned_1 of_nat_1)

lemma rounded_total: "n_total \<noteq> 0 \<Longrightarrow> 1 \<le> rounded (numerical n_total)"
proof -
  assume "n_total \<noteq> 0"
  then have "1 \<le> unat n_total"
    by (metis One_nat_def Suc_leI unat_gt_0)
  then have "(1 :: rat) \<le> numerical n_total"
    unfolding numerical_def by (metis of_nat_1 of_nat_le_iff)
  then show ?thesis
    using rounded_mono [of 1 "numerical n_total"] u64_rat [of n_total] by (simp add: rounded_numeral)
qed

lemma progress_ratio_unit:
  assumes "n_total \<noteq> 0" and "sent \<le> n_total"
  shows "0 \<le> progress_ratio sent n_total \<and> progress_ratio sent n_total \<le> 1"
proof -
  let ?s = "rounded (numerical sent)" and ?t = "rounded (numerical n_total)"
  have "?s \<le> ?t"
    using assms(2) u64_rat by (intro rounded_mono) simp_all
  moreover have "0 \<le> ?s"
    using u64_rat by (intro rounded_nonneg) simp_all
  ultimately have q: "0 \<le> ?s / ?t" "?s / ?t \<le> 1"
    using rounded_total [OF assms(1)] by (simp_all add: divide_le_eq)
  show ?thesis
    unfolding progress_ratio_def
    using rounded_mono [OF q(2)] rounded_nonneg [OF q(1)] q(2) by (simp add: rounded_numeral)
qed

lemma scaled:
  assumes "0 \<le> r" and "r \<le> 1" and "rounded k = k" and "0 \<le> k" and "k \<le> 100"
  shows "0 \<le> rounded (k * r) \<and> rounded (k * r) \<le> k"
proof -
  have p: "0 \<le> k * r" "k * r \<le> k"
    using assms by (simp_all add: mult_left_le)
  moreover have "k < 2 ^ 129"
    using assms(5) by simp
  ultimately show ?thesis
    using rounded_mono [OF p(2)] rounded_nonneg [OF p(1)] assms(3) by simp
qed

theorem progress_bar_shape:
  assumes "n_total \<noteq> 0" and "sent \<le> n_total"
  shows "\<exists>pos percent. pos \<le> 40 \<and> percent \<le> 100 \<and> (sent = n_total \<longrightarrow> pos = 40 \<and> percent = 100) \<and>
    printProgressBar sent n_total =
      Returns (CHR 0x0D # ''['' @ replicate pos (CHR ''='') @
        (if pos < 40 then CHR ''>'' # replicate (39 - pos) (CHR '' '') else []) @ ''] '' @
        pad_left 3 (to_string percent) @ ''% ('' @ to_string (unat (sent div 1024)) @ ''/'' @
        to_string (unat (n_total div 1024)) @ '' KB)'')"
proof -
  let ?r = "progress_ratio sent n_total"
  note r = progress_ratio_unit [OF assms]
  have b: "0 \<le> rounded (?r * 100)" "rounded (?r * 100) \<le> 100" "0 \<le> rounded (40 * ?r)" "rounded (40 * ?r) \<le> 40"
    using scaled [of ?r 100] scaled [of ?r 40] r by (simp_all add: rounded_numeral mult.commute)
  define pos percent where "pos = nat \<lfloor>rounded (40 * ?r)\<rfloor>" and "percent = nat \<lfloor>rounded (?r * 100)\<rfloor>"
  have le: "pos \<le> 40" "percent \<le> 100"
    using b by (simp_all add: pos_def percent_def nat_le_iff floor_le_iff)
  have i: "to_int (rounded (?r * 100)) = Some (int percent)" "to_int (rounded (40 * ?r)) = Some (int pos)"
    using b by (auto simp: to_int_def pos_def percent_def floor_less_iff)
  have "?r = 1" if "sent = n_total"
    using rounded_total [OF assms(1)] that by (simp add: progress_ratio_def rounded_numeral)
  then have full: "sent = n_total \<Longrightarrow> pos = 40 \<and> percent = 100"
    by (simp add: pos_def percent_def rounded_numeral)
  have cells: "map (bar_cell (int pos)) [0..<40] =
    replicate pos (CHR ''='') @ (if pos < 40 then CHR ''>'' # replicate (39 - pos) (CHR '' '') else [])"
    using le(1) by (intro nth_equalityI) (auto simp: bar_cell_def nth_append nth_Cons')
  show ?thesis
    using assms(1) i le full cells
    by (intro exI [of _ pos] exI [of _ percent]) (simp add: printProgressBar_def)
qed

lemma rounded_at_least:
  assumes "of_nat n \<le> x" and "x < 2 ^ 129" and "n < 2 ^ 53"
  shows "of_nat n \<le> rounded x"
  using rounded_mono [OF assms(1,2)] rounded_small [OF assms(3)] by simp

text \<open>More than 2147483647 percent do not fit.\<close>

lemma progress_overflow:
  assumes "21474837 \<le> unat sent"
  shows "printProgressBar sent 1 = UB"
proof -
  let ?s = "numerical sent" and ?r = "progress_ratio sent 1"
  have s: "of_nat 21474837 \<le> ?s"
    using assms by (simp only: numerical_def of_nat_le_iff)
  note u = numerical_less [of sent]
  have a: "of_nat 21474837 \<le> rounded ?s" "rounded ?s \<le> 2 * ?s"
    using rounded_at_least [OF s u64_rat] rounded_double [OF _ u64_rat, of sent] s by simp_all
  have r: "of_nat 21474837 \<le> ?r" "?r \<le> 2 * rounded ?s"
    using rounded_at_least [of 21474837 "rounded ?s"] rounded_double [of "rounded ?s"] a u
    by (simp_all add: progress_ratio_def rounded_numeral)
  have "of_nat 2147483700 \<le> rounded (?r * 100)"
    using r a u by (intro rounded_at_least) simp_all
  then have "2 ^ 31 \<le> \<lfloor>rounded (?r * 100)\<rfloor>"
    by (simp add: le_floor_iff)
  then have "to_int (rounded (?r * 100)) = None"
    by (simp add: to_int_def)
  then show ?thesis
    by (simp add: printProgressBar_def)
qed

section \<open>A server that sends more than it announced\<close>

lemma progress_events [simp]:
  "cl_events (progress n m c) = cl_events c @ (if cl_progress_cb c then [Progress n m] else [])"
  "cl_progress_cb (progress n m c) = cl_progress_cb c"
  by (simp_all add: progress_def)

text \<open>A download only adds events.\<close>

lemma download_loop_events:
  "download_loop fuel T A i n k st f t c = (v, st', f', t', c') \<Longrightarrow> prefix (cl_events c) (cl_events c')"
proof (induction fuel arbitrary: k st f t c)
  case (Suc fuel)
  obtain r t1 where r: "receivePacket T A t = (r, t1)"
    by force
  show ?case
  proof (cases "\<exists>p ci off d. r = Received p \<and> packet_kind p = Some DOWNLOAD_CHUNK \<and>
      parseDownloadChunk p = Parsed (ci, off, d) \<and> ci = i \<and> off = k")
    case True
    then obtain p d where p: "r = Received p" "packet_kind p = Some DOWNLOAD_CHUNK" "parseDownloadChunk p = Parsed (i, k, d)"
      by blast
    obtain st1 f1 where w: "os_write st d f = (st1, f1)"
      by force
    show ?thesis
    proof (cases "d = []")
      case True
      then show ?thesis
        using Suc p r by simp
    next
      case False
      then have "download_loop fuel T A i n (k + size64 (length d)) st1 f1 t1 (progress (k + size64 (length d)) n c) =
          (v, st', f', t', c')"
        using Suc.prems p r w by (simp add: Let_def)
      from Suc.IH [OF this] show ?thesis
        by (auto simp: prefix_def split: if_splits)
    qed
  next
    case False
    with Suc.prems r show ?thesis
      by (cases r) (auto split: if_splits parse.splits prod.splits)
  qed
qed simp

text \<open>C24. A server runs the command line client into undefined behaviour: download does not compare what
  it has received with the announced size, so after announcing one byte a chunk of 21474837 bytes
  makes the client call the progress bar with a percentage that does not fit into an int.\<close>

theorem hostile_progress_undefined:
  assumes "receivePacket T A t = (Received (downloadChunk i 0 d), t1)"
    and "21474837 \<le> length d" and "length d < 2 ^ 32" and "cl_progress_cb c"
    and "download_loop (Suc fuel) T A i 1 0 st f t c = (v, st', f', t', c')"
  shows "\<exists>n. Progress n 1 \<in> set (cl_events c') \<and> printProgressBar n 1 = UB"
proof -
  let ?n = "size64 (length d)"
  have p: "packet_kind (downloadChunk i 0 d) = Some DOWNLOAD_CHUNK" "parseDownloadChunk (downloadChunk i 0 d) = Parsed (i, 0, d)"
    using download_chunk.build_kind [of "(i, 0, d)"] download_chunk.parse_build [of "(i, 0, d)"] assms(3) by simp_all
  obtain st1 f1 where w: "os_write st d f = (st1, f1)" by force
  have "download_loop fuel T A i 1 ?n st1 f1 t1 (progress ?n 1 c) = (v, st', f', t', c')"
    using assms(1,2,5) p w by (cases "d = []") (simp_all add: Let_def)
  from download_loop_events [OF this] have "Progress ?n 1 \<in> set (cl_events c')"
    using assms(4) by (auto simp: prefix_def)
  moreover have "unat ?n = length d"
    using assms(3) by (intro unat_size64_small) simp
  ultimately show ?thesis
    using progress_overflow [of ?n] assms(2) by auto
qed

section \<open>Instances\<close>

lemma progress_bar_shape_witness:
  "\<exists>pos \<le> 40. \<exists>rest. printProgressBar 3 7 = Returns (CHR 0x0D # ''['' @ replicate pos (CHR ''='') @ rest)"
  using progress_bar_shape [of 7 3] by (auto simp: word_le_nat_alt)

lemma hostile_progress_undefined_witness:
  "\<exists>d c' n. snd (snd (snd (snd (download_loop 2 sample_link 30000000 9 1 0 (os_opened 0) sample_fs
      (serialize (downloadChunk 9 0 d), []) (new_client\<lparr>cl_progress_cb := True\<rparr>))))) = c' \<and>
    Progress n 1 \<in> set (cl_events c') \<and> printProgressBar n 1 = UB"
proof -
  obtain b :: bytes where b: "length b = 21474837"
    using Ex_list_of_length by blast
  let ?p = "downloadChunk 9 0 b"
  have p: "consistent ?p" "length (payload ?p) \<le> 30000000"
    using download_chunk.build_consistent [of "(9, 0, b)"] b
    by (simp_all, simp add: codec_simps)
  obtain t1 where r: "receivePacket sample_link 30000000 (serialize ?p, []) = (Received ?p, t1)"
    using sample_link.receivePacket_live [of "(serialize ?p, [])" ?p "[]" 30000000 30000000] p
    by (auto simp: header_len_def)
  obtain v st' f' t' c' where d: "download_loop (Suc 1) sample_link 30000000 9 1 0 (os_opened 0) sample_fs (serialize ?p, [])
      (new_client\<lparr>cl_progress_cb := True\<rparr>) = (v, st', f', t', c')"
    by (metis prod_cases5)
  have "\<exists>n. Progress n 1 \<in> set (cl_events c') \<and> printProgressBar n 1 = UB"
    using hostile_progress_undefined [OF r _ _ _ d] b by simp
  with d show ?thesis
    unfolding numeral_2_eq_2 One_nat_def by (metis snd_conv)
qed

end
